theory Spec2Isabelle
  imports Main "HOL-Library.Word"
begin

section \<open>Errors and results\<close>

text \<open>
  Every exception the Python code can raise is a value. \<open>MemError\<close> is the memory
  subsystem refusing an access to unmapped memory, \<open>PageError\<close> its refusal to map a
  page over an existing one, \<open>StructError\<close> is \<open>struct.error\<close> (a value outside
  the unsigned 32-bit range given to \<open>pck32\<close>, or a buffer of the wrong size given to
  \<open>upck32\<close>), \<open>KeyError\<close> a failed dictionary subscript, and
  \<open>NotImplementedError\<close> carries the message of the \<open>raise\<close>.
\<close>

datatype error = MemError | PageError | StructError | KeyError | NotImplementedError string

definition ebind :: "error + 'a \<Rightarrow> ('a \<Rightarrow> error + 'b) \<Rightarrow> error + 'b" where
  "ebind r f = (case r of Inl e \<Rightarrow> Inl e | Inr v \<Rightarrow> f v)"

section \<open>Emulated memory\<close>

text \<open>
  Modelled from the spec: the page-grained memory subsystem (\<open>jitter.vm\<close>) is not part of
  the source file; the spec gives its interface as map, read, write and isMapped. Addresses
  are Python integers. A byte is mapped when the map has a value for its address; reading or
  writing a range with an unmapped byte is an error, and mapping a page over a mapped byte
  is an error.
\<close>

type_synonym byte = "8 word"
type_synonym vm_t = "int \<Rightarrow> byte option"

definition is_mapped :: "vm_t \<Rightarrow> int \<Rightarrow> nat \<Rightarrow> bool" where
  "is_mapped mem a n = list_all (\<lambda>i. mem (a + int i) \<noteq> None) [0..<n]"

definition poke :: "vm_t \<Rightarrow> int \<Rightarrow> byte list \<Rightarrow> vm_t" where
  "poke mem a bs = (\<lambda>x. if a \<le> x \<and> x < a + int (length bs) then Some (bs ! nat (x - a)) else mem x)"

definition get_mem :: "vm_t \<Rightarrow> int \<Rightarrow> nat \<Rightarrow> error + byte list" where
  "get_mem mem a n =
     (if is_mapped mem a n then Inr (map (\<lambda>i. the (mem (a + int i))) [0..<n]) else Inl MemError)"

definition set_mem :: "vm_t \<Rightarrow> int \<Rightarrow> byte list \<Rightarrow> error + vm_t" where
  "set_mem mem a bs = (if is_mapped mem a (length bs) then Inr (poke mem a bs) else Inl MemError)"

definition add_memory_page :: "vm_t \<Rightarrow> int \<Rightarrow> byte list \<Rightarrow> error + vm_t" where
  "add_memory_page mem a bs =
     (if list_ex (\<lambda>i. mem (a + int i) \<noteq> None) [0..<length bs] then Inl PageError
      else Inr (poke mem a bs))"

section \<open>Packing 32-bit values\<close>

text \<open>
  \<open>pck32\<close> is \<open>struct.pack('I', x)\<close>: four little-endian bytes, and \<open>struct.error\<close>
  for a value outside \<open>0 .. 2^32 - 1\<close>. \<open>upck32\<close> is \<open>struct.unpack('I', s)[0]\<close>.
\<close>

definition pck32_bytes :: "int \<Rightarrow> byte list" where
  "pck32_bytes x = [word_of_int x, word_of_int (x div 256),
                    word_of_int (x div 65536), word_of_int (x div 16777216)]"

definition pck32 :: "int \<Rightarrow> error + byte list" where
  "pck32 x = (if 0 \<le> x \<and> x < 4294967296 then Inr (pck32_bytes x) else Inl StructError)"

definition upck32 :: "byte list \<Rightarrow> error + int" where
  "upck32 bs = (case bs of
       [b0, b1, b2, b3] \<Rightarrow> Inr (uint b0 + 256 * uint b1 + 65536 * uint b2 + 16777216 * uint b3)
     | _ \<Rightarrow> Inl StructError)"

text \<open>\<open>upck32(mem.get_mem(a, 4))\<close> and \<open>mem.set_mem(a, pck32(v))\<close>, as the source writes them.\<close>

definition read32 :: "vm_t \<Rightarrow> int \<Rightarrow> error + int" where
  "read32 mem a = ebind (get_mem mem a 4) upck32"

definition write32 :: "vm_t \<Rightarrow> int \<Rightarrow> int \<Rightarrow> error + vm_t" where
  "write32 mem a v = ebind (pck32 v) (\<lambda>bs. set_mem mem a bs)"

section \<open>The register file\<close>

text \<open>
  Modelled from the spec: the register-file abstraction (\<open>jitter.cpu\<close>) is not part of the
  source file. Its registers are 32-bit: reading one gives the unsigned Python integer
  \<open>uint\<close> (the source packs registers with \<open>pck32\<close> and uses them as addresses), and
  assigning a Python integer keeps its low 32 bits (\<open>word_of_int\<close>). The fifteen
  fields are the registers the source names; the record's extension stands for every other
  register of the file.
\<close>

record cpu_t =
  GS :: "32 word"
  FS :: "32 word"
  ES :: "32 word"
  DS :: "32 word"
  EDI :: "32 word"
  ESI :: "32 word"
  EBX :: "32 word"
  EDX :: "32 word"
  ECX :: "32 word"
  EAX :: "32 word"
  EBP :: "32 word"
  EIP :: "32 word"
  CS :: "32 word"
  ESP :: "32 word"
  SS :: "32 word"

section \<open>The context record\<close>

text \<open>
  Modelled from the spec: the structure declarations (\<open>win_32_structs\<close>) are not part of the
  source file. \<open>ContextException\<close> is the 32-bit x86 context record of the target ABI up
  to and including the stack segment: a flags word, six debug registers, 112 bytes of
  floating-point state, then the selector, general-purpose, instruction-pointer, cs, eflags,
  esp and ss fields, each an unsigned little-endian 32-bit number. The source reads the
  saved stack pointer at offset \<open>0xc4\<close> of the record, which is the esp field here.
\<close>

definition ContextException_sizeof :: nat where "ContextException_sizeof = 0xcc"

definition off_dr0 :: int where "off_dr0 = 0x04"
definition off_dr1 :: int where "off_dr1 = 0x08"
definition off_dr2 :: int where "off_dr2 = 0x0c"
definition off_dr3 :: int where "off_dr3 = 0x10"
definition off_dr4 :: int where "off_dr4 = 0x14"
definition off_dr5 :: int where "off_dr5 = 0x18"
definition off_gs :: int where "off_gs = 0x8c"
definition off_fs :: int where "off_fs = 0x90"
definition off_es :: int where "off_es = 0x94"
definition off_ds :: int where "off_ds = 0x98"
definition off_edi :: int where "off_edi = 0x9c"
definition off_esi :: int where "off_esi = 0xa0"
definition off_ebx :: int where "off_ebx = 0xa4"
definition off_edx :: int where "off_edx = 0xa8"
definition off_ecx :: int where "off_ecx = 0xac"
definition off_eax :: int where "off_eax = 0xb0"
definition off_ebp :: int where "off_ebp = 0xb4"
definition off_eip :: int where "off_eip = 0xb8"
definition off_cs :: int where "off_cs = 0xbc"
definition off_eflags :: int where "off_eflags = 0xc0"
definition off_esp :: int where "off_esp = 0xc4"
definition off_ss :: int where "off_ss = 0xc8"

text \<open>
  \<open>jitter.vm\<close> and \<open>jitter.cpu\<close> are passed separately to the two marshalling functions:
  \<open>regs2ctxt\<close> writes only the memory and \<open>ctxt2regs\<close> only the register file.

  \<open>regs2ctxt\<close>: zero-fill the record (\<open>ctxt.memset\<close>), zero the six debug registers, then
  copy the selectors, the general-purpose registers, eip, cs, esp and ss, in the source's
  order. Each field assignment is a 4-byte write at the field's offset.
\<close>

definition regs2ctxt :: "vm_t \<Rightarrow> 'r cpu_t_scheme \<Rightarrow> int \<Rightarrow> error + vm_t" where
  "regs2ctxt mem regs context_address =
     ebind (set_mem mem context_address (replicate ContextException_sizeof 0)) (\<lambda>mem.
     ebind (write32 mem (context_address + off_dr0) 0) (\<lambda>mem.
     ebind (write32 mem (context_address + off_dr1) 0) (\<lambda>mem.
     ebind (write32 mem (context_address + off_dr2) 0) (\<lambda>mem.
     ebind (write32 mem (context_address + off_dr3) 0) (\<lambda>mem.
     ebind (write32 mem (context_address + off_dr4) 0) (\<lambda>mem.
     ebind (write32 mem (context_address + off_dr5) 0) (\<lambda>mem.
     ebind (write32 mem (context_address + off_gs) (uint (GS regs))) (\<lambda>mem.
     ebind (write32 mem (context_address + off_fs) (uint (FS regs))) (\<lambda>mem.
     ebind (write32 mem (context_address + off_es) (uint (ES regs))) (\<lambda>mem.
     ebind (write32 mem (context_address + off_ds) (uint (DS regs))) (\<lambda>mem.
     ebind (write32 mem (context_address + off_edi) (uint (EDI regs))) (\<lambda>mem.
     ebind (write32 mem (context_address + off_esi) (uint (ESI regs))) (\<lambda>mem.
     ebind (write32 mem (context_address + off_ebx) (uint (EBX regs))) (\<lambda>mem.
     ebind (write32 mem (context_address + off_edx) (uint (EDX regs))) (\<lambda>mem.
     ebind (write32 mem (context_address + off_ecx) (uint (ECX regs))) (\<lambda>mem.
     ebind (write32 mem (context_address + off_eax) (uint (EAX regs))) (\<lambda>mem.
     ebind (write32 mem (context_address + off_ebp) (uint (EBP regs))) (\<lambda>mem.
     ebind (write32 mem (context_address + off_eip) (uint (EIP regs))) (\<lambda>mem.
     ebind (write32 mem (context_address + off_cs) (uint (CS regs))) (\<lambda>mem.
     ebind (write32 mem (context_address + off_esp) (uint (ESP regs))) (\<lambda>mem.
     write32 mem (context_address + off_ss) (uint (SS regs)))))))))))))))))))))))"

text \<open>\<open>ctxt2regs\<close>: read the covered fields back into the register file, in the source's order.\<close>

definition ctxt2regs :: "vm_t \<Rightarrow> 'r cpu_t_scheme \<Rightarrow> int \<Rightarrow> error + 'r cpu_t_scheme" where
  "ctxt2regs mem regs ctxt_ptr =
     ebind (read32 mem (ctxt_ptr + off_gs)) (\<lambda>v. let regs = regs\<lparr>GS := word_of_int v\<rparr> in
     ebind (read32 mem (ctxt_ptr + off_fs)) (\<lambda>v. let regs = regs\<lparr>FS := word_of_int v\<rparr> in
     ebind (read32 mem (ctxt_ptr + off_es)) (\<lambda>v. let regs = regs\<lparr>ES := word_of_int v\<rparr> in
     ebind (read32 mem (ctxt_ptr + off_ds)) (\<lambda>v. let regs = regs\<lparr>DS := word_of_int v\<rparr> in
     ebind (read32 mem (ctxt_ptr + off_edi)) (\<lambda>v. let regs = regs\<lparr>EDI := word_of_int v\<rparr> in
     ebind (read32 mem (ctxt_ptr + off_esi)) (\<lambda>v. let regs = regs\<lparr>ESI := word_of_int v\<rparr> in
     ebind (read32 mem (ctxt_ptr + off_ebx)) (\<lambda>v. let regs = regs\<lparr>EBX := word_of_int v\<rparr> in
     ebind (read32 mem (ctxt_ptr + off_edx)) (\<lambda>v. let regs = regs\<lparr>EDX := word_of_int v\<rparr> in
     ebind (read32 mem (ctxt_ptr + off_ecx)) (\<lambda>v. let regs = regs\<lparr>ECX := word_of_int v\<rparr> in
     ebind (read32 mem (ctxt_ptr + off_eax)) (\<lambda>v. let regs = regs\<lparr>EAX := word_of_int v\<rparr> in
     ebind (read32 mem (ctxt_ptr + off_ebp)) (\<lambda>v. let regs = regs\<lparr>EBP := word_of_int v\<rparr> in
     ebind (read32 mem (ctxt_ptr + off_eip)) (\<lambda>v. let regs = regs\<lparr>EIP := word_of_int v\<rparr> in
     ebind (read32 mem (ctxt_ptr + off_cs)) (\<lambda>v. let regs = regs\<lparr>CS := word_of_int v\<rparr> in
     ebind (read32 mem (ctxt_ptr + off_esp)) (\<lambda>v. let regs = regs\<lparr>ESP := word_of_int v\<rparr> in
     ebind (read32 mem (ctxt_ptr + off_ss)) (\<lambda>v. let regs = regs\<lparr>SS := word_of_int v\<rparr> in
     Inr regs)))))))))))))))"

text \<open>The covered fields of the record at \<open>a\<close> hold the registers of \<open>regs\<close>.\<close>

definition ctx_holds :: "vm_t \<Rightarrow> int \<Rightarrow> 'r cpu_t_scheme \<Rightarrow> bool" where
  "ctx_holds mem a regs \<longleftrightarrow>
     read32 mem (a + 0x8c) = Inr (uint (GS regs)) \<and> read32 mem (a + 0x90) = Inr (uint (FS regs)) \<and>
     read32 mem (a + 0x94) = Inr (uint (ES regs)) \<and> read32 mem (a + 0x98) = Inr (uint (DS regs)) \<and>
     read32 mem (a + 0x9c) = Inr (uint (EDI regs)) \<and> read32 mem (a + 0xa0) = Inr (uint (ESI regs)) \<and>
     read32 mem (a + 0xa4) = Inr (uint (EBX regs)) \<and> read32 mem (a + 0xa8) = Inr (uint (EDX regs)) \<and>
     read32 mem (a + 0xac) = Inr (uint (ECX regs)) \<and> read32 mem (a + 0xb0) = Inr (uint (EAX regs)) \<and>
     read32 mem (a + 0xb4) = Inr (uint (EBP regs)) \<and> read32 mem (a + 0xb8) = Inr (uint (EIP regs)) \<and>
     read32 mem (a + 0xbc) = Inr (uint (CS regs)) \<and> read32 mem (a + 0xc4) = Inr (uint (ESP regs)) \<and>
     read32 mem (a + 0xc8) = Inr (uint (SS regs))"

section \<open>Constants of the module\<close>

definition FS_0_AD :: int where "FS_0_AD = 0x7ff70000"
definition PEB_AD :: int where "PEB_AD = 0x7ffdf000"
definition LDR_AD :: int where "LDR_AD = 0x340000"
definition DEFAULT_SEH :: int where "DEFAULT_SEH = 0x7ffff000"
definition tib_address :: int where "tib_address = FS_0_AD"
definition peb_ldr_data_offset :: int where "peb_ldr_data_offset = 0x1ea0"
definition peb_ldr_data_address :: int where "peb_ldr_data_address = LDR_AD + peb_ldr_data_offset"
definition return_from_exception :: int where "return_from_exception = 0x6eadbeef"
definition MAX_SEH :: int where "MAX_SEH = 5"
definition EXCEPTION_ACCESS_VIOLATION :: int where "EXCEPTION_ACCESS_VIOLATION = 0xc0000005"

section \<open>The emulator state\<close>

text \<open>
  The jitter holds the memory, the register file, the program counter and the two pending
  fault flags cleared by \<open>set_exception\<close>. The module's global fault counter
  \<open>seh_count\<close> and the records written to its logger are kept in the same state. The
  logger's level is \<open>INFO\<close>, so \<open>log.debug\<close> calls leave no record.
\<close>

datatype level = INFO | WARNING

record 'r jitter_t =
  vm :: vm_t
  cpu :: "'r cpu_t_scheme"
  pc :: int
  vm_exception :: int
  cpu_exception :: int
  seh_count :: int
  log :: "(level \<times> string) list"

definition log_info :: "string \<Rightarrow> 'r jitter_t \<Rightarrow> 'r jitter_t" where
  "log_info msg j = j\<lparr>log := log j @ [(INFO, msg)]\<rparr>"

definition log_warn :: "string \<Rightarrow> 'r jitter_t \<Rightarrow> 'r jitter_t" where
  "log_warn msg j = j\<lparr>log := log j @ [(WARNING, msg)]\<rparr>"

text \<open>
  Modelled from the spec: \<open>jitter.push_uint32_t\<close> is not part of the source file. A push
  decrements the stack pointer register by 4 and writes the packed value at the new stack
  pointer.
\<close>

definition push_uint32_t :: "'r jitter_t \<Rightarrow> int \<Rightarrow> error + 'r jitter_t" where
  "push_uint32_t j v =
     (let j = j\<lparr>cpu := (cpu j)\<lparr>ESP := word_of_int (uint (ESP (cpu j)) - 4)\<rparr>\<rparr> in
      ebind (write32 (vm j) (uint (ESP (cpu j))) v) (\<lambda>mem'. Inr (j\<lparr>vm := mem'\<rparr>)))"

section \<open>The process environment block\<close>

text \<open>
  A PE image object: its identity (Python compares and hashes these objects by identity)
  and the image base read by \<open>build_peb\<close>. An image object is always true in a
  condition; an absent one is \<open>None\<close>.
\<close>

record pe_t =
  pe_ident :: nat
  ImageBase :: int

text \<open>
  Modelled from the spec: the \<open>PEB\<close> structure declaration is not part of the source file.
  The image-base field is at offset 8 and the loader-data pointer at offset \<open>0xC\<close>, the
  two 4-byte fields \<open>build_peb\<close> allocates.
\<close>

definition PEB_ImageBaseAddress :: int where "PEB_ImageBaseAddress = 0x8"
definition PEB_Ldr :: int where "PEB_Ldr = 0xC"

text \<open>\<open>main_pe\<close> is the module's global of that name.\<close>

definition build_peb :: "vm_t \<Rightarrow> pe_t option \<Rightarrow> int \<Rightarrow> error + vm_t" where
  "build_peb mem main_pe peb_address =
     (let (offset, length) = (if main_pe \<noteq> None then (peb_address + 8, 4) else (peb_address + 0xC, 0));
          length = length + 4 in
      ebind (add_memory_page mem offset (replicate length 0)) (\<lambda>mem.
      ebind (case main_pe of
               Some p \<Rightarrow> write32 mem (peb_address + PEB_ImageBaseAddress) (ImageBase p)
             | None \<Rightarrow> Inr mem) (\<lambda>mem.
      write32 mem (peb_address + PEB_Ldr) peb_ldr_data_address)))"

section \<open>The module registry\<close>

record LoadedModules =
  modules :: "pe_t list"
  name2module :: "string \<rightharpoonup> pe_t"
  module2entry :: "pe_t \<rightharpoonup> int"
  module2name :: "pe_t \<rightharpoonup> string"

definition LoadedModules_init :: LoadedModules where
  "LoadedModules_init =
     \<lparr>modules = [], name2module = Map.empty, module2entry = Map.empty, module2name = Map.empty\<rparr>"

definition add :: "LoadedModules \<Rightarrow> string \<Rightarrow> pe_t \<Rightarrow> int \<Rightarrow> LoadedModules" where
  "add mi name module module_entry =
     mi\<lparr>modules := modules mi @ [module],
        name2module := (name2module mi)(name \<mapsto> module),
        module2entry := (module2entry mi)(module \<mapsto> module_entry),
        module2name := (module2name mi)(module \<mapsto> name)\<rparr>"

text \<open>A dictionary subscript \<open>d[k]\<close> raises \<open>KeyError\<close> for a missing key.\<close>

definition subscript :: "('k \<rightharpoonup> 'v) \<Rightarrow> 'k \<Rightarrow> error + 'v" where
  "subscript d k = (case d k of None \<Rightarrow> Inl KeyError | Some v \<Rightarrow> Inr v)"

section \<open>The loader lists\<close>

text \<open>
  One iteration of the loop of \<open>set_link_list_entry\<close>, for the index \<open>i\<close> of
  \<open>enumerate(loaded_modules)\<close>. Python's \<open>%\<close> is never negative for a positive modulus,
  as \<open>mod\<close> on \<open>int\<close>.
\<close>

definition set_link_list_entry_step ::
    "vm_t \<Rightarrow> pe_t list \<Rightarrow> LoadedModules \<Rightarrow> int \<Rightarrow> nat \<Rightarrow> error + vm_t" where
  "set_link_list_entry_step mem loaded_modules modules_info offset i =
     ebind (subscript (module2entry modules_info) (loaded_modules ! i)) (\<lambda>cur_module_entry.
     let prev_module = loaded_modules ! nat ((int i - 1) mod int (length loaded_modules));
         next_module = loaded_modules ! nat ((int i + 1) mod int (length loaded_modules)) in
     ebind (subscript (module2entry modules_info) prev_module) (\<lambda>prev_module_entry.
     ebind (subscript (module2entry modules_info) next_module) (\<lambda>next_module_entry.
     let prev_module_entry = (if i = 0 then peb_ldr_data_address + 0xC else prev_module_entry);
         next_module_entry = (if int i = int (length loaded_modules) - 1
                              then peb_ldr_data_address + 0xC else next_module_entry) in
     ebind (pck32 (next_module_entry + offset)) (\<lambda>flink.
     ebind (pck32 (prev_module_entry + offset)) (\<lambda>blink.
     set_mem mem (cur_module_entry + offset) (flink @ blink))))))"

fun set_link_list_entry_loop ::
    "vm_t \<Rightarrow> pe_t list \<Rightarrow> LoadedModules \<Rightarrow> int \<Rightarrow> nat list \<Rightarrow> error + vm_t" where
  "set_link_list_entry_loop mem loaded_modules modules_info offset [] = Inr mem"
| "set_link_list_entry_loop mem loaded_modules modules_info offset (i # rest) =
     ebind (set_link_list_entry_step mem loaded_modules modules_info offset i) (\<lambda>mem.
     set_link_list_entry_loop mem loaded_modules modules_info offset rest)"

definition set_link_list_entry ::
    "vm_t \<Rightarrow> pe_t list \<Rightarrow> LoadedModules \<Rightarrow> int \<Rightarrow> error + vm_t" where
  "set_link_list_entry mem loaded_modules modules_info offset =
     set_link_list_entry_loop mem loaded_modules modules_info offset [0..<length loaded_modules]"

text \<open>The slice assignment \<open>xs[i:i] = ys\<close>.\<close>

definition slice_insert :: "'a list \<Rightarrow> nat \<Rightarrow> 'a list \<Rightarrow> 'a list" where
  "slice_insert xs i ys = take i xs @ ys @ drop i xs"

text \<open>
  The three fixups. \<open>main_pe_name\<close> is the module's global of that name, passed as an
  argument. \<open>all(special_modules)\<close> holds when none of the three lookups gave \<open>None\<close>.
\<close>

definition fix_InLoadOrderModuleList ::
    "string \<Rightarrow> 'r jitter_t \<Rightarrow> LoadedModules \<Rightarrow> error + 'r jitter_t" where
  "fix_InLoadOrderModuleList main_pe_name j modules_info =
     (let main_pe = name2module modules_info main_pe_name;
          kernel32_pe = name2module modules_info ''kernel32.dll'';
          ntdll_pe = name2module modules_info ''ntdll.dll'';
          special_modules = [main_pe, kernel32_pe, ntdll_pe];
          (j, loaded_modules) =
            (if \<not> list_all (\<lambda>m. m \<noteq> None) special_modules
             then (log_warn ''No main pe, ldr data will be unconsistant %r'' j, modules modules_info)
             else (j, let loaded_modules =
                            filter (\<lambda>module. Some module \<notin> set special_modules) (modules modules_info);
                          loaded_modules = slice_insert loaded_modules 0 [the main_pe];
                          loaded_modules = slice_insert loaded_modules 1 [the ntdll_pe];
                          loaded_modules = slice_insert loaded_modules 2 [the kernel32_pe]
                      in loaded_modules)) in
      ebind (set_link_list_entry (vm j) loaded_modules modules_info 0x0) (\<lambda>mem'. Inr (j\<lparr>vm := mem'\<rparr>)))"

definition fix_InMemoryOrderModuleList ::
    "string \<Rightarrow> 'r jitter_t \<Rightarrow> LoadedModules \<Rightarrow> error + 'r jitter_t" where
  "fix_InMemoryOrderModuleList main_pe_name j modules_info =
     (let main_pe = name2module modules_info main_pe_name;
          kernel32_pe = name2module modules_info ''kernel32.dll'';
          ntdll_pe = name2module modules_info ''ntdll.dll'';
          special_modules = [main_pe, kernel32_pe, ntdll_pe];
          (j, loaded_modules) =
            (if \<not> list_all (\<lambda>m. m \<noteq> None) special_modules
             then (log_warn ''No main pe, ldr data will be unconsistant'' j, modules modules_info)
             else (j, let loaded_modules =
                            filter (\<lambda>module. Some module \<notin> set special_modules) (modules modules_info);
                          loaded_modules = slice_insert loaded_modules 0 [the main_pe];
                          loaded_modules = slice_insert loaded_modules 1 [the ntdll_pe];
                          loaded_modules = slice_insert loaded_modules 2 [the kernel32_pe]
                      in loaded_modules)) in
      ebind (set_link_list_entry (vm j) loaded_modules modules_info 0x8) (\<lambda>mem'. Inr (j\<lparr>vm := mem'\<rparr>)))"

definition fix_InInitializationOrderModuleList ::
    "string \<Rightarrow> 'r jitter_t \<Rightarrow> LoadedModules \<Rightarrow> error + 'r jitter_t" where
  "fix_InInitializationOrderModuleList main_pe_name j modules_info =
     (let main_pe = name2module modules_info main_pe_name;
          kernel32_pe = name2module modules_info ''kernel32.dll'';
          ntdll_pe = name2module modules_info ''ntdll.dll'';
          special_modules = [main_pe, kernel32_pe, ntdll_pe];
          (j, loaded_modules) =
            (if \<not> list_all (\<lambda>m. m \<noteq> None) special_modules
             then (log_warn ''No main pe, ldr data will be unconsistant'' j, modules modules_info)
             else (j, let loaded_modules =
                            filter (\<lambda>module. Some module \<notin> set special_modules) (modules modules_info);
                          loaded_modules = slice_insert loaded_modules 0 [the ntdll_pe];
                          loaded_modules = slice_insert loaded_modules 1 [the kernel32_pe]
                      in loaded_modules)) in
      ebind (set_link_list_entry (vm j) loaded_modules modules_info 0x10) (\<lambda>mem'. Inr (j\<lparr>vm := mem'\<rparr>)))"

text \<open>
  Modelled from the spec: the \<open>PEB_LDR_DATA\<close>, \<open>ListEntry\<close> and \<open>LdrDataEntry\<close>
  declarations are not part of the source file. The offsets of the three list heads are
  those of the docstring of \<open>build_ldr_data\<close>; a list entry is a forward link followed by
  a backward link, 4 bytes each; a module entry starts with its three list entries.
\<close>

definition ListEntry_sizeof :: nat where "ListEntry_sizeof = 8"
definition ListEntry_flink :: int where "ListEntry_flink = 0"
definition ListEntry_blink :: int where "ListEntry_blink = 4"
definition PEB_LDR_DATA_InLoadOrderModuleList :: int where
  "PEB_LDR_DATA_InLoadOrderModuleList = 0x0c"
definition PEB_LDR_DATA_InMemoryOrderModuleList :: int where
  "PEB_LDR_DATA_InMemoryOrderModuleList = 0x14"
definition PEB_LDR_DATA_InInitializationOrderModuleList :: int where
  "PEB_LDR_DATA_InInitializationOrderModuleList = 0x1c"
definition LdrDataEntry_InMemoryOrderLinks :: int where "LdrDataEntry_InMemoryOrderLinks = 0x8"
definition LdrDataEntry_InInitializationOrderLinks :: int where
  "LdrDataEntry_InInitializationOrderLinks = 0x10"

text \<open>
  \<open>build_ldr_data\<close>. \<open>main_addr_entry\<close> and \<open>ntdll_addr_entry\<close> are bound only when
  their module is present, hence the options.
\<close>

definition build_ldr_data :: "string \<Rightarrow> vm_t \<Rightarrow> LoadedModules \<Rightarrow> error + vm_t" where
  "build_ldr_data main_pe_name mem modules_info =
     (let offset = 0xC;
          addr = LDR_AD + peb_ldr_data_offset;
          main_pe = name2module modules_info main_pe_name;
          ntdll_pe = name2module modules_info ''ntdll.dll'';
          size = 0 in
      ebind (case main_pe of
               None \<Rightarrow> Inr (size, None)
             | Some p \<Rightarrow> ebind (subscript (module2entry modules_info) p)
                           (\<lambda>e. Inr (size + ListEntry_sizeof * 2, Some e)))
        (\<lambda>(size, main_addr_entry).
      ebind (case ntdll_pe of
               None \<Rightarrow> Inr (size, None)
             | Some p \<Rightarrow> ebind (subscript (module2entry modules_info) p)
                           (\<lambda>e. Inr (size + ListEntry_sizeof, Some e)))
        (\<lambda>(size, ntdll_addr_entry).
      ebind (add_memory_page mem (addr + offset) (replicate size 0)) (\<lambda>mem.
      ebind (case main_addr_entry of
               None \<Rightarrow> Inr mem
             | Some e \<Rightarrow>
                 ebind (write32 mem (addr + PEB_LDR_DATA_InLoadOrderModuleList + ListEntry_flink) e)
                   (\<lambda>mem.
                 ebind (write32 mem (addr + PEB_LDR_DATA_InLoadOrderModuleList + ListEntry_blink) 0)
                   (\<lambda>mem.
                 ebind (write32 mem (addr + PEB_LDR_DATA_InMemoryOrderModuleList + ListEntry_flink)
                          (e + LdrDataEntry_InMemoryOrderLinks))
                   (\<lambda>mem.
                 write32 mem (addr + PEB_LDR_DATA_InMemoryOrderModuleList + ListEntry_blink) 0))))
        (\<lambda>mem.
      ebind (case ntdll_addr_entry of
               None \<Rightarrow> Inr mem
             | Some e \<Rightarrow>
                 ebind (write32 mem
                          (addr + PEB_LDR_DATA_InInitializationOrderModuleList + ListEntry_flink)
                          (e + LdrDataEntry_InInitializationOrderLinks))
                   (\<lambda>mem.
                 write32 mem
                   (addr + PEB_LDR_DATA_InInitializationOrderModuleList + ListEntry_blink) 0))
        (\<lambda>mem.
      ebind (pck32 0) (\<lambda>bs. add_memory_page mem (peb_ldr_data_address + 0x24) bs)))))))"

section \<open>The SEH chain walker\<close>

text \<open>\<open>struct.unpack('II', s)\<close> and \<open>struct.unpack('III', s)\<close>.\<close>

definition unpack_II :: "byte list \<Rightarrow> error + (int \<times> int)" where
  "unpack_II bs =
     (if length bs = 8
      then ebind (upck32 (take 4 bs)) (\<lambda>a. ebind (upck32 (drop 4 bs)) (\<lambda>b. Inr (a, b)))
      else Inl StructError)"

definition unpack_III :: "byte list \<Rightarrow> error + (int \<times> int \<times> int)" where
  "unpack_III bs =
     (if length bs = 12
      then ebind (upck32 (take 4 bs)) (\<lambda>a.
           ebind (upck32 (take 4 (drop 4 bs))) (\<lambda>b.
           ebind (upck32 (drop 8 bs)) (\<lambda>c. Inr (a, b, c))))
      else Inl StructError)"

text \<open>\<open>pck32(a) + pck32(b) + ...\<close>, packed from left to right.\<close>

fun pck32s :: "int list \<Rightarrow> error + byte list" where
  "pck32s [] = Inr []"
| "pck32s (x # xs) = ebind (pck32 x) (\<lambda>b. ebind (pck32s xs) (\<lambda>bs. Inr (b @ bs)))"

text \<open>
  The loop of \<open>dump_seh\<close>. It returns the frames it logged, each as
  \<open>(indent, cur_seh_ptr, prev_seh, eh)\<close>, and the way it stopped: the \<open>return\<close> after the
  warning, the \<open>break\<close> on unmapped memory, or the \<open>break\<close> on a zero previous link.
\<close>

datatype walk_end = TooMany | Unmapped | PrevZero

type_synonym seh_frame = "int \<times> int \<times> int \<times> int"

function dump_seh_loop ::
    "vm_t \<Rightarrow> int \<Rightarrow> int \<Rightarrow> int \<Rightarrow> error + (seh_frame list \<times> walk_end)" where
  "dump_seh_loop mem cur_seh_ptr indent loop =
     (if loop > MAX_SEH then Inr ([], TooMany)
      else if \<not> is_mapped mem cur_seh_ptr 8 then Inr ([], Unmapped)
      else (case ebind (get_mem mem cur_seh_ptr 8) unpack_II of
              Inl e \<Rightarrow> Inl e
            | Inr (prev_seh, eh) \<Rightarrow>
                if prev_seh = 0 then Inr ([(indent, cur_seh_ptr, prev_seh, eh)], PrevZero)
                else (case dump_seh_loop mem prev_seh (indent + 1) (loop + 1) of
                        Inl e \<Rightarrow> Inl e
                      | Inr (frames, r) \<Rightarrow>
                          Inr ((indent, cur_seh_ptr, prev_seh, eh) # frames, r))))"
  by pat_completeness auto
termination
  by (relation "measure (\<lambda>(mem, cur_seh_ptr, indent, loop). nat (MAX_SEH + 1 - loop))")
     (auto simp: MAX_SEH_def)

declare dump_seh_loop.simps [simp del]

definition dump_seh :: "'r jitter_t \<Rightarrow> error + 'r jitter_t" where
  "dump_seh j =
     (let j = log_info ''Dump_seh. Tib_address: %x'' j in
      ebind (read32 (vm j) tib_address) (\<lambda>cur_seh_ptr.
      ebind (dump_seh_loop (vm j) cur_seh_ptr 1 0) (\<lambda>(frames, r).
      let j = j\<lparr>log := log j @ map (\<lambda>f. (INFO, ''seh_ptr: %x { prev_seh: %x eh %x }'')) frames\<rparr> in
      Inr (if r = TooMany then log_warn ''Too many seh, quit'' j else j))))"

text \<open>The records a call of \<open>dump_seh\<close> on the memory \<open>mem\<close> appends to the log.\<close>

definition dump_seh_records :: "vm_t \<Rightarrow> (level \<times> string) list" where
  "dump_seh_records mem =
     (case ebind (read32 mem tib_address) (\<lambda>cur_seh_ptr. dump_seh_loop mem cur_seh_ptr 1 0) of
        Inl e \<Rightarrow> []
      | Inr (frames, r) \<Rightarrow>
          (INFO, ''Dump_seh. Tib_address: %x'') #
          map (\<lambda>f. (INFO, ''seh_ptr: %x { prev_seh: %x eh %x }'')) frames @
          (if r = TooMany then [(WARNING, ''Too many seh, quit'')] else []))"

section \<open>The SEH dispatcher\<close>

definition fake_seh_handler :: "'r jitter_t \<Rightarrow> int \<Rightarrow> error + (int \<times> 'r jitter_t)" where
  "fake_seh_handler j except_code =
     (let j = log_warn ''Exception at %x %r'' j;
          j = j\<lparr>seh_count := seh_count j + 1\<rparr>;
          new_ESP = uint (ESP (cpu j)) - 0x3c8;
          exception_base_address = new_ESP;
          exception_record_address = exception_base_address + 0xe8;
          context_address = exception_base_address + 0xfc;
          fake_seh_address = exception_base_address + 0x14 in
      ebind (regs2ctxt (vm j) (cpu j) context_address) (\<lambda>mem. let j = j\<lparr>vm := mem\<rparr> in
      ebind (read32 (vm j) tib_address) (\<lambda>seh_ptr.
      ebind (ebind (get_mem (vm j) seh_ptr 0xc) unpack_III) (\<lambda>(old_seh, eh, safe_place).
      let j = log_info ''seh_ptr %x { old_seh %x eh %x safe_place %x} ctx_addr %x'' j;
          j = j\<lparr>cpu := (cpu j)\<lparr>ESP := word_of_int new_ESP\<rparr>\<rparr> in
      ebind (pck32s [except_code, 0, 0, uint (EIP (cpu j)), 0]) (\<lambda>bs.
      ebind (set_mem (vm j) exception_record_address bs) (\<lambda>mem. let j = j\<lparr>vm := mem\<rparr> in
      ebind (push_uint32_t j context_address) (\<lambda>j.
      ebind (push_uint32_t j seh_ptr) (\<lambda>j.
      ebind (push_uint32_t j exception_record_address) (\<lambda>j.
      ebind (push_uint32_t j return_from_exception) (\<lambda>j.
      let j = log_info ''Fake seh ad %x'' j in
      ebind (pck32s [seh_ptr, 0xaaaaaaaa, 0xaaaaaabb, 0xaaaaaacc]) (\<lambda>bs.
      ebind (set_mem (vm j) fake_seh_address bs) (\<lambda>mem. let j = j\<lparr>vm := mem\<rparr> in
      ebind (write32 (vm j) tib_address fake_seh_address) (\<lambda>mem. let j = j\<lparr>vm := mem\<rparr> in
      ebind (dump_seh j) (\<lambda>j.
      let j = log_info ''Jumping at %x'' j;
          j = j\<lparr>vm_exception := 0\<rparr>;
          j = j\<lparr>cpu_exception := 0\<rparr>;
          j = j\<lparr>cpu := (cpu j)\<lparr>EBX := 0\<rparr>\<rparr> in
      Inr (eh, j)))))))))))))))"

text \<open>
  \<open>return_from_seh\<close>. The register read \<open>jitter.cpu.EAX\<close> is the unsigned value of the
  register, which the three branches compare with \<open>0\<close>, \<open>-1\<close> and \<open>1\<close>; when none
  matches, the function ends without raising.
\<close>

definition return_from_seh :: "'r jitter_t \<Rightarrow> error + 'r jitter_t" where
  "return_from_seh j =
     ebind (read32 (vm j) (uint (ESP (cpu j)) + 0x8)) (\<lambda>context_address.
     let j = log_info ''Context address: %x'' j in
     ebind (read32 (vm j) (context_address + 0xc4)) (\<lambda>esp.
     let j = j\<lparr>cpu := (cpu j)\<lparr>ESP := word_of_int esp\<rparr>\<rparr>;
         j = log_info ''New esp: %x'' j in
     ebind (read32 (vm j) tib_address) (\<lambda>old_seh.
     ebind (read32 (vm j) old_seh) (\<lambda>new_seh.
     let j = log_info ''Old seh: %x New seh: %x'' j in
     ebind (write32 (vm j) tib_address new_seh) (\<lambda>mem. let j = j\<lparr>vm := mem\<rparr> in
     ebind (dump_seh j) (\<lambda>j.
     if uint (EAX (cpu j)) = 0x0 then
       (let ctxt_ptr = context_address;
            j = log_info ''Seh continues Context: %x'' j in
        ebind (ctxt2regs (vm j) (cpu j) ctxt_ptr) (\<lambda>regs.
        let j = j\<lparr>cpu := regs\<rparr>;
            j = j\<lparr>pc := uint (EIP (cpu j))\<rparr>;
            j = log_info ''Context::Eip: %x'' j in
        Inr j))
     else if uint (EAX (cpu j)) = - 1 then
       Inl (NotImplementedError ''-> seh try to go to the next handler'')
     else if uint (EAX (cpu j)) = 1 then
       Inl (NotImplementedError ''-> seh, gameover'')
     else Inr j))))))"

section \<open>Reading the loader lists\<close>

text \<open>
  The calls of \<open>init_seh\<close> that link the module entries and write the list heads, in
  its order: the three fixups, then \<open>build_ldr_data\<close>.
\<close>

definition init_seh_lists ::
    "string \<Rightarrow> 'r jitter_t \<Rightarrow> LoadedModules \<Rightarrow> error + 'r jitter_t" where
  "init_seh_lists main_pe_name j modules_info =
     ebind (fix_InLoadOrderModuleList main_pe_name j modules_info) (\<lambda>j.
     ebind (fix_InMemoryOrderModuleList main_pe_name j modules_info) (\<lambda>j.
     ebind (fix_InInitializationOrderModuleList main_pe_name j modules_info) (\<lambda>j.
     ebind (build_ldr_data main_pe_name (vm j) modules_info) (\<lambda>mem.
     Inr (j\<lparr>vm := mem\<rparr>)))))"

text \<open>
  A registry is built by successive calls of \<open>add\<close>, each with a name, an image object
  and an entry address.
\<close>

definition register_all :: "(string \<times> pe_t \<times> int) list \<Rightarrow> LoadedModules" where
  "register_all regs = foldl (\<lambda>mi (name, module, entry). add mi name module entry) LoadedModules_init regs"

text \<open>
  The head of the list threaded through the link fields at \<open>offset\<close> of the entries, and
  the address of that link field in the entry of a module.
\<close>

definition list_head :: "int \<Rightarrow> int" where
  "list_head offset = peb_ldr_data_address + 0xC + offset"

definition link_of :: "LoadedModules \<Rightarrow> int \<Rightarrow> pe_t \<Rightarrow> int" where
  "link_of mi offset m = the (module2entry mi m) + offset"

text \<open>
  How a guest walks a list: from a link, follow the pointers at offset \<open>d\<close> (0 for the
  forward link, 4 for the backward link) until the head comes back. The result is the
  sequence of links visited before the head, or \<open>None\<close> when a link cannot be read or the
  head is not reached within \<open>fuel\<close> steps.
\<close>

fun follow :: "vm_t \<Rightarrow> int \<Rightarrow> int \<Rightarrow> int \<Rightarrow> nat \<Rightarrow> int list option" where
  "follow mem d head cur 0 = None"
| "follow mem d head cur (Suc fuel) =
     (if cur = head then Some []
      else case read32 mem (cur + d) of
             Inl e \<Rightarrow> None
           | Inr nxt \<Rightarrow> map_option ((#) cur) (follow mem d head nxt fuel))"

definition traverse :: "vm_t \<Rightarrow> int \<Rightarrow> int \<Rightarrow> nat \<Rightarrow> int list option" where
  "traverse mem d head fuel =
     (case read32 mem (head + d) of Inl e \<Rightarrow> None | Inr first \<Rightarrow> follow mem d head first fuel)"

text \<open>
  The member sequences the specification requires: for the load and memory orders the main
  executable, ntdll, kernel32, then every other registered module in registration order;
  for the initialization order the same without the main executable; and plain registration
  order when one of the three is absent.
\<close>

definition specials :: "string \<Rightarrow> LoadedModules \<Rightarrow> pe_t option list" where
  "specials main_pe_name mi =
     [name2module mi main_pe_name, name2module mi ''ntdll.dll'', name2module mi ''kernel32.dll'']"

definition required_load_order :: "string \<Rightarrow> LoadedModules \<Rightarrow> pe_t list" where
  "required_load_order main_pe_name mi =
     (if list_all (\<lambda>s. s \<noteq> None) (specials main_pe_name mi)
      then map the (specials main_pe_name mi) @
           filter (\<lambda>m. Some m \<notin> set (specials main_pe_name mi)) (modules mi)
      else modules mi)"

definition required_init_order :: "string \<Rightarrow> LoadedModules \<Rightarrow> pe_t list" where
  "required_init_order main_pe_name mi =
     (if list_all (\<lambda>s. s \<noteq> None) (specials main_pe_name mi)
      then map the (tl (specials main_pe_name mi)) @
           filter (\<lambda>m. Some m \<notin> set (specials main_pe_name mi)) (modules mi)
      else modules mi)"

text \<open>
  A registry whose modules are distinct objects, each with an entry whose three link pairs
  (the first \<open>0x18\<close> bytes) are mapped, below \<open>2^32\<close>, and apart from every other entry.
\<close>

definition entries_ok :: "vm_t \<Rightarrow> LoadedModules \<Rightarrow> bool" where
  "entries_ok mem mi \<longleftrightarrow>
     distinct (modules mi) \<and>
     list_all (\<lambda>m. case module2entry mi m of
                      None \<Rightarrow> False
                    | Some e \<Rightarrow> 0 \<le> e \<and> e + 0x18 \<le> 4294967296 \<and> is_mapped mem e 0x18)
       (modules mi) \<and>
     list_all (\<lambda>m. list_all (\<lambda>m'. m = m' \<or>
                  the (module2entry mi m) + 0x18 \<le> the (module2entry mi m') \<or>
                  the (module2entry mi m') + 0x18 \<le> the (module2entry mi m)) (modules mi))
       (modules mi)"

text \<open>The three named modules are present, registered, and three different objects.\<close>

definition specials_ok :: "string \<Rightarrow> LoadedModules \<Rightarrow> bool" where
  "specials_ok main_pe_name mi \<longleftrightarrow>
     list_all (\<lambda>s. case s of None \<Rightarrow> False | Some m \<Rightarrow> m \<in> set (modules mi))
       (specials main_pe_name mi) \<and>
     distinct (specials main_pe_name mi)"

text \<open>The bytes of the three list heads and of the dummy base are not mapped yet.\<close>

definition heads_free :: "vm_t \<Rightarrow> bool" where
  "heads_free mem \<longleftrightarrow> list_all (\<lambda>i. mem (peb_ldr_data_address + 0xC + int i) = None) [0..<0x1c]"

text \<open>
  The members \<open>ms\<close> are linked in this order through the link fields at \<open>offset\<close>: the
  forward link of each is the next member, or the head for the last, and the backward link
  of each is the member before, or the head for the first.
\<close>

definition linked :: "vm_t \<Rightarrow> LoadedModules \<Rightarrow> int \<Rightarrow> pe_t list \<Rightarrow> bool" where
  "linked mem mi offset ms \<longleftrightarrow>
     list_all (\<lambda>i.
        read32 mem (link_of mi offset (ms ! i)) =
          Inr (if Suc i = length ms then list_head offset else link_of mi offset (ms ! Suc i)) \<and>
        read32 mem (link_of mi offset (ms ! i) + 4) =
          Inr (if i = 0 then list_head offset else link_of mi offset (ms ! (i - 1))))
       [0..<length ms]"

text \<open>
  What the linking of the members \<open>lm\<close> through \<open>offset\<close> relies on: the members are
  distinct, each has an entry below \<open>2^32\<close>, different members have entries apart, and
  the link pair at \<open>offset\<close> lies within the first \<open>0x18\<close> bytes of an entry.
\<close>

definition links_wf :: "LoadedModules \<Rightarrow> pe_t list \<Rightarrow> int \<Rightarrow> bool" where
  "links_wf mi lm offset \<longleftrightarrow>
     distinct lm \<and>
     (\<forall>m \<in> set lm. \<exists>e. module2entry mi m = Some e \<and> 0 \<le> e \<and> e + 0x18 \<le> 4294967296) \<and>
     (\<forall>m \<in> set lm. \<forall>m' \<in> set lm. m = m' \<or>
        the (module2entry mi m) + 0x18 \<le> the (module2entry mi m') \<or>
        the (module2entry mi m') + 0x18 \<le> the (module2entry mi m)) \<and>
     0 \<le> offset \<and> offset + 8 \<le> 0x18"

section \<open>Fault dispatch and the guest handler\<close>

text \<open>
  A machine state in which a fault can be dispatched: the stack has room for the exception
  frame and the four pushed words below the stack pointer, in mapped memory; the
  exception-chain head slot of the thread information block is mapped and lies outside
  that stack range; and the frame the head points to is readable.
\<close>

definition frame_ready :: "'r jitter_t \<Rightarrow> bool" where
  "frame_ready j \<longleftrightarrow>
     0x3d8 \<le> uint (ESP (cpu j)) \<and>
     is_mapped (vm j) (uint (ESP (cpu j)) - 0x3d8) 0x3d8 \<and>
     is_mapped (vm j) tib_address 4 \<and>
     (tib_address + 4 \<le> uint (ESP (cpu j)) - 0x3d8 \<or> uint (ESP (cpu j)) \<le> tib_address) \<and>
     (case read32 (vm j) tib_address of Inl e \<Rightarrow> False | Inr seh_ptr \<Rightarrow> is_mapped (vm j) seh_ptr 0xc)"

text \<open>
  The simulated guest handler of the claims: it changes nothing, puts its disposition in
  \<open>EAX\<close> and executes a plain return, which pops the return address into the instruction
  pointer.
\<close>

definition handler_returns :: "'r jitter_t \<Rightarrow> 32 word \<Rightarrow> error + 'r jitter_t" where
  "handler_returns j disposition =
     ebind (read32 (vm j) (uint (ESP (cpu j)))) (\<lambda>ret.
     Inr (j\<lparr>cpu := (cpu j)\<lparr>EAX := disposition, EIP := word_of_int ret, ESP := ESP (cpu j) + 4\<rparr>,
            pc := ret\<rparr>))"

section \<open>Concrete states\<close>

text \<open>
  A memory with one zero-filled mapped range, and two register files, for evaluating the
  functions on concrete inputs.
\<close>

definition zero_page :: "int \<Rightarrow> int \<Rightarrow> vm_t" where
  "zero_page lo hi = (\<lambda>x. if lo \<le> x \<and> x < hi then Some 0 else None)"

definition regs_A :: cpu_t where
  "regs_A = \<lparr>GS = 0x00, FS = 0x3b, ES = 0x23, DS = 0x24, EDI = 0x11111111, ESI = 0x22222222,
              EBX = 0x33333333, EDX = 0x44444444, ECX = 0x55555555, EAX = 0x66666666,
              EBP = 0x0012ff70, EIP = 0x00401000, CS = 0x1b, ESP = 0x0012ff00, SS = 0x25\<rparr>"

text \<open>
  A machine state at a fault: a stack page holding one exception frame at \<open>0x12ffe0\<close>
  (previous link \<open>0xffffffff\<close>, handler \<open>0x401234\<close>), the exception-chain head slot
  of the thread information block pointing to it, and the registers \<open>regs_A\<close>.
\<close>

definition mem_A :: vm_t where
  "mem_A =
     poke (poke (\<lambda>x. if (0x12f000 \<le> x \<and> x < 0x130000) \<or> (0x7ff70000 \<le> x \<and> x < 0x7ff70004)
                      then Some 0 else None)
             tib_address (pck32_bytes 0x12ffe0))
       0x12ffe0 (pck32_bytes 0xffffffff @ pck32_bytes 0x401234 @ pck32_bytes 0)"

definition jitter_A :: "unit jitter_t" where
  "jitter_A = \<lparr>vm = mem_A, cpu = regs_A, pc = 0x401000, vm_exception = 1, cpu_exception = 0,
                seh_count = 0, log = []\<rparr>"

text \<open>A chain engineered to reference itself: the frame at \<open>0x1000\<close> is its own previous frame.\<close>

definition mem_loop :: vm_t where
  "mem_loop = poke (zero_page 0x1000 0x2000) 0x1000 (pck32_bytes 0x1000 @ pck32_bytes 0x401234)"

definition regs_B :: cpu_t where
  "regs_B = \<lparr>GS = 1, FS = 2, ES = 3, DS = 4, EDI = 5, ESI = 6, EBX = 7, EDX = 8, ECX = 9,
              EAX = 10, EBP = 11, EIP = 12, CS = 13, ESP = 14, SS = 15\<rparr>"

text \<open>
  Four image objects and two registries, with the entry addresses \<open>create_modules_chain\<close>
  gives (\<open>LDR_AD + modules_list_offset + i * 0x1000\<close>): one holding the main executable
  \<open>app.exe\<close>, \<open>ntdll.dll\<close>, \<open>kernel32.dll\<close> and \<open>foo.dll\<close>, registered in
  another order, and one without \<open>ntdll.dll\<close> and \<open>kernel32.dll\<close>. The memory of
  \<open>jitter_L\<close> has the entries mapped and the list heads not yet.
\<close>

definition pe_app :: pe_t where "pe_app = \<lparr>pe_ident = 0, ImageBase = 0x400000\<rparr>"
definition pe_ntdll :: pe_t where "pe_ntdll = \<lparr>pe_ident = 1, ImageBase = 0x7c900000\<rparr>"
definition pe_kernel32 :: pe_t where "pe_kernel32 = \<lparr>pe_ident = 2, ImageBase = 0x7c800000\<rparr>"
definition pe_foo :: pe_t where "pe_foo = \<lparr>pe_ident = 3, ImageBase = 0x10000000\<rparr>"

definition mi_full :: LoadedModules where
  "mi_full = register_all [(''foo.dll'', pe_foo, 0x342f00), (''kernel32.dll'', pe_kernel32, 0x343f00),
                           (''app.exe'', pe_app, 0x344f00), (''ntdll.dll'', pe_ntdll, 0x345f00)]"

definition mi_degraded :: LoadedModules where
  "mi_degraded = register_all [(''foo.dll'', pe_foo, 0x342f00), (''app.exe'', pe_app, 0x343f00)]"

definition jitter_L :: "unit jitter_t" where
  "jitter_L = \<lparr>vm = zero_page 0x342000 0x347000, cpu = regs_A, pc = 0x401000, vm_exception = 0,
                cpu_exception = 0, seh_count = 0, log = []\<rparr>"

section \<open>Memory and packing lemmas\<close>

lemma is_mapped_iff: "is_mapped mem a n \<longleftrightarrow> (\<forall>i. 0 \<le> i \<and> i < int n \<longrightarrow> mem (a + i) \<noteq> None)"
proof
  assume h: "is_mapped mem a n"
  show "\<forall>i. 0 \<le> i \<and> i < int n \<longrightarrow> mem (a + i) \<noteq> None"
  proof (intro allI impI)
    fix i :: int assume "0 \<le> i \<and> i < int n"
    then have "nat i < n" "int (nat i) = i" by auto
    with h show "mem (a + i) \<noteq> None"
      unfolding is_mapped_def list_all_iff by (metis atLeastLessThan_iff set_upt zero_le)
  qed
next
  assume "\<forall>i. 0 \<le> i \<and> i < int n \<longrightarrow> mem (a + i) \<noteq> None"
  then show "is_mapped mem a n" unfolding is_mapped_def list_all_iff by auto
qed

lemma is_mapped_poke: "is_mapped mem b n \<Longrightarrow> is_mapped (poke mem a bs) b n"
  by (auto simp: is_mapped_iff poke_def)

lemma is_mapped_sub: "is_mapped mem a n \<Longrightarrow> a \<le> b \<Longrightarrow> b + int m \<le> a + int n \<Longrightarrow> is_mapped mem b m"
  unfolding is_mapped_iff
proof (intro allI impI)
  fix i assume h: "\<forall>i. 0 \<le> i \<and> i < int n \<longrightarrow> mem (a + i) \<noteq> None" "a \<le> b" "b + int m \<le> a + int n" "0 \<le> i \<and> i < int m"
  then have "0 \<le> (b - a) + i \<and> (b - a) + i < int n" by auto
  with h(1) have "mem (a + ((b - a) + i)) \<noteq> None" by blast
  then show "mem (b + i) \<noteq> None" by (simp add: algebra_simps)
qed

lemma get_mem_poke_same: "get_mem (poke mem a bs) a (length bs) = Inr bs"
proof -
  have m: "is_mapped (poke mem a bs) a (length bs)" by (auto simp: is_mapped_iff poke_def)
  have "map (\<lambda>i. the (poke mem a bs (a + int i))) [0..<length bs] = bs"
    by (rule nth_equalityI) (auto simp: poke_def)
  with m show ?thesis by (simp add: get_mem_def)
qed

lemma poke_other: "x < a \<or> a + int (length bs) \<le> x \<Longrightarrow> poke mem a bs x = mem x"
  by (auto simp: poke_def)

lemma get_mem_poke_other:
  assumes "b + int n \<le> a \<or> a + int (length bs) \<le> b"
  shows "get_mem (poke mem a bs) b n = get_mem mem b n"
proof -
  have "\<And>i. 0 \<le> i \<Longrightarrow> i < int n \<Longrightarrow> poke mem a bs (b + i) = mem (b + i)"
    using assms by (auto simp: poke_def)
  then have e: "\<And>i. i < n \<Longrightarrow> poke mem a bs (b + int i) = mem (b + int i)" by simp
  have "is_mapped (poke mem a bs) b n = is_mapped mem b n"
    unfolding is_mapped_def list_all_iff using e by auto
  moreover have "map (\<lambda>i. the (poke mem a bs (b + int i))) [0..<n] = map (\<lambda>i. the (mem (b + int i))) [0..<n]"
    using e by auto
  ultimately show ?thesis by (simp add: get_mem_def)
qed

lemma upck32_pck32_bytes: "0 \<le> v \<Longrightarrow> v < 4294967296 \<Longrightarrow> upck32 (pck32_bytes v) = Inr v"
proof -
  assume h: "0 \<le> v" "v < 4294967296"
  define b where "b = v div 256"
  define c where "c = b div 256"
  define d where "d = c div 256"
  have e1: "v div 65536 = c" unfolding c_def b_def by (simp add: zdiv_zmult2_eq [symmetric])
  have e2: "v div 16777216 = d" unfolding d_def c_def b_def by (simp add: zdiv_zmult2_eq [symmetric])
  have d3: "d < 256" "0 \<le> d" using h unfolding d_def c_def b_def by (simp_all add: zdiv_zmult2_eq [symmetric])
  have v: "v = v mod 256 + 256 * b" unfolding b_def by simp
  have b: "b = b mod 256 + 256 * c" unfolding c_def by simp
  have c: "c = c mod 256 + 256 * d" unfolding d_def by simp
  have "v mod 256 + 256 * (b mod 256) + 65536 * (c mod 256) + 16777216 * (d mod 256) = v"
    using v b c d3 by simp
  then show ?thesis
    unfolding upck32_def pck32_bytes_def
    by (simp add: uint_word_of_int e1 e2 b_def [symmetric])
qed

lemma length_pck32_bytes: "length (pck32_bytes v) = 4" by (simp add: pck32_bytes_def)

lemma read32_poke_same: "0 \<le> v \<Longrightarrow> v < 4294967296 \<Longrightarrow> read32 (poke mem a (pck32_bytes v)) a = Inr v"
  using get_mem_poke_same [of mem a "pck32_bytes v"]
  by (simp add: read32_def ebind_def length_pck32_bytes upck32_pck32_bytes)

lemma read32_poke_other: "b + 4 \<le> a \<or> a + int (length bs) \<le> b \<Longrightarrow> read32 (poke mem a bs) b = read32 mem b"
  using get_mem_poke_other [of b 4 a bs mem] by (simp add: read32_def)

lemma write32_ok: "is_mapped mem a 4 \<Longrightarrow> 0 \<le> v \<Longrightarrow> v < 4294967296 \<Longrightarrow> write32 mem a v = Inr (poke mem a (pck32_bytes v))"
  by (simp add: write32_def pck32_def ebind_def set_mem_def length_pck32_bytes)

lemma read32_poke_zero: "a \<le> b \<Longrightarrow> b + 4 \<le> a + int n \<Longrightarrow> read32 (poke mem a (replicate n 0)) b = Inr 0"
proof -
  assume h: "a \<le> b" "b + 4 \<le> a + int n"
  have "\<And>i. i < 4 \<Longrightarrow> poke mem a (replicate n 0) (b + int i) = Some 0"
    using h by (auto simp: poke_def)
  then have e: "\<And>i. i \<in> set [0..<4] \<Longrightarrow> poke mem a (replicate n 0) (b + int i) = Some 0" by simp
  have m: "is_mapped (poke mem a (replicate n 0)) b 4"
    unfolding is_mapped_def list_all_iff using e by simp
  have "map (\<lambda>i. the (poke mem a (replicate n 0) (b + int i))) [0..<4] = map (\<lambda>i. 0) [0..<4]"
    by (rule map_cong[OF refl]) (use e in simp)
  also have "\<dots> = [0,0,0,0]" by (simp add: upt_rec)
  finally show ?thesis using m by (simp add: read32_def get_mem_def ebind_def upck32_def)
qed

lemma u32: "0 \<le> uint (w :: 32 word)" "uint (w :: 32 word) < 4294967296"
  using uint_bounded [of w] by simp_all

lemma regs2ctxt_ok:
  assumes m: "is_mapped mem a ContextException_sizeof"
  shows "\<exists>mem'. regs2ctxt mem regs a = Inr mem' \<and> ctx_holds mem' a regs
           \<and> (\<forall>x. x < a \<or> a + 0xcc \<le> x \<longrightarrow> mem' x = mem x)
           \<and> (\<forall>b n. is_mapped mem b n \<longrightarrow> is_mapped mem' b n)
           \<and> read32 mem' (a + off_dr0) = Inr 0 \<and> read32 mem' (a + off_dr1) = Inr 0
           \<and> read32 mem' (a + off_dr2) = Inr 0 \<and> read32 mem' (a + off_dr3) = Inr 0
           \<and> read32 mem' (a + off_dr4) = Inr 0 \<and> read32 mem' (a + off_dr5) = Inr 0
           \<and> read32 mem' (a + off_eflags) = Inr 0"
proof -
  have f: "\<And>k. 0 \<le> k \<Longrightarrow> k + 4 \<le> 0xcc \<Longrightarrow> is_mapped mem (a + k) 4"
    using m by (auto intro: is_mapped_sub simp: ContextException_sizeof_def)
  have z: "set_mem mem a (replicate ContextException_sizeof 0) = Inr (poke mem a (replicate ContextException_sizeof 0))"
    using m by (simp add: set_mem_def)
  show ?thesis
    unfolding regs2ctxt_def z
    apply (simp add: ebind_def write32_ok is_mapped_poke f u32 off_dr0_def off_dr1_def off_dr2_def off_dr3_def off_dr4_def off_dr5_def
        off_gs_def off_fs_def off_es_def off_ds_def off_edi_def off_esi_def off_ebx_def
        off_edx_def off_ecx_def off_eax_def off_ebp_def off_eip_def off_cs_def off_eflags_def
        off_esp_def off_ss_def)
    apply (simp add: ctx_holds_def read32_poke_same read32_poke_other read32_poke_zero u32 length_pck32_bytes
        ContextException_sizeof_def poke_other is_mapped_poke)
    done
qed

lemma ctxt2regs_ok:
  assumes "ctx_holds mem a regs"
  shows "ctxt2regs mem regs' a =
     Inr (regs'\<lparr>GS := GS regs, FS := FS regs, ES := ES regs, DS := DS regs, EDI := EDI regs,
               ESI := ESI regs, EBX := EBX regs, EDX := EDX regs, ECX := ECX regs, EAX := EAX regs,
               EBP := EBP regs, EIP := EIP regs, CS := CS regs, ESP := ESP regs, SS := SS regs\<rparr>)"
  using assms unfolding ctx_holds_def ctxt2regs_def
  by (simp add: ebind_def off_gs_def off_fs_def off_es_def off_ds_def off_edi_def off_esi_def off_ebx_def
        off_edx_def off_ecx_def off_eax_def off_ebp_def off_eip_def off_cs_def off_esp_def off_ss_def)

text \<open>
  C3. For every register file, \<open>regs2ctxt\<close> into a mapped context record followed by
  \<open>ctxt2regs\<close> from the same record, into any register file, gives a register file whose
  covered fields (gs, fs, es, ds, edi, esi, ebx, edx, ecx, eax, ebp, eip, cs, esp, ss) are
  those saved, with every other register untouched; and after \<open>regs2ctxt\<close> the fields
  dr0 to dr5 and eflags of the record read as zero.
\<close>

theorem regs2ctxt_ctxt2regs_roundtrip:
  assumes "is_mapped mem context_address ContextException_sizeof"
  shows "\<exists>mem'. regs2ctxt mem regs context_address = Inr mem' \<and>
           (\<exists>regs''. ctxt2regs mem' regs' context_address = Inr regs'' \<and>
              GS regs'' = GS regs \<and> FS regs'' = FS regs \<and> ES regs'' = ES regs \<and>
              DS regs'' = DS regs \<and> EDI regs'' = EDI regs \<and> ESI regs'' = ESI regs \<and>
              EBX regs'' = EBX regs \<and> EDX regs'' = EDX regs \<and> ECX regs'' = ECX regs \<and>
              EAX regs'' = EAX regs \<and> EBP regs'' = EBP regs \<and> EIP regs'' = EIP regs \<and>
              CS regs'' = CS regs \<and> ESP regs'' = ESP regs \<and> SS regs'' = SS regs \<and>
              cpu_t.more regs'' = cpu_t.more regs') \<and>
           read32 mem' (context_address + off_dr0) = Inr 0 \<and>
           read32 mem' (context_address + off_dr1) = Inr 0 \<and>
           read32 mem' (context_address + off_dr2) = Inr 0 \<and>
           read32 mem' (context_address + off_dr3) = Inr 0 \<and>
           read32 mem' (context_address + off_dr4) = Inr 0 \<and>
           read32 mem' (context_address + off_dr5) = Inr 0 \<and>
           read32 mem' (context_address + off_eflags) = Inr 0"
proof -
  from regs2ctxt_ok [OF assms, of regs] obtain mem' where
    r: "regs2ctxt mem regs context_address = Inr mem'" and h: "ctx_holds mem' context_address regs"
    and z: "read32 mem' (context_address + off_dr0) = Inr 0"
      "read32 mem' (context_address + off_dr1) = Inr 0"
      "read32 mem' (context_address + off_dr2) = Inr 0"
      "read32 mem' (context_address + off_dr3) = Inr 0"
      "read32 mem' (context_address + off_dr4) = Inr 0"
      "read32 mem' (context_address + off_dr5) = Inr 0"
      "read32 mem' (context_address + off_eflags) = Inr 0"
    by blast
  show ?thesis using r z ctxt2regs_ok [OF h, of regs'] by simp
qed

lemma zero_page_mapped: "lo \<le> a \<Longrightarrow> a + int n \<le> hi \<Longrightarrow> is_mapped (zero_page lo hi) a n"
  by (auto simp: is_mapped_iff zero_page_def)

theorem regs2ctxt_ctxt2regs_roundtrip_witness:
  "is_mapped (zero_page 0x1000 0x2000) 0x1000 ContextException_sizeof \<and>
   (\<exists>mem'. regs2ctxt (zero_page 0x1000 0x2000) regs_A 0x1000 = Inr mem' \<and>
      ctxt2regs mem' regs_B 0x1000 = Inr regs_A \<and>
      read32 mem' (0x1000 + off_dr0) = Inr 0 \<and> read32 mem' (0x1000 + off_eflags) = Inr 0)"
proof -
  have m: "is_mapped (zero_page 0x1000 0x2000) 0x1000 ContextException_sizeof"
    by (rule zero_page_mapped) (simp_all add: ContextException_sizeof_def)
  from regs2ctxt_ctxt2regs_roundtrip [OF m, of regs_A regs_B] obtain mem' regs'' where
    a: "regs2ctxt (zero_page 0x1000 0x2000) regs_A 0x1000 = Inr mem'"
    and b: "ctxt2regs mem' regs_B 0x1000 = Inr regs''"
    and c: "GS regs'' = GS regs_A" "FS regs'' = FS regs_A" "ES regs'' = ES regs_A"
      "DS regs'' = DS regs_A" "EDI regs'' = EDI regs_A" "ESI regs'' = ESI regs_A"
      "EBX regs'' = EBX regs_A" "EDX regs'' = EDX regs_A" "ECX regs'' = ECX regs_A"
      "EAX regs'' = EAX regs_A" "EBP regs'' = EBP regs_A" "EIP regs'' = EIP regs_A"
      "CS regs'' = CS regs_A" "ESP regs'' = ESP regs_A" "SS regs'' = SS regs_A"
    and z: "read32 mem' (0x1000 + off_dr0) = Inr 0" "read32 mem' (0x1000 + off_eflags) = Inr 0"
    by blast
  from c have "regs'' = regs_A" by (cases regs'') (simp add: regs_A_def)
  with m a b z show ?thesis by blast
qed

section \<open>The chain walker always returns\<close>

lemma upck32_len4: "length bs = 4 \<Longrightarrow> \<exists>v. upck32 bs = Inr v \<and> 0 \<le> v \<and> v < 4294967296"
proof -
  assume "length bs = 4"
  then obtain b0 b1 b2 b3 where bs: "bs = [b0, b1, b2, b3]"
    by (cases bs; simp; rename_tac x xs; case_tac xs; simp; rename_tac y ys; case_tac ys; simp;
        rename_tac z zs; case_tac zs; simp)
  have "uint b0 < 256" "uint b1 < 256" "uint b2 < 256" "uint b3 < 256"
       "0 \<le> uint b0" "0 \<le> uint b1" "0 \<le> uint b2" "0 \<le> uint b3"
    using uint_bounded [of b0] uint_bounded [of b1] uint_bounded [of b2] uint_bounded [of b3]
    by simp_all
  then show ?thesis unfolding bs upck32_def by simp
qed

lemma get_mem_length: "get_mem mem a n = Inr bs \<Longrightarrow> length bs = n"
  by (auto simp: get_mem_def split: if_splits)

lemma read32_range: "read32 mem a = Inr v \<Longrightarrow> 0 \<le> v \<and> v < 4294967296"
proof -
  assume h: "read32 mem a = Inr v"
  then obtain bs where g: "get_mem mem a 4 = Inr bs" and u: "upck32 bs = Inr v"
    by (auto simp: read32_def ebind_def split: sum.splits)
  from upck32_len4 [OF get_mem_length [OF g]] u show ?thesis by auto
qed

lemma read32_mapped: "is_mapped mem a 4 \<Longrightarrow> \<exists>v. read32 mem a = Inr v"
proof -
  assume m: "is_mapped mem a 4"
  then obtain bs where g: "get_mem mem a 4 = Inr bs" by (simp add: get_mem_def)
  from upck32_len4 [OF get_mem_length [OF g]] g show ?thesis
    by (auto simp: read32_def ebind_def)
qed

lemma unpack_II_ok: "length bs = 8 \<Longrightarrow> \<exists>a b. unpack_II bs = Inr (a, b)"
proof -
  assume l: "length bs = 8"
  then have "length (take 4 bs) = 4" "length (drop 4 bs) = 4" by simp_all
  from upck32_len4 [OF this(1)] upck32_len4 [OF this(2)] l show ?thesis
    by (auto simp: unpack_II_def ebind_def)
qed

lemma unpack_III_ok: "length bs = 12 \<Longrightarrow> \<exists>a b c. unpack_III bs = Inr (a, b, c)"
proof -
  assume l: "length bs = 12"
  then have "length (take 4 bs) = 4" "length (take 4 (drop 4 bs)) = 4" "length (drop 8 bs) = 4"
    by simp_all
  from upck32_len4 [OF this(1)] upck32_len4 [OF this(2)] upck32_len4 [OF this(3)] l show ?thesis
    by (auto simp: unpack_III_def ebind_def)
qed

lemma dump_seh_loop_total: "\<exists>r. dump_seh_loop mem cur indent loop = Inr r"
proof (induction mem cur indent loop rule: dump_seh_loop.induct)
  case (1 mem cur indent loop)
  show ?case
  proof (cases "loop > MAX_SEH")
    case True then show ?thesis by (subst dump_seh_loop.simps) simp
  next
    case F1: False
    show ?thesis
    proof (cases "is_mapped mem cur 8")
      case False with F1 show ?thesis by (subst dump_seh_loop.simps) simp
    next
      case True
      then obtain bs where g: "get_mem mem cur 8 = Inr bs" by (simp add: get_mem_def)
      from unpack_II_ok [OF get_mem_length [OF g]] obtain p e where u: "unpack_II bs = Inr (p, e)"
        by blast
      have eb: "ebind (get_mem mem cur 8) unpack_II = Inr (p, e)" by (simp add: g u ebind_def)
      show ?thesis
      proof (cases "p = 0")
        case True with F1 \<open>is_mapped mem cur 8\<close> eb show ?thesis
          by (subst dump_seh_loop.simps) simp
      next
        case False
        from "1.IH" [OF F1 _ eb refl False] \<open>is_mapped mem cur 8\<close>
        obtain r where "dump_seh_loop mem p (indent + 1) (loop + 1) = Inr r" by auto
        with F1 \<open>is_mapped mem cur 8\<close> eb False show ?thesis
          by (subst dump_seh_loop.simps) (cases r, simp)
      qed
    qed
  qed
qed

lemma dump_seh_ok:
  assumes "is_mapped (vm j) tib_address 4"
  shows "dump_seh j = Inr (j\<lparr>log := log j @ dump_seh_records (vm j)\<rparr>)"
proof -
  from read32_mapped [OF assms] obtain c where c: "read32 (vm j) tib_address = Inr c" by blast
  from dump_seh_loop_total obtain fr r where d: "dump_seh_loop (vm j) c 1 0 = Inr (fr, r)"
    by (metis surj_pair)
  show ?thesis
    unfolding dump_seh_def dump_seh_records_def
    by (simp add: log_info_def log_warn_def c d ebind_def Let_def)
qed

section \<open>Fault dispatch and resume\<close>

lemma poke_append: "poke mem a (xs @ ys) = poke (poke mem a xs) (a + int (length xs)) ys"
proof (rule ext)
  fix x
  show "poke mem a (xs @ ys) x = poke (poke mem a xs) (a + int (length xs)) ys x"
  proof (cases "a \<le> x \<and> x < a + int (length xs)")
    case True
    then have "nat (x - a) < length xs" by auto
    with True show ?thesis by (simp add: poke_def nth_append)
  next
    case False
    show ?thesis
    proof (cases "a + int (length xs) \<le> x \<and> x < a + int (length xs) + int (length ys)")
      case True
      then have "\<not> nat (x - a) < length xs" "nat (x - a) - length xs = nat (x - (a + int (length xs)))"
        by auto
      with True show ?thesis by (simp add: poke_def nth_append)
    next
      case F2: False
      with False show ?thesis by (auto simp: poke_def)
    qed
  qed
qed

lemma read32_cong: "(\<And>x. a \<le> x \<Longrightarrow> x < a + 4 \<Longrightarrow> m1 x = m2 x) \<Longrightarrow> read32 m1 a = read32 m2 a"
proof -
  assume h: "\<And>x. a \<le> x \<Longrightarrow> x < a + 4 \<Longrightarrow> m1 x = m2 x"
  then have e: "\<And>i. i < (4::nat) \<Longrightarrow> m1 (a + int i) = m2 (a + int i)" by simp
  have "is_mapped m1 a 4 = is_mapped m2 a 4"
    unfolding is_mapped_def list_all_iff using e by auto
  moreover have "map (\<lambda>i. the (m1 (a + int i))) [0..<4] = map (\<lambda>i. the (m2 (a + int i))) [0..<4]"
    by (rule map_cong [OF refl]) (use e in simp)
  ultimately show ?thesis unfolding read32_def get_mem_def by (simp only:)
qed

lemma uint_sub32: "uint k \<le> uint (w :: 32 word) \<Longrightarrow> uint (w - k) = uint w - uint k"
  by (simp add: uint_sub_lem)

lemma get_mem_mapped: "is_mapped mem a n \<Longrightarrow> \<exists>bs. get_mem mem a n = Inr bs \<and> length bs = n"
  by (simp add: get_mem_def)

lemma pck32s_ok: "list_all (\<lambda>x. 0 \<le> x \<and> x < 4294967296) xs \<Longrightarrow> pck32s xs = Inr (concat (map pck32_bytes xs))"
  by (induction xs) (auto simp: ebind_def pck32_def)

lemma uint_wi32: "0 \<le> x \<Longrightarrow> x < 4294967296 \<Longrightarrow> uint (word_of_int x :: 32 word) = x"
  by (simp add: uint_word_of_int)

lemma push_ok:
  assumes "4 \<le> uint (ESP (cpu j))" "is_mapped (vm j) (uint (ESP (cpu j)) - 4) 4" "0 \<le> v" "v < 4294967296"
  shows "push_uint32_t j v =
     Inr (j\<lparr>cpu := (cpu j)\<lparr>ESP := ESP (cpu j) - 4\<rparr>,
            vm := poke (vm j) (uint (ESP (cpu j)) - 4) (pck32_bytes v)\<rparr>)"
proof -
  have u: "uint (ESP (cpu j) - 4) = uint (ESP (cpu j)) - 4"
    using assms(1) uint_sub32 [of 4 "ESP (cpu j)"] by simp
  show ?thesis unfolding push_uint32_t_def
    by (simp add: Let_def u write32_ok assms ebind_def)
qed

lemma length_concat_pck: "length (concat (map pck32_bytes xs)) = 4 * length xs"
  by (induction xs) (simp_all add: length_pck32_bytes)

lemma fake_seh_handler_ok:
  fixes j :: "'r jitter_t"
  assumes fr: "frame_ready j" and c: "0 \<le> code" "code < 4294967296"
  shows "\<exists>eh j' seh_ptr. fake_seh_handler j code = Inr (eh, j') \<and>
      read32 (vm j) tib_address = Inr seh_ptr \<and>
      cpu j' = (cpu j)\<lparr>ESP := ESP (cpu j) - 0x3d8, EBX := 0\<rparr> \<and>
      ctx_holds (vm j') (uint (ESP (cpu j)) - 0x3c8 + 0xfc) (cpu j) \<and>
      read32 (vm j') (uint (ESP (cpu j)) - 0x3c8 - 4) = Inr (uint (ESP (cpu j)) - 0x3c8 + 0xfc) \<and>
      read32 (vm j') (uint (ESP (cpu j)) - 0x3c8 - 16) = Inr return_from_exception \<and>
      read32 (vm j') tib_address = Inr (uint (ESP (cpu j)) - 0x3c8 + 0x14) \<and>
      read32 (vm j') (uint (ESP (cpu j)) - 0x3c8 + 0x14) = Inr seh_ptr \<and>
      read32 (vm j') (uint (ESP (cpu j)) - 0x3c8 + 0xe8) = Inr code \<and>
      read32 (vm j') (uint (ESP (cpu j)) - 0x3c8 + 0xe8 + 4) = Inr 0 \<and>
      read32 (vm j') (uint (ESP (cpu j)) - 0x3c8 + 0xe8 + 8) = Inr 0 \<and>
      read32 (vm j') (uint (ESP (cpu j)) - 0x3c8 + 0xe8 + 12) = Inr (uint (EIP (cpu j))) \<and>
      read32 (vm j') (uint (ESP (cpu j)) - 0x3c8 + 0xe8 + 16) = Inr 0 \<and>
      (\<forall>b n. is_mapped (vm j) b n \<longrightarrow> is_mapped (vm j') b n) \<and>
      pc j' = pc j \<and> vm_exception j' = 0 \<and> cpu_exception j' = 0 \<and> seh_count j' = seh_count j + 1"
proof -
  let ?E = "uint (ESP (cpu j))"
  have E: "984 \<le> ?E" "?E < 4294967296"
    using fr uint_bounded [of "ESP (cpu j)"] by (simp_all add: frame_ready_def)
  have mf: "is_mapped (vm j) (?E - 984) 984" and mt: "is_mapped (vm j) tib_address 4"
    and dj: "tib_address + 4 \<le> ?E - 984 \<or> ?E \<le> tib_address"
    using fr by (simp_all add: frame_ready_def)
  from read32_mapped [OF mt] obtain seh_ptr where sp: "read32 (vm j) tib_address = Inr seh_ptr" by blast
  have ms: "is_mapped (vm j) seh_ptr 12" using fr sp by (simp add: frame_ready_def)
  have spr: "0 \<le> seh_ptr" "seh_ptr < 4294967296" using read32_range [OF sp] by simp_all
  have sub: "\<And>k n. 0 \<le> k \<Longrightarrow> k + int n \<le> 984 \<Longrightarrow> is_mapped (vm j) (?E - 984 + k) n"
    using mf by (auto intro: is_mapped_sub)
  have "is_mapped (vm j) (?E - 984 + 268) ContextException_sizeof"
    by (rule sub) (simp_all add: ContextException_sizeof_def)
  then have "is_mapped (vm j) (?E - 716) ContextException_sizeof" by simp
  from regs2ctxt_ok [OF this, of "cpu j"] obtain mem1 where
    p1: "regs2ctxt (vm j) (cpu j) (?E - 716) = Inr mem1" and p2: "ctx_holds mem1 (?E - 716) (cpu j)"
    and p3: "\<And>x. x < ?E - 716 \<or> ?E - 716 + 204 \<le> x \<Longrightarrow> mem1 x = vm j x"
    and p4: "\<And>b n. is_mapped (vm j) b n \<Longrightarrow> is_mapped mem1 b n"
    by auto
  have sp1: "read32 mem1 tib_address = Inr seh_ptr"
    using read32_cong [of tib_address mem1 "vm j"] p3 dj sp by auto
  from get_mem_mapped [OF p4 [OF ms]] obtain bs where g: "get_mem mem1 seh_ptr 12 = Inr bs" "length bs = 12"
    by blast
  from unpack_III_ok [OF g(2)] obtain old_seh eh safe_place where
    u: "unpack_III bs = Inr (old_seh, eh, safe_place)" by blast
  have eip: "0 \<le> uint (EIP (cpu j))" "uint (EIP (cpu j)) < 4294967296"
    using uint_bounded [of "EIP (cpu j)"] by simp_all
  have m1: "\<And>k n. 0 \<le> k \<Longrightarrow> k + int n \<le> 984 \<Longrightarrow> is_mapped mem1 (?E - 984 + k) n"
    using sub p4 by blast
  have m1a: "is_mapped mem1 (?E - 736) 20" "is_mapped mem1 (?E - 972) 4" "is_mapped mem1 (?E - 976) 4"
    "is_mapped mem1 (?E - 980) 4" "is_mapped mem1 (?E - 984) 4" "is_mapped mem1 (?E - 948) 16"
    using m1 [of 248 20] m1 [of 12 4] m1 [of 8 4] m1 [of 4 4] m1 [of 0 4] m1 [of 36 16] by simp_all
  have mt1: "is_mapped mem1 tib_address 4" using p4 mt by blast
  have us: "uint (ESP (cpu j) - 968) = ?E - 968" "uint (ESP (cpu j) - 972) = ?E - 972"
    "uint (ESP (cpu j) - 976) = ?E - 976" "uint (ESP (cpu j) - 980) = ?E - 980"
    "uint (ESP (cpu j) - 984) = ?E - 984"
    using E uint_sub32 [of 968 "ESP (cpu j)"] uint_sub32 [of 972 "ESP (cpu j)"]
      uint_sub32 [of 976 "ESP (cpu j)"] uint_sub32 [of 980 "ESP (cpu j)"]
      uint_sub32 [of 984 "ESP (cpu j)"] by simp_all
  define M where "M =
     poke (poke (poke (poke (poke (poke (poke mem1 (?E - 736)
       (pck32_bytes code @ pck32_bytes 0 @ pck32_bytes 0 @ pck32_bytes (uint (EIP (cpu j))) @ pck32_bytes 0))
       (?E - 972) (pck32_bytes (?E - 716)))
       (?E - 976) (pck32_bytes seh_ptr))
       (?E - 980) (pck32_bytes (?E - 736)))
       (?E - 984) (pck32_bytes 1856880367))
       (?E - 948) (pck32_bytes seh_ptr @ pck32_bytes 2863311530 @ pck32_bytes 2863311547 @ pck32_bytes 2863311564))
       tib_address (pck32_bytes (?E - 948))"
  have mM: "\<And>b n. is_mapped mem1 b n \<Longrightarrow> is_mapped M b n"
    unfolding M_def by (intro is_mapped_poke)
  define l where "l = log j @ (WARNING, ''Exception at %x %r'') #
      (INFO, ''seh_ptr %x { old_seh %x eh %x safe_place %x} ctx_addr %x'') #
      (INFO, ''Fake seh ad %x'') # dump_seh_records M @ [(INFO, ''Jumping at %x'')]"
  have res: "fake_seh_handler j code =
     Inr (eh, j\<lparr>seh_count := seh_count j + 1, cpu := (cpu j)\<lparr>ESP := ESP (cpu j) - 984, EBX := 0\<rparr>,
                   log := l, vm := M, vm_exception := 0, cpu_exception := 0\<rparr>)"
    unfolding fake_seh_handler_def M_def l_def
    using E c eip spr
    by (simp add: Let_def log_warn_def log_info_def p1 sp1 g u ebind_def
        pck32_def length_pck32_bytes set_mem_def m1a mt1 is_mapped_poke push_ok us
        return_from_exception_def write32_ok dump_seh_ok split del: if_split)
  have rd: "read32 M (?E - 972) = Inr (?E - 716)" "read32 M (?E - 984) = Inr 1856880367"
    "read32 M tib_address = Inr (?E - 948)" "read32 M (?E - 948) = Inr seh_ptr"
    "read32 M (?E - 736) = Inr code" "read32 M (?E - 732) = Inr 0" "read32 M (?E - 728) = Inr 0"
    "read32 M (?E - 724) = Inr (uint (EIP (cpu j)))" "read32 M (?E - 720) = Inr 0"
    unfolding M_def using E c eip spr dj
    by (auto simp: poke_append length_pck32_bytes read32_poke_same read32_poke_other)
  have ch: "ctx_holds M (?E - 716) (cpu j)"
    using p2 E dj unfolding M_def ctx_holds_def
    by (auto simp: poke_append length_pck32_bytes read32_poke_other)
  let ?J = "j\<lparr>seh_count := seh_count j + 1, cpu := (cpu j)\<lparr>ESP := ESP (cpu j) - 984, EBX := 0\<rparr>,
                   log := l, vm := M, vm_exception := 0, cpu_exception := 0\<rparr>"
  from res rd ch sp mM p4 show ?thesis
    by (intro exI [of _ eh] exI [of _ ?J] exI [of _ seh_ptr]) (simp add: return_from_exception_def)
qed

lemma ctx_holds_poke:
  assumes "ctx_holds mem a regs" "b + int (length bs) \<le> a + 0x8c \<or> a + 0xcc \<le> b"
  shows "ctx_holds (poke mem b bs) a regs"
  using assms unfolding ctx_holds_def by (auto simp: read32_poke_other)

lemma cpu_restore_eq:
  "r\<lparr>GS := GS r, FS := FS r, ES := ES r, DS := DS r, EDI := EDI r, ESI := ESI r, EBX := EBX r,
     EDX := EDX r, ECX := ECX r, EAX := EAX r, EBP := EBP r, EIP := EIP r, CS := CS r,
     ESP := ESP r, SS := SS r\<rparr> = r"
  by simp

lemma uint_eq_one32: "uint (d :: 32 word) = 1 \<longleftrightarrow> d = 1"
  by (metis uint_1 word_uint_eq_iff)

lemma uint_eq_zero32: "uint (d :: 32 word) = 0 \<longleftrightarrow> d = 0"
  by (simp add: uint_0_iff)

lemma uint_ne_minus_one: "uint (d :: 32 word) \<noteq> - 1"
  using uint_ge_0 [of d] by linarith

lemma dispatch_resume:
  fixes j :: "'r jitter_t"
  assumes fr: "frame_ready j" and c: "0 \<le> code" "code < 4294967296"
  shows "\<exists>eh j1 j2 seh_ptr.
      fake_seh_handler j code = Inr (eh, j1) \<and> EBX (cpu j1) = 0 \<and>
      read32 (vm j1) (uint (ESP (cpu j)) - 0x3c8 + 0xfc + off_ebx) = Inr (uint (EBX (cpu j))) \<and>
      handler_returns j1 d = Inr j2 \<and> pc j2 = return_from_exception \<and> EBX (cpu j2) = 0 \<and>
      read32 (vm j) tib_address = Inr seh_ptr \<and>
      (d = 0 \<longrightarrow> (\<exists>j3. return_from_seh j2 = Inr j3 \<and> cpu j3 = cpu j \<and>
                       pc j3 = uint (EIP (cpu j)) \<and> read32 (vm j3) tib_address = Inr seh_ptr)) \<and>
      (d = 1 \<longrightarrow> return_from_seh j2 = Inl (NotImplementedError ''-> seh, gameover'')) \<and>
      (d \<noteq> 0 \<and> d \<noteq> 1 \<longrightarrow> (\<exists>j3. return_from_seh j2 = Inr j3 \<and> pc j3 = return_from_exception \<and>
                       EAX (cpu j3) = d))"
proof -
  let ?E = "uint (ESP (cpu j))"
  have E: "984 \<le> ?E" "?E < 4294967296"
    using fr uint_bounded [of "ESP (cpu j)"] by (simp_all add: frame_ready_def)
  have mt: "is_mapped (vm j) tib_address 4"
    and dj: "tib_address + 4 \<le> ?E - 984 \<or> ?E \<le> tib_address"
    using fr by (simp_all add: frame_ready_def)
  from fake_seh_handler_ok [OF fr c] obtain eh j1 seh_ptr where
    d: "fake_seh_handler j code = Inr (eh, j1)"
    and sp: "read32 (vm j) tib_address = Inr seh_ptr"
    and c1: "cpu j1 = (cpu j)\<lparr>ESP := ESP (cpu j) - 0x3d8, EBX := 0\<rparr>"
    and ch: "ctx_holds (vm j1) (?E - 0x3c8 + 0xfc) (cpu j)"
    and r1: "read32 (vm j1) (?E - 0x3c8 - 4) = Inr (?E - 0x3c8 + 0xfc)"
    and r2: "read32 (vm j1) (?E - 0x3c8 - 16) = Inr return_from_exception"
    and r3: "read32 (vm j1) tib_address = Inr (?E - 0x3c8 + 0x14)"
    and r4: "read32 (vm j1) (?E - 0x3c8 + 0x14) = Inr seh_ptr"
    and mp: "\<And>b n. is_mapped (vm j) b n \<Longrightarrow> is_mapped (vm j1) b n"
    by blast
  have spr: "0 \<le> seh_ptr" "seh_ptr < 4294967296" using read32_range [OF sp] by simp_all
  have us: "uint (ESP (cpu j) - 984) = ?E - 984" "uint (ESP (cpu j) - 980) = ?E - 980"
    using E uint_sub32 [of 984 "ESP (cpu j)"] uint_sub32 [of 980 "ESP (cpu j)"] by simp_all
  define j2 where "j2 = j1\<lparr>cpu := (cpu j1)\<lparr>EAX := d, EIP := word_of_int return_from_exception,
      ESP := ESP (cpu j1) + 4\<rparr>, pc := return_from_exception\<rparr>"
  have h: "handler_returns j1 d = Inr j2"
    unfolding handler_returns_def j2_def using r2 by (simp add: c1 us ebind_def)
  have ebx: "read32 (vm j1) (?E - 0x3c8 + 0xfc + off_ebx) = Inr (uint (EBX (cpu j)))"
    using ch by (simp add: ctx_holds_def off_ebx_def)
  have esp: "read32 (vm j1) (?E - 0x3c8 + 0xfc + 0xc4) = Inr ?E"
    using ch by (simp add: ctx_holds_def)
  have mt1: "is_mapped (vm j1) tib_address 4" using mp mt by blast
  have ch2: "ctx_holds (poke (vm j1) tib_address (pck32_bytes seh_ptr)) (?E - 716) (cpu j)"
    using ch dj E by (intro ctx_holds_poke) (auto simp: length_pck32_bytes)
  define l where "l = log j1 @ [(INFO, ''Context address: %x''), (INFO, ''New esp: %x''),
               (INFO, ''Old seh: %x New seh: %x'')]
             @ dump_seh_records (poke (vm j1) tib_address (pck32_bytes seh_ptr))"
  have r: "return_from_seh j2 =
     (if d = 0 then
        Inr (j1\<lparr>cpu := cpu j, pc := uint (EIP (cpu j)),
               vm := poke (vm j1) tib_address (pck32_bytes seh_ptr),
               log := l @ [(INFO, ''Seh continues Context: %x''), (INFO, ''Context::Eip: %x'')]\<rparr>)
      else if d = 1 then Inl (NotImplementedError ''-> seh, gameover'')
      else Inr (j1\<lparr>cpu := (cpu j)\<lparr>EBX := 0, EAX := d, EIP := word_of_int return_from_exception\<rparr>,
               pc := return_from_exception,
               vm := poke (vm j1) tib_address (pck32_bytes seh_ptr), log := l\<rparr>))"
    unfolding return_from_seh_def j2_def l_def
    using E spr r1 r3 r4 esp
    by (simp add: c1 us ebind_def Let_def log_info_def write32_ok mt1 dump_seh_ok
        is_mapped_poke ctxt2regs_ok [OF ch2] cpu_restore_eq uint_eq_one32 uint_eq_zero32 uint_ne_minus_one)
  have t: "read32 (poke (vm j1) tib_address (pck32_bytes seh_ptr)) tib_address = Inr seh_ptr"
    using spr by (simp add: read32_poke_same)
  show ?thesis
    apply (rule exI [of _ eh], rule exI [of _ j1], rule exI [of _ j2], rule exI [of _ seh_ptr])
    apply (intro conjI)
             apply (rule d)
            apply (simp add: c1)
           apply (rule ebx)
          apply (rule h)
         apply (simp add: j2_def)
        apply (simp add: j2_def c1)
       apply (rule sp)
      apply (simp add: r t)
     apply (simp add: r)
    apply (simp add: r)
    done
qed

lemma read32_tib_A: "read32 mem_A tib_address = Inr 0x12ffe0"
  unfolding mem_A_def
  by (simp add: read32_poke_other read32_poke_same tib_address_def FS_0_AD_def length_pck32_bytes)

lemma frame_ready_A: "frame_ready jitter_A"
proof -
  have a: "is_mapped mem_A (0x12ff00 - 0x3d8) 0x3d8"
    by (auto simp: is_mapped_iff mem_A_def poke_def)
  have b: "is_mapped mem_A tib_address 4"
    by (auto simp: is_mapped_iff mem_A_def poke_def tib_address_def FS_0_AD_def)
  have c: "is_mapped mem_A 0x12ffe0 0xc"
    by (auto simp: is_mapped_iff mem_A_def poke_def)
  show ?thesis
    using a b c
    by (simp add: frame_ready_def jitter_A_def regs_A_def
          read32_tib_A [unfolded tib_address_def FS_0_AD_def] tib_address_def FS_0_AD_def)
qed

text \<open>
  C1. From a state in which a fault can be dispatched, \<open>fake_seh_handler\<close> with the
  access-violation code, then a handler that only returns with \<open>EAX = 0\<close>, reaches the
  return trampoline, and \<open>return_from_seh\<close> then gives back the pre-fault register file
  (every covered field, the stack pointer included, and the registers nobody wrote), the
  pre-fault exception-chain head in the slot at \<open>tib_address\<close>, and the pre-fault
  instruction pointer as the resumed program counter.
\<close>

theorem dispatch_return_restores:
  assumes "frame_ready j"
  shows "\<exists>eh j1 j2 j3.
           fake_seh_handler j EXCEPTION_ACCESS_VIOLATION = Inr (eh, j1) \<and>
           handler_returns j1 0 = Inr j2 \<and> pc j2 = return_from_exception \<and>
           return_from_seh j2 = Inr j3 \<and>
           cpu j3 = cpu j \<and> ESP (cpu j3) = ESP (cpu j) \<and>
           read32 (vm j3) tib_address = read32 (vm j) tib_address \<and>
           EIP (cpu j3) = EIP (cpu j) \<and> pc j3 = uint (EIP (cpu j))"
proof -
  have c: "0 \<le> EXCEPTION_ACCESS_VIOLATION" "EXCEPTION_ACCESS_VIOLATION < 4294967296"
    by (simp_all add: EXCEPTION_ACCESS_VIOLATION_def)
  from dispatch_resume [OF assms c, of 0] obtain eh j1 j2 j3 seh_ptr where
    "fake_seh_handler j EXCEPTION_ACCESS_VIOLATION = Inr (eh, j1)"
    "handler_returns j1 0 = Inr j2" "pc j2 = return_from_exception"
    "return_from_seh j2 = Inr j3" "cpu j3 = cpu j" "pc j3 = uint (EIP (cpu j))"
    "read32 (vm j) tib_address = Inr seh_ptr" "read32 (vm j3) tib_address = Inr seh_ptr"
    by auto
  then show ?thesis by auto
qed

theorem dispatch_return_restores_witness:
  "frame_ready jitter_A \<and>
   (\<exists>eh j1 j2 j3.
      fake_seh_handler jitter_A EXCEPTION_ACCESS_VIOLATION = Inr (eh, j1) \<and>
      handler_returns j1 0 = Inr j2 \<and> return_from_seh j2 = Inr j3 \<and>
      cpu j3 = regs_A \<and> read32 (vm j3) tib_address = Inr 0x12ffe0 \<and> pc j3 = 0x401000)"
proof -
  from dispatch_return_restores [OF frame_ready_A] obtain eh j1 j2 j3 where
    "fake_seh_handler jitter_A EXCEPTION_ACCESS_VIOLATION = Inr (eh, j1)"
    "handler_returns j1 0 = Inr j2" "return_from_seh j2 = Inr j3"
    "cpu j3 = cpu jitter_A" "read32 (vm j3) tib_address = read32 (vm jitter_A) tib_address"
    "pc j3 = uint (EIP (cpu jitter_A))"
    by blast
  moreover have "cpu jitter_A = regs_A" "vm jitter_A = mem_A" "uint (EIP (cpu jitter_A)) = 0x401000"
    by (simp_all add: jitter_A_def regs_A_def)
  ultimately show ?thesis using frame_ready_A read32_tib_A by auto
qed

text \<open>
  C4. From a state in which a fault can be dispatched, the exception record that
  \<open>fake_seh_handler\<close> with the access-violation code leaves at offset \<open>0xe8\<close> of the
  frame holds the code \<open>0xC0000005\<close>, flags 0, chained-record pointer 0, the pre-fault
  instruction pointer as the faulting address, and parameter count 0.
\<close>

theorem exception_record_fields:
  assumes "frame_ready j"
  shows "\<exists>eh j1.
           fake_seh_handler j EXCEPTION_ACCESS_VIOLATION = Inr (eh, j1) \<and>
           read32 (vm j1) (uint (ESP (cpu j)) - 0x3c8 + 0xe8) = Inr 0xc0000005 \<and>
           read32 (vm j1) (uint (ESP (cpu j)) - 0x3c8 + 0xe8 + 4) = Inr 0 \<and>
           read32 (vm j1) (uint (ESP (cpu j)) - 0x3c8 + 0xe8 + 8) = Inr 0 \<and>
           read32 (vm j1) (uint (ESP (cpu j)) - 0x3c8 + 0xe8 + 12) = Inr (uint (EIP (cpu j))) \<and>
           read32 (vm j1) (uint (ESP (cpu j)) - 0x3c8 + 0xe8 + 16) = Inr 0"
proof -
  have c: "0 \<le> EXCEPTION_ACCESS_VIOLATION" "EXCEPTION_ACCESS_VIOLATION < 4294967296"
    by (simp_all add: EXCEPTION_ACCESS_VIOLATION_def)
  from fake_seh_handler_ok [OF assms c] show ?thesis
    unfolding EXCEPTION_ACCESS_VIOLATION_def by blast
qed

theorem exception_record_fields_witness:
  "frame_ready jitter_A \<and>
   (\<exists>eh j1.
      fake_seh_handler jitter_A EXCEPTION_ACCESS_VIOLATION = Inr (eh, j1) \<and>
      read32 (vm j1) 0x12fc20 = Inr 0xc0000005 \<and> read32 (vm j1) 0x12fc24 = Inr 0 \<and>
      read32 (vm j1) 0x12fc28 = Inr 0 \<and> read32 (vm j1) 0x12fc2c = Inr 0x401000 \<and>
      read32 (vm j1) 0x12fc30 = Inr 0)"
proof -
  have e: "uint (ESP (cpu jitter_A)) = 0x12ff00" "uint (EIP (cpu jitter_A)) = 0x401000"
    by (simp_all add: jitter_A_def regs_A_def)
  from exception_record_fields [OF frame_ready_A] show ?thesis
    unfolding e using frame_ready_A by simp
qed

text \<open>
  C10. Whenever \<open>fake_seh_handler\<close> returns, \<open>EBX\<close> is 0 in the state it hands to the
  guest handler, whatever its pre-fault value. From a state in which a fault can be
  dispatched, the context record holds the pre-fault \<open>EBX\<close>, and after a handler that only
  returns with \<open>EAX = 0\<close>, \<open>return_from_seh\<close> gives \<open>EBX\<close> its pre-fault value back.
\<close>

theorem dispatch_clears_ebx:
  "(fake_seh_handler j code = Inr (eh, j') \<longrightarrow> EBX (cpu j') = 0) \<and>
   (frame_ready j \<and> 0 \<le> code \<and> code < 4294967296 \<longrightarrow>
      (\<exists>eh j1 j2 j3.
         fake_seh_handler j code = Inr (eh, j1) \<and> EBX (cpu j1) = 0 \<and>
         read32 (vm j1) (uint (ESP (cpu j)) - 0x3c8 + 0xfc + off_ebx) = Inr (uint (EBX (cpu j))) \<and>
         handler_returns j1 0 = Inr j2 \<and> EBX (cpu j2) = 0 \<and>
         return_from_seh j2 = Inr j3 \<and> EBX (cpu j3) = EBX (cpu j)))"
proof (intro conjI impI)
  assume "fake_seh_handler j code = Inr (eh, j')"
  then show "EBX (cpu j') = 0"
    unfolding fake_seh_handler_def
    by (auto simp: ebind_def Let_def split: sum.splits prod.splits)
next
  assume a: "frame_ready j \<and> 0 \<le> code \<and> code < 4294967296"
  then have fr: "frame_ready j" and c: "0 \<le> code" "code < 4294967296" by simp_all
  from dispatch_resume [OF fr c, of 0] obtain eh j1 j2 j3 where
    "fake_seh_handler j code = Inr (eh, j1)" "EBX (cpu j1) = 0"
    "read32 (vm j1) (uint (ESP (cpu j)) - 0x3c8 + 0xfc + off_ebx) = Inr (uint (EBX (cpu j)))"
    "handler_returns j1 0 = Inr j2" "EBX (cpu j2) = 0"
    "return_from_seh j2 = Inr j3" "cpu j3 = cpu j"
    by auto
  then show "\<exists>eh j1 j2 j3.
         fake_seh_handler j code = Inr (eh, j1) \<and> EBX (cpu j1) = 0 \<and>
         read32 (vm j1) (uint (ESP (cpu j)) - 0x3c8 + 0xfc + off_ebx) = Inr (uint (EBX (cpu j))) \<and>
         handler_returns j1 0 = Inr j2 \<and> EBX (cpu j2) = 0 \<and>
         return_from_seh j2 = Inr j3 \<and> EBX (cpu j3) = EBX (cpu j)"
    by auto
qed

theorem dispatch_clears_ebx_witness:
  "frame_ready jitter_A \<and> EBX (cpu jitter_A) = 0x33333333 \<and>
   (\<exists>eh j1 j2 j3.
      fake_seh_handler jitter_A EXCEPTION_ACCESS_VIOLATION = Inr (eh, j1) \<and> EBX (cpu j1) = 0 \<and>
      read32 (vm j1) (0x12fc34 + off_ebx) = Inr 0x33333333 \<and>
      handler_returns j1 0 = Inr j2 \<and> EBX (cpu j2) = 0 \<and>
      return_from_seh j2 = Inr j3 \<and> EBX (cpu j3) = 0x33333333)"
proof -
  have e: "uint (ESP (cpu jitter_A)) = 0x12ff00" "EBX (cpu jitter_A) = 0x33333333"
    by (simp_all add: jitter_A_def regs_A_def)
  have c: "frame_ready jitter_A \<and> 0 \<le> EXCEPTION_ACCESS_VIOLATION \<and>
           EXCEPTION_ACCESS_VIOLATION < 4294967296"
    using frame_ready_A by (simp add: EXCEPTION_ACCESS_VIOLATION_def)
  from dispatch_clears_ebx [of jitter_A EXCEPTION_ACCESS_VIOLATION] c
  have "\<exists>eh j1 j2 j3.
         fake_seh_handler jitter_A EXCEPTION_ACCESS_VIOLATION = Inr (eh, j1) \<and> EBX (cpu j1) = 0 \<and>
         read32 (vm j1) (uint (ESP (cpu jitter_A)) - 0x3c8 + 0xfc + off_ebx)
           = Inr (uint (EBX (cpu jitter_A))) \<and>
         handler_returns j1 0 = Inr j2 \<and> EBX (cpu j2) = 0 \<and>
         return_from_seh j2 = Inr j3 \<and> EBX (cpu j3) = EBX (cpu jitter_A)"
    by blast
  then show ?thesis unfolding e using frame_ready_A by simp
qed

text \<open>
  C7, evaluated. After a dispatch from \<open>jitter_A\<close>, a handler that returns with
  \<open>EAX = 1\<close> makes \<open>return_from_seh\<close> raise \<open>NotImplementedError\<close>; a handler that
  returns with \<open>EAX = -1\<close>, the register then holding \<open>0xffffffff\<close>, makes it return
  normally, with the program counter still at the return trampoline.
\<close>

theorem return_from_seh_decline_returns:
  "\<exists>eh j1 j2 j2' j3.
     fake_seh_handler jitter_A EXCEPTION_ACCESS_VIOLATION = Inr (eh, j1) \<and>
     handler_returns j1 1 = Inr j2' \<and>
     return_from_seh j2' = Inl (NotImplementedError ''-> seh, gameover'') \<and>
     handler_returns j1 (- 1) = Inr j2 \<and> uint (EAX (cpu j2)) = 0xffffffff \<and>
     return_from_seh j2 = Inr j3 \<and> pc j3 = return_from_exception"
proof -
  have c: "0 \<le> EXCEPTION_ACCESS_VIOLATION" "EXCEPTION_ACCESS_VIOLATION < 4294967296"
    by (simp_all add: EXCEPTION_ACCESS_VIOLATION_def)
  from dispatch_resume [OF frame_ready_A c, of 1] obtain eh j1 j2' where
    a: "fake_seh_handler jitter_A EXCEPTION_ACCESS_VIOLATION = Inr (eh, j1)"
      "handler_returns j1 1 = Inr j2'"
      "return_from_seh j2' = Inl (NotImplementedError ''-> seh, gameover'')"
    by auto
  from dispatch_resume [OF frame_ready_A c, of "- 1"] a(1) obtain j2 j3 where
    b: "handler_returns j1 (- 1) = Inr j2" "return_from_seh j2 = Inr j3"
      "pc j3 = return_from_exception"
    by auto
  from b(1) have "EAX (cpu j2) = - 1"
    by (auto simp: handler_returns_def ebind_def split: sum.splits)
  moreover have "(- 1 :: 32 word) = 4294967295" by simp
  ultimately have "uint (EAX (cpu j2)) = 0xffffffff" by simp
  with a b show ?thesis by blast
qed

section \<open>What the chain walker visits\<close>

lemma dump_seh_loop_cases:
  assumes "dump_seh_loop mem cur indent loop = Inr (frames, r)"
  obtains
    (too_many) "loop > MAX_SEH" "frames = []" "r = TooMany"
  | (unmapped) "loop \<le> MAX_SEH" "\<not> is_mapped mem cur 8" "frames = []" "r = Unmapped"
  | (zero) eh where "loop \<le> MAX_SEH" "is_mapped mem cur 8"
      "ebind (get_mem mem cur 8) unpack_II = Inr (0, eh)"
      "frames = [(indent, cur, 0, eh)]" "r = PrevZero"
  | (step) pv eh rest where "loop \<le> MAX_SEH" "is_mapped mem cur 8"
      "ebind (get_mem mem cur 8) unpack_II = Inr (pv, eh)" "pv \<noteq> 0"
      "dump_seh_loop mem pv (indent + 1) (loop + 1) = Inr (rest, r)"
      "frames = (indent, cur, pv, eh) # rest"
  using assms
  by (subst (asm) dump_seh_loop.simps) (auto split: if_splits sum.splits prod.splits)

lemma dump_seh_loop_length:
  "dump_seh_loop mem cur indent loop = Inr (frames, r) \<Longrightarrow>
   int (length frames) \<le> max 0 (MAX_SEH + 1 - loop) \<and>
   (r = TooMany \<longrightarrow> int (length frames) = max 0 (MAX_SEH + 1 - loop))"
proof (induction frames arbitrary: cur indent loop)
  case Nil
  then show ?case by (cases rule: dump_seh_loop_cases) auto
next
  case (Cons f rest)
  from Cons.prems show ?case
  proof (cases rule: dump_seh_loop_cases)
    case (step pv eh rest')
    with Cons.IH [of pv "indent + 1" "loop + 1"] show ?thesis by auto
  qed auto
qed

lemma unpack_II_reads:
  assumes "is_mapped mem p 8"
  shows "ebind (get_mem mem p 8) unpack_II =
         ebind (read32 mem p) (\<lambda>a. ebind (read32 mem (p + 4)) (\<lambda>b. Inr (a, b)))"
proof -
  have m: "is_mapped mem p 4" "is_mapped mem (p + 4) 4"
    using assms by (auto intro: is_mapped_sub)
  have u: "[0..<8] = [0..<4] @ [4..<8]" by (simp add: upt_rec)
  have s: "map (\<lambda>i. the (mem (p + 4 + int i))) [0..<4] =
      [the (mem (p + 4)), the (mem (p + 5)), the (mem (p + 6)), the (mem (p + 7))]"
    by (simp add: upt_rec add.commute)
  show ?thesis
    using assms m
    by (simp add: get_mem_def read32_def unpack_II_def ebind_def u s take_map drop_map
             del: upt.simps)
qed

lemma dump_seh_loop_frames:
  "dump_seh_loop mem cur indent loop = Inr (frames, r) \<Longrightarrow>
   (\<forall>f \<in> set frames. is_mapped mem (fst (snd f)) 8 \<and>
        read32 mem (fst (snd f)) = Inr (fst (snd (snd f))) \<and>
        read32 mem (fst (snd f) + 4) = Inr (snd (snd (snd f)))) \<and>
   (\<forall>f \<in> set (butlast frames). fst (snd (snd f)) \<noteq> 0) \<and>
   (frames \<noteq> [] \<longrightarrow> fst (snd (hd frames)) = cur) \<and>
   (\<forall>i. Suc i < length frames \<longrightarrow> fst (snd (frames ! Suc i)) = fst (snd (snd (frames ! i)))) \<and>
   (r = PrevZero \<longrightarrow> frames \<noteq> [] \<and> fst (snd (snd (last frames))) = 0) \<and>
   (r = Unmapped \<longrightarrow>
      \<not> is_mapped mem (if frames = [] then cur else fst (snd (snd (last frames)))) 8)"
proof (induction frames arbitrary: cur indent loop)
  case Nil
  then show ?case by (cases rule: dump_seh_loop_cases) auto
next
  case (Cons f rest)
  from Cons.prems show ?case
  proof (cases rule: dump_seh_loop_cases)
    case (zero eh)
    have "ebind (read32 mem cur) (\<lambda>a. ebind (read32 mem (cur + 4)) (\<lambda>b. Inr (a, b))) = Inr (0, eh)"
      using zero(3) unpack_II_reads [OF zero(2)] by simp
    then have "read32 mem cur = Inr 0" "read32 mem (cur + 4) = Inr eh"
      by (auto simp: ebind_def split: sum.splits)
    with zero show ?thesis by auto
  next
    case (step pv eh rest')
    have "ebind (read32 mem cur) (\<lambda>a. ebind (read32 mem (cur + 4)) (\<lambda>b. Inr (a, b))) = Inr (pv, eh)"
      using step(3) unpack_II_reads [OF step(2)] by simp
    then have rd: "read32 mem cur = Inr pv" "read32 mem (cur + 4) = Inr eh"
      by (auto simp: ebind_def split: sum.splits)
    from step have fr: "f = (indent, cur, pv, eh)" "rest' = rest" by simp_all
    note IH = Cons.IH [OF step(5) [unfolded fr(2)]]
    have hd: "rest \<noteq> [] \<Longrightarrow> fst (snd (hd rest)) = pv" using IH by simp
    have nth: "\<And>i. Suc i < length (f # rest) \<Longrightarrow>
                 fst (snd ((f # rest) ! Suc i)) = fst (snd (snd ((f # rest) ! i)))"
    proof -
      fix i assume a: "Suc i < length (f # rest)"
      show "fst (snd ((f # rest) ! Suc i)) = fst (snd (snd ((f # rest) ! i)))"
      proof (cases i)
        case 0
        with a hd show ?thesis by (simp add: fr hd_conv_nth)
      next
        case (Suc k)
        with a IH show ?thesis by simp
      qed
    qed
    show ?thesis
      using IH rd step(2) step(4) nth
      by (auto simp: fr)
  qed auto
qed

text \<open>
  C8. For every memory and every chain head, the loop of \<open>dump_seh\<close> returns. It logs
  at most \<open>MAX_SEH + 1\<close> frames, each in mapped memory and read from it, each the previous
  link of the one before, the first at the head, and none but the last with a zero previous
  link. It stops with the warning exactly after \<open>MAX_SEH + 1\<close> frames, on a zero
  previous link at the last frame logged, or on unmapped memory at the frame it was about
  to read.
\<close>

theorem dump_seh_loop_stops:
  "\<exists>frames r. dump_seh_loop mem cur indent 0 = Inr (frames, r) \<and>
     int (length frames) \<le> MAX_SEH + 1 \<and>
     (r = TooMany \<longrightarrow> int (length frames) = MAX_SEH + 1) \<and>
     (r = PrevZero \<longrightarrow> frames \<noteq> [] \<and> fst (snd (snd (last frames))) = 0) \<and>
     (r = Unmapped \<longrightarrow>
        \<not> is_mapped mem (if frames = [] then cur else fst (snd (snd (last frames)))) 8) \<and>
     (\<forall>f \<in> set frames. is_mapped mem (fst (snd f)) 8 \<and>
        read32 mem (fst (snd f)) = Inr (fst (snd (snd f))) \<and>
        read32 mem (fst (snd f) + 4) = Inr (snd (snd (snd f)))) \<and>
     (\<forall>f \<in> set (butlast frames). fst (snd (snd f)) \<noteq> 0) \<and>
     (frames \<noteq> [] \<longrightarrow> fst (snd (hd frames)) = cur) \<and>
     (\<forall>i. Suc i < length frames \<longrightarrow> fst (snd (frames ! Suc i)) = fst (snd (snd (frames ! i))))"
proof -
  from dump_seh_loop_total [of mem cur indent 0] obtain frames r where
    d: "dump_seh_loop mem cur indent 0 = Inr (frames, r)" by (metis surj_pair)
  from dump_seh_loop_length [OF d] dump_seh_loop_frames [OF d] d show ?thesis
    by (intro exI [of _ frames] exI [of _ r]) (simp add: MAX_SEH_def)
qed

lemma dump_seh_loop_unfold:
  assumes "is_mapped mem cur 8" "read32 mem cur = Inr pv" "read32 mem (cur + 4) = Inr eh"
    "loop \<le> MAX_SEH"
  shows "dump_seh_loop mem cur indent loop =
     (if pv = 0 then Inr ([(indent, cur, pv, eh)], PrevZero)
      else (case dump_seh_loop mem pv (indent + 1) (loop + 1) of
              Inl e \<Rightarrow> Inl e
            | Inr (frames, r) \<Rightarrow> Inr ((indent, cur, pv, eh) # frames, r)))"
proof -
  have eq: "ebind (get_mem mem cur 8) unpack_II = Inr (pv, eh)"
    using unpack_II_reads [OF assms(1)] assms(2,3) by (simp add: ebind_def)
  show ?thesis
    using assms(1,4) by (subst dump_seh_loop.simps) (simp add: eq)
qed

lemma mem_loop_frame:
  "is_mapped mem_loop 0x1000 8" "read32 mem_loop 0x1000 = Inr 0x1000"
  "read32 mem_loop (0x1000 + 4) = Inr 0x401234"
proof -
  show "is_mapped mem_loop 0x1000 8"
    unfolding mem_loop_def by (intro is_mapped_poke zero_page_mapped) simp_all
  show "read32 mem_loop 0x1000 = Inr 0x1000"
    by (simp add: mem_loop_def poke_append length_pck32_bytes read32_poke_same read32_poke_other)
  show "read32 mem_loop (0x1000 + 4) = Inr 0x401234"
    by (simp add: mem_loop_def poke_append length_pck32_bytes read32_poke_same)
qed

lemma mem_loop_walk:
  "dump_seh_loop mem_loop 0x1000 1 0 =
     Inr ([(1, 0x1000, 0x1000, 0x401234), (2, 0x1000, 0x1000, 0x401234),
           (3, 0x1000, 0x1000, 0x401234), (4, 0x1000, 0x1000, 0x401234),
           (5, 0x1000, 0x1000, 0x401234), (6, 0x1000, 0x1000, 0x401234)], TooMany)"
proof -
  have e: "dump_seh_loop mem_loop 0x1000 7 6 = Inr ([], TooMany)"
    by (subst dump_seh_loop.simps) (simp add: MAX_SEH_def)
  have s: "\<And>indent loop. loop \<le> 5 \<Longrightarrow> dump_seh_loop mem_loop 0x1000 indent loop =
      (case dump_seh_loop mem_loop 0x1000 (indent + 1) (loop + 1) of
         Inl e \<Rightarrow> Inl e
       | Inr (frames, r) \<Rightarrow> Inr ((indent, 0x1000, 0x1000, 0x401234) # frames, r))"
    using dump_seh_loop_unfold [OF mem_loop_frame] by (simp add: MAX_SEH_def)
  show ?thesis
    by (simp add: s [of 0 1] s [of 1 2] s [of 2 3] s [of 3 4] s [of 4 5] s [of 5 6] e)
qed

lemma zero_page_walk:
  "dump_seh_loop (zero_page 0x1000 0x2000) 0x1000 1 0 = Inr ([(1, 0x1000, 0, 0)], PrevZero)"
proof -
  have m: "is_mapped (zero_page 0x1000 0x2000) 0x1000 8" by (rule zero_page_mapped) simp_all
  have z: "zero_page 0x1000 0x2000 = poke (zero_page 0x1000 0x2000) 0x1000 (replicate 8 0)"
    by (rule ext) (auto simp: zero_page_def poke_def)
  have r: "read32 (zero_page 0x1000 0x2000) 0x1000 = Inr 0"
    "read32 (zero_page 0x1000 0x2000) (0x1000 + 4) = Inr 0"
    by (subst z, rule read32_poke_zero, simp, simp)+
  show ?thesis
    using dump_seh_loop_unfold [OF m r, of 0 1] by (simp add: MAX_SEH_def)
qed

lemma unmapped_walk: "dump_seh_loop (zero_page 0x1000 0x2000) 0x3000 1 0 = Inr ([], Unmapped)"
proof -
  have "\<not> is_mapped (zero_page 0x1000 0x2000) 0x3000 8"
    by (auto simp: is_mapped_iff zero_page_def intro: exI [of _ 0])
  then show ?thesis by (subst dump_seh_loop.simps) (simp add: MAX_SEH_def)
qed

theorem dump_seh_loop_stops_witness:
  "(\<exists>frames. dump_seh_loop mem_loop 0x1000 1 0 = Inr (frames, TooMany) \<and>
      int (length frames) = MAX_SEH + 1 \<and> frames \<noteq> [] \<and> fst (snd (hd frames)) = 0x1000 \<and>
      (\<forall>f \<in> set frames. read32 mem_loop (fst (snd f)) = Inr 0x1000)) \<and>
   (\<exists>frames. dump_seh_loop (zero_page 0x1000 0x2000) 0x1000 1 0 = Inr (frames, PrevZero) \<and>
      frames \<noteq> [] \<and> fst (snd (snd (last frames))) = 0) \<and>
   (\<exists>frames. dump_seh_loop (zero_page 0x1000 0x2000) 0x3000 1 0 = Inr (frames, Unmapped) \<and>
      \<not> is_mapped (zero_page 0x1000 0x2000) 0x3000 8)"
  using dump_seh_loop_stops [where mem = mem_loop and cur = "0x1000" and indent = 1] mem_loop_walk
    dump_seh_loop_stops [where mem = "zero_page 0x1000 0x2000" and cur = "0x1000" and indent = 1]
    zero_page_walk
    dump_seh_loop_stops [where mem = "zero_page 0x1000 0x2000" and cur = "0x3000" and indent = 1]
    unmapped_walk
  by (simp add: MAX_SEH_def)

section \<open>The process environment block without a main module\<close>

lemma add_memory_page_ok:
  "(\<And>i. i < length bs \<Longrightarrow> mem (a + int i) = None) \<Longrightarrow> add_memory_page mem a bs = Inr (poke mem a bs)"
  by (auto simp: add_memory_page_def list_ex_iff)

lemma is_mapped_poke_self: "a \<le> b \<Longrightarrow> b + int n \<le> a + int (length bs) \<Longrightarrow> is_mapped (poke mem a bs) b n"
  by (auto simp: is_mapped_iff poke_def)

text \<open>
  C9. With no main module (\<open>main_pe\<close> is \<open>None\<close>), and the four bytes of the
  loader-data pointer field not mapped yet, \<open>build_peb\<close> completes without error; it
  maps and writes nothing outside that field, so the image-base bytes at offset 8 are as
  they were (unmapped if they were unmapped), and the loader-data pointer field holds
  \<open>peb_ldr_data_address\<close>. With a main module, the field is set as well.
\<close>

theorem build_peb_without_main:
  "((\<forall>i \<in> {0..<4}. mem (peb_address + 0xC + int i) = None) \<longrightarrow>
      (\<exists>mem'. build_peb mem None peb_address = Inr mem' \<and>
         (\<forall>x. x < peb_address + 0xC \<or> peb_address + 0x10 \<le> x \<longrightarrow> mem' x = mem x) \<and>
         (\<forall>i \<in> {0..<4}. mem' (peb_address + PEB_ImageBaseAddress + int i)
                          = mem (peb_address + PEB_ImageBaseAddress + int i)) \<and>
         read32 mem' (peb_address + PEB_Ldr) = Inr peb_ldr_data_address)) \<and>
   ((\<forall>i \<in> {0..<8}. mem (peb_address + 0x8 + int i) = None) \<and>
      0 \<le> ImageBase p \<and> ImageBase p < 4294967296 \<longrightarrow>
      (\<exists>mem'. build_peb mem (Some p) peb_address = Inr mem' \<and>
         read32 mem' (peb_address + PEB_ImageBaseAddress) = Inr (ImageBase p) \<and>
         read32 mem' (peb_address + PEB_Ldr) = Inr peb_ldr_data_address))"
proof (intro conjI impI)
  assume u: "\<forall>i \<in> {0..<4}. mem (peb_address + 0xC + int i) = None"
  let ?m1 = "poke mem (peb_address + 0xC) (replicate 4 0)"
  let ?m2 = "poke ?m1 (peb_address + 0xC) (pck32_bytes peb_ldr_data_address)"
  have a: "add_memory_page mem (peb_address + 0xC) (replicate 4 0) = Inr ?m1"
    using u by (intro add_memory_page_ok) simp
  have m: "is_mapped ?m1 (peb_address + 0xC) 4" by (rule is_mapped_poke_self) simp_all
  have r: "0 \<le> peb_ldr_data_address" "peb_ldr_data_address < 4294967296"
    by (simp_all add: peb_ldr_data_address_def LDR_AD_def peb_ldr_data_offset_def)
  have b: "build_peb mem None peb_address = Inr ?m2"
    unfolding build_peb_def using a m r
    by (simp add: ebind_def PEB_Ldr_def write32_ok)
  have o: "\<forall>x. x < peb_address + 0xC \<or> peb_address + 0x10 \<le> x \<longrightarrow> ?m2 x = mem x"
    by (auto simp: poke_def length_pck32_bytes)
  have i: "\<forall>i \<in> {0..<4}. ?m2 (peb_address + PEB_ImageBaseAddress + int i)
                          = mem (peb_address + PEB_ImageBaseAddress + int i)"
    by (auto simp: poke_def length_pck32_bytes PEB_ImageBaseAddress_def)
  have l: "read32 ?m2 (peb_address + PEB_Ldr) = Inr peb_ldr_data_address"
    using r by (simp add: PEB_Ldr_def read32_poke_same)
  from b o i l show "\<exists>mem'. build_peb mem None peb_address = Inr mem' \<and>
         (\<forall>x. x < peb_address + 0xC \<or> peb_address + 0x10 \<le> x \<longrightarrow> mem' x = mem x) \<and>
         (\<forall>i \<in> {0..<4}. mem' (peb_address + PEB_ImageBaseAddress + int i)
                          = mem (peb_address + PEB_ImageBaseAddress + int i)) \<and>
         read32 mem' (peb_address + PEB_Ldr) = Inr peb_ldr_data_address"
    by blast
next
  assume h: "(\<forall>i \<in> {0..<8}. mem (peb_address + 0x8 + int i) = None) \<and>
      0 \<le> ImageBase p \<and> ImageBase p < 4294967296"
  let ?m1 = "poke mem (peb_address + 8) (replicate 8 0)"
  let ?m2 = "poke ?m1 (peb_address + 8) (pck32_bytes (ImageBase p))"
  let ?m3 = "poke ?m2 (peb_address + 0xC) (pck32_bytes peb_ldr_data_address)"
  have a: "add_memory_page mem (peb_address + 8) (replicate 8 0) = Inr ?m1"
    using h by (intro add_memory_page_ok) simp
  have m: "is_mapped ?m1 (peb_address + 8) 4" "is_mapped ?m1 (peb_address + 0xC) 4"
    by (rule is_mapped_poke_self; simp)+
  have r: "0 \<le> peb_ldr_data_address" "peb_ldr_data_address < 4294967296"
    by (simp_all add: peb_ldr_data_address_def LDR_AD_def peb_ldr_data_offset_def)
  have b: "build_peb mem (Some p) peb_address = Inr ?m3"
    unfolding build_peb_def using a m r h
    by (simp add: ebind_def PEB_Ldr_def PEB_ImageBaseAddress_def write32_ok is_mapped_poke)
  have l: "read32 ?m3 (peb_address + PEB_Ldr) = Inr peb_ldr_data_address"
    "read32 ?m3 (peb_address + PEB_ImageBaseAddress) = Inr (ImageBase p)"
    using r h
    by (simp_all add: PEB_Ldr_def PEB_ImageBaseAddress_def read32_poke_same read32_poke_other
          length_pck32_bytes)
  from b l show "\<exists>mem'. build_peb mem (Some p) peb_address = Inr mem' \<and>
         read32 mem' (peb_address + PEB_ImageBaseAddress) = Inr (ImageBase p) \<and>
         read32 mem' (peb_address + PEB_Ldr) = Inr peb_ldr_data_address"
    by blast
qed

theorem build_peb_without_main_witness:
  "list_all (\<lambda>i. (\<lambda>x. None :: byte option) (PEB_AD + 0xC + int i) = None) [0..<4] \<and>
   (\<exists>mem'. build_peb (\<lambda>x. None) None PEB_AD = Inr mem' \<and>
      mem' (PEB_AD + PEB_ImageBaseAddress) = None \<and> \<not> is_mapped mem' (PEB_AD + PEB_ImageBaseAddress) 4 \<and>
      read32 mem' (PEB_AD + PEB_Ldr) = Inr 0x341ea0) \<and>
   list_all (\<lambda>i. (\<lambda>x. None :: byte option) (PEB_AD + 0x8 + int i) = None) [0..<8] \<and>
   (\<exists>mem'. build_peb (\<lambda>x. None) (Some \<lparr>pe_ident = 0, ImageBase = 0x400000\<rparr>) PEB_AD = Inr mem' \<and>
      read32 mem' (PEB_AD + PEB_ImageBaseAddress) = Inr 0x400000 \<and>
      read32 mem' (PEB_AD + PEB_Ldr) = Inr 0x341ea0)"
proof -
  from build_peb_without_main [of "\<lambda>x. None" PEB_AD "\<lparr>pe_ident = 0, ImageBase = 0x400000\<rparr>"]
  obtain m1 m2 where
    a: "build_peb (\<lambda>x. None) None PEB_AD = Inr m1"
       "\<forall>i \<in> {0..<4}. m1 (PEB_AD + PEB_ImageBaseAddress + int i) = None"
       "read32 m1 (PEB_AD + PEB_Ldr) = Inr peb_ldr_data_address"
    and b: "build_peb (\<lambda>x. None) (Some \<lparr>pe_ident = 0, ImageBase = 0x400000\<rparr>) PEB_AD = Inr m2"
       "read32 m2 (PEB_AD + PEB_ImageBaseAddress) = Inr 0x400000"
       "read32 m2 (PEB_AD + PEB_Ldr) = Inr peb_ldr_data_address"
    by auto
  from a(2) have z: "m1 (PEB_AD + PEB_ImageBaseAddress) = None"
    by (auto dest: bspec [of _ _ 0])
  then have "\<not> is_mapped m1 (PEB_AD + PEB_ImageBaseAddress) 4"
    by (auto simp: is_mapped_iff intro: exI [of _ 0])
  with a b z show ?thesis
    by (auto simp: peb_ldr_data_address_def LDR_AD_def peb_ldr_data_offset_def list_all_iff)
qed

section \<open>Linking the module entries\<close>

lemma list_head_range: "0 \<le> offset \<Longrightarrow> offset + 8 \<le> 0x18 \<Longrightarrow>
    0 \<le> list_head offset \<and> list_head offset < 4294967296"
  by (simp add: list_head_def peb_ldr_data_address_def LDR_AD_def peb_ldr_data_offset_def)

lemma set_link_list_entry_step_ok:
  assumes wf: "links_wf mi lm offset" and i: "i < length lm"
    and mp: "is_mapped mem (link_of mi offset (lm ! i)) 8"
  shows "set_link_list_entry_step mem lm mi offset i =
     Inr (poke mem (link_of mi offset (lm ! i))
            (pck32_bytes (if Suc i = length lm then list_head offset
                          else link_of mi offset (lm ! Suc i)) @
             pck32_bytes (if i = 0 then list_head offset
                          else link_of mi offset (lm ! (i - 1)))))"
proof -
  let ?n = "length lm"
  have e: "\<And>k. k < ?n \<Longrightarrow> \<exists>e. module2entry mi (lm ! k) = Some e \<and> 0 \<le> e \<and> e + 0x18 \<le> 4294967296"
    using wf by (auto simp: links_wf_def)
  have off: "0 \<le> offset" "offset + 8 \<le> 0x18" using wf by (auto simp: links_wf_def)
  have s: "\<And>k. k < ?n \<Longrightarrow> subscript (module2entry mi) (lm ! k) = Inr (the (module2entry mi (lm ! k)))"
  proof -
    fix k assume "k < ?n"
    from e [OF this] obtain x where "module2entry mi (lm ! k) = Some x" by blast
    then show "subscript (module2entry mi) (lm ! k) = Inr (the (module2entry mi (lm ! k)))"
      by (simp add: subscript_def)
  qed
  have r: "\<And>k. k < ?n \<Longrightarrow> 0 \<le> link_of mi offset (lm ! k) \<and> link_of mi offset (lm ! k) < 4294967296"
  proof -
    fix k assume "k < ?n"
    from e [OF this] obtain x where "module2entry mi (lm ! k) = Some x" "0 \<le> x" "x + 0x18 \<le> 4294967296"
      by blast
    with off show "0 \<le> link_of mi offset (lm ! k) \<and> link_of mi offset (lm ! k) < 4294967296"
      by (simp add: link_of_def)
  qed
  have pi: "nat ((int i - 1) mod int ?n) < ?n" "nat ((int i + 1) mod int ?n) < ?n"
  proof -
    have p: "0 < int ?n" using i by (cases lm) simp_all
    have "\<And>x. nat (x mod int ?n) < ?n"
      using pos_mod_bound [OF p] pos_mod_sign [OF p] by (simp add: nat_less_iff)
    then show "nat ((int i - 1) mod int ?n) < ?n" "nat ((int i + 1) mod int ?n) < ?n" by simp_all
  qed
  have pv: "nat ((int i - 1) mod int ?n) = (if i = 0 then ?n - 1 else i - 1)"
  proof (cases "i = 0")
    case True
    have "0 < int ?n" using i by (cases lm) simp_all
    then have "(- 1) mod int ?n = int ?n - 1" by (rule zmod_minus1)
    with True i show ?thesis by (simp add: nat_diff_distrib')
  next
    case False
    then have "(int i - 1) mod int ?n = int i - 1" using i by simp
    with False show ?thesis by (simp add: nat_diff_distrib')
  qed
  have nx: "nat ((int i + 1) mod int ?n) = (if Suc i = ?n then 0 else Suc i)"
  proof (cases "Suc i = ?n")
    case True
    then have "int i + 1 = int ?n" by simp
    then have "(int i + 1) mod int ?n = 0" by simp
    with True show ?thesis by simp
  next
    case False
    then have "(int i + 1) mod int ?n = int i + 1" using i by simp
    with False show ?thesis by (simp add: nat_add_distrib)
  qed
  have last: "(int i = int ?n - 1) = (Suc i = ?n)" by auto
  have hr: "0 \<le> list_head offset" "list_head offset < 4294967296"
    using list_head_range [OF off] by simp_all
  have hd: "peb_ldr_data_address + 12 + offset = list_head offset" by (simp add: list_head_def)
  have lk: "\<And>k. the (module2entry mi (lm ! k)) + offset = link_of mi offset (lm ! k)"
    by (simp add: link_of_def)
  have z: "0 < ?n" "?n - 1 < ?n" using i by (cases lm; simp)+
  have mp0: "i = 0 \<Longrightarrow> is_mapped mem (link_of mi offset (lm ! 0)) 8" using mp by simp
  show ?thesis
    unfolding set_link_list_entry_step_def pv nx
    using i hr mp z mp0
    by (auto simp: s r Let_def ebind_def last hd lk pck32_def set_mem_def length_pck32_bytes)
qed

lemma links_wf_apart:
  assumes wf: "links_wf mi lm offset" and "i < length lm" "k < length lm" "i \<noteq> k"
  shows "link_of mi offset (lm ! i) + 0x18 \<le> link_of mi offset (lm ! k) \<or>
         link_of mi offset (lm ! k) + 0x18 \<le> link_of mi offset (lm ! i)"
proof -
  have d: "distinct lm" using wf by (simp add: links_wf_def)
  with assms(2-4) have ne: "lm ! i \<noteq> lm ! k" by (simp add: nth_eq_iff_index_eq)
  have "lm ! i \<in> set lm" "lm ! k \<in> set lm" using assms(2,3) by simp_all
  with wf ne have "the (module2entry mi (lm ! i)) + 0x18 \<le> the (module2entry mi (lm ! k)) \<or>
        the (module2entry mi (lm ! k)) + 0x18 \<le> the (module2entry mi (lm ! i))"
    unfolding links_wf_def by blast
  then show ?thesis by (auto simp: link_of_def)
qed

lemma links_wf_range:
  assumes wf: "links_wf mi lm offset" and "k < length lm"
  shows "0 \<le> link_of mi offset (lm ! k)" "link_of mi offset (lm ! k) < 4294967296"
proof -
  have "lm ! k \<in> set lm" using assms(2) by simp
  with wf obtain x where "module2entry mi (lm ! k) = Some x" "0 \<le> x" "x + 0x18 \<le> 4294967296"
    unfolding links_wf_def by blast
  moreover have "0 \<le> offset" "offset + 8 \<le> 0x18" using wf by (auto simp: links_wf_def)
  ultimately show "0 \<le> link_of mi offset (lm ! k)" "link_of mi offset (lm ! k) < 4294967296"
    by (simp_all add: link_of_def)
qed

lemma read32_pair:
  assumes "0 \<le> a" "a < 4294967296" "0 \<le> b" "b < 4294967296"
  shows "read32 (poke mem p (pck32_bytes a @ pck32_bytes b)) p = Inr a"
        "read32 (poke mem p (pck32_bytes a @ pck32_bytes b)) (p + 4) = Inr b"
  using assms
  by (simp_all add: poke_append length_pck32_bytes read32_poke_same read32_poke_other)

lemma set_link_list_entry_loop_ok:
  assumes wf: "links_wf mi lm offset"
  shows "set is \<subseteq> {0..<length lm} \<Longrightarrow> distinct is \<Longrightarrow>
     (\<forall>i \<in> set is. is_mapped mem (link_of mi offset (lm ! i)) 8) \<Longrightarrow>
     \<exists>mem'. set_link_list_entry_loop mem lm mi offset is = Inr mem' \<and>
       (\<forall>x. (\<forall>i \<in> set is. x < link_of mi offset (lm ! i) \<or> link_of mi offset (lm ! i) + 8 \<le> x)
            \<longrightarrow> mem' x = mem x) \<and>
       (\<forall>b n. is_mapped mem b n \<longrightarrow> is_mapped mem' b n) \<and>
       (\<forall>i \<in> set is.
          read32 mem' (link_of mi offset (lm ! i)) =
            Inr (if Suc i = length lm then list_head offset else link_of mi offset (lm ! Suc i)) \<and>
          read32 mem' (link_of mi offset (lm ! i) + 4) =
            Inr (if i = 0 then list_head offset else link_of mi offset (lm ! (i - 1))))"
proof (induction "is" arbitrary: mem)
  case Nil
  then show ?case by simp
next
  case (Cons i rest)
  let ?L = "\<lambda>k. link_of mi offset (lm ! k)"
  let ?nx = "if Suc i = length lm then list_head offset else ?L (Suc i)"
  let ?pv = "if i = 0 then list_head offset else ?L (i - 1)"
  let ?m1 = "poke mem (?L i) (pck32_bytes ?nx @ pck32_bytes ?pv)"
  have i: "i < length lm" and ir: "i \<notin> set rest" and sub: "set rest \<subseteq> {0..<length lm}"
    and dr: "distinct rest"
    using Cons.prems by auto
  have off: "0 \<le> offset" "offset + 8 \<le> 0x18" using wf by (auto simp: links_wf_def)
  have nr: "0 \<le> ?nx" "?nx < 4294967296" "0 \<le> ?pv" "?pv < 4294967296"
    using links_wf_range [OF wf, of "Suc i"] links_wf_range [OF wf, of "i - 1"]
      list_head_range [OF off] i by auto
  have st: "set_link_list_entry_step mem lm mi offset i = Inr ?m1"
    using set_link_list_entry_step_ok [OF wf i] Cons.prems(3) by simp
  have mp1: "\<forall>k \<in> set rest. is_mapped ?m1 (?L k) 8"
    using Cons.prems(3) by (auto intro: is_mapped_poke)
  from Cons.IH [OF sub dr mp1] obtain mem' where
    l: "set_link_list_entry_loop ?m1 lm mi offset rest = Inr mem'"
    and f: "\<And>x. (\<forall>k \<in> set rest. x < ?L k \<or> ?L k + 8 \<le> x) \<Longrightarrow> mem' x = ?m1 x"
    and d: "\<And>b n. is_mapped ?m1 b n \<Longrightarrow> is_mapped mem' b n"
    and rd: "\<forall>k \<in> set rest.
          read32 mem' (?L k) = Inr (if Suc k = length lm then list_head offset else ?L (Suc k)) \<and>
          read32 mem' (?L k + 4) = Inr (if k = 0 then list_head offset else ?L (k - 1))"
    by blast
  have ap: "\<And>k. k \<in> set rest \<Longrightarrow> ?L i + 0x18 \<le> ?L k \<or> ?L k + 0x18 \<le> ?L i"
  proof -
    fix k assume k: "k \<in> set rest"
    then have "k < length lm" "i \<noteq> k" using sub ir by auto
    from links_wf_apart [OF wf i this] show "?L i + 0x18 \<le> ?L k \<or> ?L k + 0x18 \<le> ?L i" .
  qed
  have same: "\<And>x. ?L i \<le> x \<Longrightarrow> x < ?L i + 8 \<Longrightarrow> mem' x = ?m1 x"
  proof -
    fix x assume "?L i \<le> x" "x < ?L i + 8"
    with ap have "\<forall>k \<in> set rest. x < ?L k \<or> ?L k + 8 \<le> x" by fastforce
    then show "mem' x = ?m1 x" by (rule f)
  qed
  have ri: "read32 mem' (?L i) = Inr ?nx" "read32 mem' (?L i + 4) = Inr ?pv"
  proof -
    have "read32 mem' (?L i) = read32 ?m1 (?L i)" by (rule read32_cong) (simp add: same)
    then show "read32 mem' (?L i) = Inr ?nx" using read32_pair(1) [OF nr] by simp
    have "read32 mem' (?L i + 4) = read32 ?m1 (?L i + 4)" by (rule read32_cong) (simp add: same)
    then show "read32 mem' (?L i + 4) = Inr ?pv" using read32_pair(2) [OF nr] by simp
  qed
  have fr: "\<forall>x. (\<forall>k \<in> set (i # rest). x < ?L k \<or> ?L k + 8 \<le> x) \<longrightarrow> mem' x = mem x"
  proof (intro allI impI)
    fix x assume a: "\<forall>k \<in> set (i # rest). x < ?L k \<or> ?L k + 8 \<le> x"
    then have "mem' x = ?m1 x" by (intro f) simp
    also have "\<dots> = mem x" using a by (intro poke_other) (simp add: length_pck32_bytes)
    finally show "mem' x = mem x" .
  qed
  have dm: "\<forall>b n. is_mapped mem b n \<longrightarrow> is_mapped mem' b n"
    by (auto intro: d is_mapped_poke)
  have lp: "set_link_list_entry_loop mem lm mi offset (i # rest) = Inr mem'"
    by (simp add: st l ebind_def)
  from lp fr dm ri rd show ?case
    by (intro exI [of _ mem']) simp
qed

lemma linked_iff:
  "linked mem mi offset ms \<longleftrightarrow>
     (\<forall>i < length ms.
        read32 mem (link_of mi offset (ms ! i)) =
          Inr (if Suc i = length ms then list_head offset else link_of mi offset (ms ! Suc i)) \<and>
        read32 mem (link_of mi offset (ms ! i) + 4) =
          Inr (if i = 0 then list_head offset else link_of mi offset (ms ! (i - 1))))"
  unfolding linked_def list_all_iff by (simp only: set_upt atLeastLessThan_iff Ball_def) simp

lemma set_link_list_entry_ok:
  assumes wf: "links_wf mi lm offset"
    and mp: "\<forall>m \<in> set lm. is_mapped mem (link_of mi offset m) 8"
  shows "\<exists>mem'. set_link_list_entry mem lm mi offset = Inr mem' \<and>
       linked mem' mi offset lm \<and>
       (\<forall>x. (\<forall>m \<in> set lm. x < link_of mi offset m \<or> link_of mi offset m + 8 \<le> x)
            \<longrightarrow> mem' x = mem x) \<and>
       (\<forall>b n. is_mapped mem b n \<longrightarrow> is_mapped mem' b n)"
proof -
  have a: "set [0..<length lm] \<subseteq> {0..<length lm}" "distinct [0..<length lm]" by simp_all
  have b: "\<forall>i \<in> set [0..<length lm]. is_mapped mem (link_of mi offset (lm ! i)) 8"
    using mp by simp
  from set_link_list_entry_loop_ok [OF wf a b] obtain mem' where
    l: "set_link_list_entry_loop mem lm mi offset [0..<length lm] = Inr mem'"
    and f: "\<forall>x. (\<forall>i \<in> set [0..<length lm].
                x < link_of mi offset (lm ! i) \<or> link_of mi offset (lm ! i) + 8 \<le> x)
            \<longrightarrow> mem' x = mem x"
    and d: "\<forall>b n. is_mapped mem b n \<longrightarrow> is_mapped mem' b n"
    and r: "\<forall>i \<in> set [0..<length lm].
          read32 mem' (link_of mi offset (lm ! i)) =
            Inr (if Suc i = length lm then list_head offset else link_of mi offset (lm ! Suc i)) \<and>
          read32 mem' (link_of mi offset (lm ! i) + 4) =
            Inr (if i = 0 then list_head offset else link_of mi offset (lm ! (i - 1)))"
    by blast
  have f': "\<forall>x. (\<forall>m \<in> set lm. x < link_of mi offset m \<or> link_of mi offset m + 8 \<le> x)
            \<longrightarrow> mem' x = mem x"
    using f by simp
  from l r f' d show ?thesis
    by (intro exI [of _ mem']) (simp add: set_link_list_entry_def linked_iff)
qed

lemma linked_cong:
  assumes "linked mem mi offset ms"
    and "\<And>m x. m \<in> set ms \<Longrightarrow> link_of mi offset m \<le> x \<Longrightarrow> x < link_of mi offset m + 8 \<Longrightarrow>
           mem' x = mem x"
  shows "linked mem' mi offset ms"
proof -
  have "\<And>i. i < length ms \<Longrightarrow>
      read32 mem' (link_of mi offset (ms ! i)) = read32 mem (link_of mi offset (ms ! i)) \<and>
      read32 mem' (link_of mi offset (ms ! i) + 4) = read32 mem (link_of mi offset (ms ! i) + 4)"
  proof -
    fix i assume i: "i < length ms"
    then have m: "ms ! i \<in> set ms" by simp
    have "read32 mem' (link_of mi offset (ms ! i)) = read32 mem (link_of mi offset (ms ! i))"
      by (rule read32_cong) (auto intro: assms(2) [OF m])
    moreover have "read32 mem' (link_of mi offset (ms ! i) + 4)
        = read32 mem (link_of mi offset (ms ! i) + 4)"
      by (rule read32_cong) (auto intro: assms(2) [OF m])
    ultimately show "read32 mem' (link_of mi offset (ms ! i)) = read32 mem (link_of mi offset (ms ! i)) \<and>
      read32 mem' (link_of mi offset (ms ! i) + 4) = read32 mem (link_of mi offset (ms ! i) + 4)"
      by simp
  qed
  with assms(1) show ?thesis by (simp add: linked_iff)
qed

lemma follow_forward:
  assumes nh: "\<forall>i < length L. L ! i \<noteq> H"
    and lk: "\<forall>i < length L. read32 mem (L ! i) = Inr (if Suc i = length L then H else L ! Suc i)"
  shows "k \<le> length L \<Longrightarrow> length L - k < fuel \<Longrightarrow>
     follow mem 0 H (if k = length L then H else L ! k) fuel = Some (drop k L)"
proof (induction "length L - k" arbitrary: k fuel)
  case 0
  then have k: "k = length L" by simp
  from 0 obtain f where "fuel = Suc f" by (cases fuel) auto
  with k show ?case by simp
next
  case (Suc d)
  then have k: "k < length L" by simp
  from Suc.prems obtain f where f: "fuel = Suc f" by (cases fuel) auto
  have ih: "follow mem 0 H (if Suc k = length L then H else L ! Suc k) f = Some (drop (Suc k) L)"
    using Suc.hyps(1) [of "Suc k" f] Suc.hyps(2) Suc.prems f k by simp
  have dr: "drop k L = L ! k # drop (Suc k) L" using k by (simp add: Cons_nth_drop_Suc)
  from k nh lk ih show ?case by (simp add: f dr)
qed

lemma follow_backward:
  assumes nh: "\<forall>i < length L. L ! i \<noteq> H"
    and lk: "\<forall>i < length L. read32 mem (L ! i + 4) = Inr (if i = 0 then H else L ! (i - 1))"
  shows "k < length L \<Longrightarrow> Suc k < fuel \<Longrightarrow>
     follow mem 4 H (L ! k) fuel = Some (rev (take (Suc k) L))"
proof (induction k arbitrary: fuel)
  case 0
  then obtain f where f: "fuel = Suc (Suc f)" by (auto simp: less_iff_Suc_add)
  have a: "L ! 0 \<noteq> H" using nh 0 by simp
  have r: "read32 mem (L ! 0 + 4) = Inr H" using lk 0 by simp
  have tk: "take (Suc 0) L = [L ! 0]" using 0 by (simp add: take_Suc_conv_app_nth)
  show ?case by (simp add: f a r tk)
next
  case (Suc k)
  then obtain f where f: "fuel = Suc f" by (cases fuel) auto
  have ih: "follow mem 4 H (L ! k) f = Some (rev (take (Suc k) L))"
    using Suc.IH [of f] Suc.prems f by simp
  have tk: "take (Suc (Suc k)) L = take (Suc k) L @ [L ! Suc k]"
    using Suc.prems by (simp add: take_Suc_conv_app_nth)
  from Suc.prems nh lk ih show ?case by (simp add: f tk)
qed

section \<open>The three fixups\<close>

lemma fix_InLoadOrderModuleList_eq:
  "fix_InLoadOrderModuleList n j mi =
     (let j' = (if list_all (\<lambda>s. s \<noteq> None) (specials n mi) then j
                else log_warn ''No main pe, ldr data will be unconsistant %r'' j) in
      ebind (set_link_list_entry (vm j') (required_load_order n mi) mi 0x0)
        (\<lambda>mem'. Inr (j'\<lparr>vm := mem'\<rparr>)))"
proof -
  have s: "set [name2module mi n, name2module mi ''kernel32.dll'', name2module mi ''ntdll.dll'']
             = set (specials n mi)"
    by (auto simp: specials_def)
  have a: "list_all (\<lambda>m. m \<noteq> None)
             [name2module mi n, name2module mi ''kernel32.dll'', name2module mi ''ntdll.dll'']
             = list_all (\<lambda>s. s \<noteq> None) (specials n mi)"
    by (auto simp: specials_def)
  show ?thesis
    unfolding fix_InLoadOrderModuleList_def Let_def s a required_load_order_def required_init_order_def
    by (simp add: slice_insert_def specials_def)
qed

lemma fix_InMemoryOrderModuleList_eq:
  "fix_InMemoryOrderModuleList n j mi =
     (let j' = (if list_all (\<lambda>s. s \<noteq> None) (specials n mi) then j
                else log_warn ''No main pe, ldr data will be unconsistant'' j) in
      ebind (set_link_list_entry (vm j') (required_load_order n mi) mi 0x8)
        (\<lambda>mem'. Inr (j'\<lparr>vm := mem'\<rparr>)))"
proof -
  have s: "set [name2module mi n, name2module mi ''kernel32.dll'', name2module mi ''ntdll.dll'']
             = set (specials n mi)"
    by (auto simp: specials_def)
  have a: "list_all (\<lambda>m. m \<noteq> None)
             [name2module mi n, name2module mi ''kernel32.dll'', name2module mi ''ntdll.dll'']
             = list_all (\<lambda>s. s \<noteq> None) (specials n mi)"
    by (auto simp: specials_def)
  show ?thesis
    unfolding fix_InMemoryOrderModuleList_def Let_def s a required_load_order_def required_init_order_def
    by (simp add: slice_insert_def specials_def)
qed

lemma fix_InInitializationOrderModuleList_eq:
  "fix_InInitializationOrderModuleList n j mi =
     (let j' = (if list_all (\<lambda>s. s \<noteq> None) (specials n mi) then j
                else log_warn ''No main pe, ldr data will be unconsistant'' j) in
      ebind (set_link_list_entry (vm j') (required_init_order n mi) mi 0x10)
        (\<lambda>mem'. Inr (j'\<lparr>vm := mem'\<rparr>)))"
proof -
  have s: "set [name2module mi n, name2module mi ''kernel32.dll'', name2module mi ''ntdll.dll'']
             = set (specials n mi)"
    by (auto simp: specials_def)
  have a: "list_all (\<lambda>m. m \<noteq> None)
             [name2module mi n, name2module mi ''kernel32.dll'', name2module mi ''ntdll.dll'']
             = list_all (\<lambda>s. s \<noteq> None) (specials n mi)"
    by (auto simp: specials_def)
  show ?thesis
    unfolding fix_InInitializationOrderModuleList_def Let_def s a required_load_order_def required_init_order_def
    by (simp add: slice_insert_def specials_def)
qed

lemma entries_okD:
  assumes "entries_ok mem mi"
  shows "distinct (modules mi)"
    and "\<And>m. m \<in> set (modules mi) \<Longrightarrow>
           \<exists>e. module2entry mi m = Some e \<and> 0 \<le> e \<and> e + 0x18 \<le> 4294967296 \<and> is_mapped mem e 0x18"
    and "\<And>m m'. m \<in> set (modules mi) \<Longrightarrow> m' \<in> set (modules mi) \<Longrightarrow> m = m' \<or>
           the (module2entry mi m) + 0x18 \<le> the (module2entry mi m') \<or>
           the (module2entry mi m') + 0x18 \<le> the (module2entry mi m)"
proof -
  show "distinct (modules mi)" using assms by (simp add: entries_ok_def)
  show "\<And>m. m \<in> set (modules mi) \<Longrightarrow>
           \<exists>e. module2entry mi m = Some e \<and> 0 \<le> e \<and> e + 0x18 \<le> 4294967296 \<and> is_mapped mem e 0x18"
    using assms by (auto simp: entries_ok_def list_all_iff split: option.splits)
  show "\<And>m m'. m \<in> set (modules mi) \<Longrightarrow> m' \<in> set (modules mi) \<Longrightarrow> m = m' \<or>
           the (module2entry mi m) + 0x18 \<le> the (module2entry mi m') \<or>
           the (module2entry mi m') + 0x18 \<le> the (module2entry mi m)"
    using assms unfolding entries_ok_def list_all_iff by blast
qed

lemma entries_ok_links_wf:
  assumes ok: "entries_ok mem mi" and d: "distinct lm" and s: "set lm \<subseteq> set (modules mi)"
    and off: "0 \<le> offset" "offset + 8 \<le> 0x18"
  shows "links_wf mi lm offset" and "\<forall>m \<in> set lm. is_mapped mem (link_of mi offset m) 8"
proof -
  show "links_wf mi lm offset"
    unfolding links_wf_def
  proof (intro conjI ballI)
    show "distinct lm" by (rule d)
    show "\<And>m. m \<in> set lm \<Longrightarrow> \<exists>e. module2entry mi m = Some e \<and> 0 \<le> e \<and> e + 0x18 \<le> 4294967296"
      using entries_okD(2) [OF ok] s by blast
    show "\<And>m m'. m \<in> set lm \<Longrightarrow> m' \<in> set lm \<Longrightarrow> m = m' \<or>
        the (module2entry mi m) + 0x18 \<le> the (module2entry mi m') \<or>
        the (module2entry mi m') + 0x18 \<le> the (module2entry mi m)"
      using entries_okD(3) [OF ok] s by blast
    show "0 \<le> offset" "offset + 8 \<le> 0x18" by (rule off)+
  qed
  show "\<forall>m \<in> set lm. is_mapped mem (link_of mi offset m) 8"
  proof
    fix m assume "m \<in> set lm"
    then have "m \<in> set (modules mi)" using s by blast
    from entries_okD(2) [OF ok this] obtain e where
      "module2entry mi m = Some e" "is_mapped mem e 0x18" by blast
    then show "is_mapped mem (link_of mi offset m) 8"
      using off by (auto simp: link_of_def intro: is_mapped_sub)
  qed
qed

lemma entries_ok_mono:
  assumes "entries_ok mem mi" "\<And>b n. is_mapped mem b n \<Longrightarrow> is_mapped mem' b n"
  shows "entries_ok mem' mi"
  using assms unfolding entries_ok_def list_all_iff
  by (auto split: option.splits)

lemma required_orders_ok:
  assumes d: "distinct (modules mi)"
    and sp: "specials_ok n mi \<or> \<not> list_all (\<lambda>s. s \<noteq> None) (specials n mi)"
  shows "distinct (required_load_order n mi)" "set (required_load_order n mi) \<subseteq> set (modules mi)"
    "distinct (required_init_order n mi)" "set (required_init_order n mi) \<subseteq> set (modules mi)"
proof -
  show "distinct (required_load_order n mi)"
  proof (cases "list_all (\<lambda>s. s \<noteq> None) (specials n mi)")
    case False then show ?thesis using d by (simp add: required_load_order_def)
  next
    case True
    with sp have "specials_ok n mi" by blast
    with True d show ?thesis
      unfolding required_load_order_def specials_ok_def specials_def
      by (auto split: option.splits)
  qed
  show "distinct (required_init_order n mi)"
  proof (cases "list_all (\<lambda>s. s \<noteq> None) (specials n mi)")
    case False then show ?thesis using d by (simp add: required_init_order_def)
  next
    case True
    with sp have "specials_ok n mi" by blast
    with True d show ?thesis
      unfolding required_init_order_def specials_ok_def specials_def
      by (auto split: option.splits)
  qed
  show "set (required_load_order n mi) \<subseteq> set (modules mi)"
  proof (cases "list_all (\<lambda>s. s \<noteq> None) (specials n mi)")
    case False then show ?thesis by (simp add: required_load_order_def)
  next
    case True
    with sp have "specials_ok n mi" by blast
    with True show ?thesis
      unfolding required_load_order_def specials_ok_def specials_def
      by (auto split: option.splits)
  qed
  show "set (required_init_order n mi) \<subseteq> set (modules mi)"
  proof (cases "list_all (\<lambda>s. s \<noteq> None) (specials n mi)")
    case False then show ?thesis by (simp add: required_init_order_def)
  next
    case True
    with sp have "specials_ok n mi" by blast
    with True show ?thesis
      unfolding required_init_order_def specials_ok_def specials_def
      by (auto split: option.splits)
  qed
qed

lemma link_step:
  assumes ok: "entries_ok mem mi" and d: "distinct lm" and s: "set lm \<subseteq> set (modules mi)"
    and off: "0 \<le> offset" "offset + 8 \<le> 0x18"
  shows "\<exists>mem'. set_link_list_entry mem lm mi offset = Inr mem' \<and>
       linked mem' mi offset lm \<and>
       (\<forall>x. (\<forall>m \<in> set (modules mi). x < link_of mi offset m \<or> link_of mi offset m + 8 \<le> x)
            \<longrightarrow> mem' x = mem x) \<and>
       (\<forall>b k. is_mapped mem b k \<longrightarrow> is_mapped mem' b k) \<and>
       entries_ok mem' mi"
proof -
  note wf = entries_ok_links_wf [OF ok d s off]
  from set_link_list_entry_ok [OF wf] obtain mem' where
    a: "set_link_list_entry mem lm mi offset = Inr mem'" "linked mem' mi offset lm"
    and f: "\<forall>x. (\<forall>m \<in> set lm. x < link_of mi offset m \<or> link_of mi offset m + 8 \<le> x)
            \<longrightarrow> mem' x = mem x"
    and m: "\<forall>b n. is_mapped mem b n \<longrightarrow> is_mapped mem' b n"
    by blast
  have f': "\<forall>x. (\<forall>m \<in> set (modules mi). x < link_of mi offset m \<or> link_of mi offset m + 8 \<le> x)
            \<longrightarrow> mem' x = mem x"
    using f s by blast
  have "entries_ok mem' mi" using ok m by (auto intro: entries_ok_mono)
  with a f' m show ?thesis by blast
qed

lemma fix_InLoadOrderModuleList_ok:
  assumes ok: "entries_ok (vm j) mi"
    and sp: "specials_ok n mi \<or> \<not> list_all (\<lambda>s. s \<noteq> None) (specials n mi)"
  shows "\<exists>j'. fix_InLoadOrderModuleList n j mi = Inr j' \<and>
       linked (vm j') mi 0 (required_load_order n mi) \<and>
       (\<forall>x. (\<forall>m \<in> set (modules mi). x < link_of mi 0 m \<or> link_of mi 0 m + 8 \<le> x)
            \<longrightarrow> vm j' x = vm j x) \<and>
       (\<forall>b k. is_mapped (vm j) b k \<longrightarrow> is_mapped (vm j') b k) \<and>
       entries_ok (vm j') mi \<and>
       log j' = log j @ (if list_all (\<lambda>s. s \<noteq> None) (specials n mi) then []
                         else [(WARNING, ''No main pe, ldr data will be unconsistant %r'')])"
proof -
  note r = required_orders_ok [OF entries_okD(1) [OF ok] sp]
  from link_step [OF ok r(1) r(2), of 0] obtain mem' where
    "set_link_list_entry (vm j) (required_load_order n mi) mi 0 = Inr mem'"
    "linked mem' mi 0 (required_load_order n mi)"
    "\<forall>x. (\<forall>m \<in> set (modules mi). x < link_of mi 0 m \<or> link_of mi 0 m + 8 \<le> x)
            \<longrightarrow> mem' x = vm j x"
    "\<forall>b k. is_mapped (vm j) b k \<longrightarrow> is_mapped mem' b k"
    "entries_ok mem' mi"
    by auto
  then show ?thesis
    by (simp add: fix_InLoadOrderModuleList_eq Let_def ebind_def log_warn_def)
qed

lemma fix_InMemoryOrderModuleList_ok:
  assumes ok: "entries_ok (vm j) mi"
    and sp: "specials_ok n mi \<or> \<not> list_all (\<lambda>s. s \<noteq> None) (specials n mi)"
  shows "\<exists>j'. fix_InMemoryOrderModuleList n j mi = Inr j' \<and>
       linked (vm j') mi 8 (required_load_order n mi) \<and>
       (\<forall>x. (\<forall>m \<in> set (modules mi). x < link_of mi 8 m \<or> link_of mi 8 m + 8 \<le> x)
            \<longrightarrow> vm j' x = vm j x) \<and>
       (\<forall>b k. is_mapped (vm j) b k \<longrightarrow> is_mapped (vm j') b k) \<and>
       entries_ok (vm j') mi \<and>
       log j' = log j @ (if list_all (\<lambda>s. s \<noteq> None) (specials n mi) then []
                         else [(WARNING, ''No main pe, ldr data will be unconsistant'')])"
proof -
  note r = required_orders_ok [OF entries_okD(1) [OF ok] sp]
  from link_step [OF ok r(1) r(2), of 8] obtain mem' where
    "set_link_list_entry (vm j) (required_load_order n mi) mi 8 = Inr mem'"
    "linked mem' mi 8 (required_load_order n mi)"
    "\<forall>x. (\<forall>m \<in> set (modules mi). x < link_of mi 8 m \<or> link_of mi 8 m + 8 \<le> x)
            \<longrightarrow> mem' x = vm j x"
    "\<forall>b k. is_mapped (vm j) b k \<longrightarrow> is_mapped mem' b k"
    "entries_ok mem' mi"
    by auto
  then show ?thesis
    by (simp add: fix_InMemoryOrderModuleList_eq Let_def ebind_def log_warn_def)
qed

lemma fix_InInitializationOrderModuleList_ok:
  assumes ok: "entries_ok (vm j) mi"
    and sp: "specials_ok n mi \<or> \<not> list_all (\<lambda>s. s \<noteq> None) (specials n mi)"
  shows "\<exists>j'. fix_InInitializationOrderModuleList n j mi = Inr j' \<and>
       linked (vm j') mi 0x10 (required_init_order n mi) \<and>
       (\<forall>x. (\<forall>m \<in> set (modules mi). x < link_of mi 0x10 m \<or> link_of mi 0x10 m + 8 \<le> x)
            \<longrightarrow> vm j' x = vm j x) \<and>
       (\<forall>b k. is_mapped (vm j) b k \<longrightarrow> is_mapped (vm j') b k) \<and>
       entries_ok (vm j') mi \<and>
       log j' = log j @ (if list_all (\<lambda>s. s \<noteq> None) (specials n mi) then []
                         else [(WARNING, ''No main pe, ldr data will be unconsistant'')])"
proof -
  note r = required_orders_ok [OF entries_okD(1) [OF ok] sp]
  from link_step [OF ok r(3) r(4), of "0x10"] obtain mem' where
    "set_link_list_entry (vm j) (required_init_order n mi) mi 0x10 = Inr mem'"
    "linked mem' mi 0x10 (required_init_order n mi)"
    "\<forall>x. (\<forall>m \<in> set (modules mi). x < link_of mi 0x10 m \<or> link_of mi 0x10 m + 8 \<le> x)
            \<longrightarrow> mem' x = vm j x"
    "\<forall>b k. is_mapped (vm j) b k \<longrightarrow> is_mapped mem' b k"
    "entries_ok mem' mi"
    by auto
  then show ?thesis
    by (simp add: fix_InInitializationOrderModuleList_eq Let_def ebind_def log_warn_def)
qed

section \<open>The list heads\<close>

lemma heads_freeD: "heads_free mem \<Longrightarrow> i < 0x1c \<Longrightarrow> mem (peb_ldr_data_address + 0xC + int i) = None"
  by (simp add: heads_free_def list_all_iff)

lemma build_ldr_data_full:
  assumes a: "name2module mi n = Some a" "module2entry mi a = Some ea" "0 \<le> ea" "ea + 0x18 \<le> 4294967296"
    and b: "name2module mi ''ntdll.dll'' = Some b" "module2entry mi b = Some eb" "0 \<le> eb"
      "eb + 0x18 \<le> 4294967296"
    and hf: "heads_free mem"
  shows "\<exists>mem'. build_ldr_data n mem mi = Inr mem' \<and>
       read32 mem' (list_head 0) = Inr (link_of mi 0 a) \<and>
       read32 mem' (list_head 0 + 4) = Inr 0 \<and>
       read32 mem' (list_head 8) = Inr (link_of mi 8 a) \<and>
       read32 mem' (list_head 8 + 4) = Inr 0 \<and>
       read32 mem' (list_head 0x10) = Inr (link_of mi 0x10 b) \<and>
       read32 mem' (list_head 0x10 + 4) = Inr 0 \<and>
       (\<forall>x. x < peb_ldr_data_address + 0xC \<or> peb_ldr_data_address + 0x28 \<le> x \<longrightarrow> mem' x = mem x)"
proof -
  let ?A = "3415712 :: int"
  have Av: "peb_ldr_data_address = 3415712"
    by (simp add: peb_ldr_data_address_def LDR_AD_def peb_ldr_data_offset_def)
  let ?m0 = "poke mem (3415724) (replicate 24 0)"
  let ?m1 = "poke ?m0 (3415724) (pck32_bytes ea)"
  let ?m2 = "poke ?m1 (3415728) (pck32_bytes 0)"
  let ?m3 = "poke ?m2 (3415732) (pck32_bytes (ea + 8))"
  let ?m4 = "poke ?m3 (3415736) (pck32_bytes 0)"
  let ?m5 = "poke ?m4 (3415740) (pck32_bytes (eb + 0x10))"
  let ?m6 = "poke ?m5 (3415744) (pck32_bytes 0)"
  let ?m7 = "poke ?m6 (3415748) (pck32_bytes 0)"
  have p0: "add_memory_page mem (3415724) (replicate 24 0) = Inr ?m0"
    using heads_freeD [OF hf] by (intro add_memory_page_ok) (simp add: Av)
  have mps: "is_mapped ?m0 (3415724) 4" "is_mapped ?m0 (3415728) 4" "is_mapped ?m0 (3415732) 4"
    "is_mapped ?m0 (3415736) 4" "is_mapped ?m0 (3415740) 4" "is_mapped ?m0 (3415744) 4"
    by (rule is_mapped_poke_self; simp)+
  have fr: "\<And>i. i < 4 \<Longrightarrow> ?m6 (3415748 + int i) = None"
  proof -
    fix i :: nat assume "i < 4"
    then have "mem (3415724 + int (24 + i)) = None"
      using heads_freeD [OF hf, of "24 + i"] by (simp add: Av)
    then show "?m6 (3415748 + int i) = None"
      by (simp add: poke_def length_pck32_bytes add.commute add.left_commute)
  qed
  have p7: "add_memory_page ?m6 (3415748) (pck32_bytes 0) = Inr ?m7"
    using fr by (intro add_memory_page_ok) (simp add: length_pck32_bytes)
  have A: "LDR_AD + peb_ldr_data_offset = ?A" by (simp add: LDR_AD_def peb_ldr_data_offset_def)
  have res: "build_ldr_data n mem mi = Inr ?m7"
    unfolding build_ldr_data_def A Av
    using a(3,4) b(3,4) p7
    by (simp add: Let_def a(1,2) b(1,2) subscript_def ebind_def ListEntry_sizeof_def p0
        PEB_LDR_DATA_InLoadOrderModuleList_def PEB_LDR_DATA_InMemoryOrderModuleList_def
        PEB_LDR_DATA_InInitializationOrderModuleList_def ListEntry_flink_def ListEntry_blink_def
        LdrDataEntry_InMemoryOrderLinks_def LdrDataEntry_InInitializationOrderLinks_def
        write32_ok mps is_mapped_poke pck32_def)
  have rd: "read32 ?m7 (3415724) = Inr ea" "read32 ?m7 (3415728) = Inr 0"
    "read32 ?m7 (3415732) = Inr (ea + 8)" "read32 ?m7 (3415736) = Inr 0"
    "read32 ?m7 (3415740) = Inr (eb + 0x10)" "read32 ?m7 (3415744) = Inr 0"
    using a(3,4) b(3,4)
    by (simp_all add: read32_poke_same read32_poke_other length_pck32_bytes)
  have o: "\<forall>x. x < 3415724 \<or> 3415752 \<le> x \<longrightarrow> ?m7 x = mem x"
    by (auto simp: poke_def length_pck32_bytes)
  show ?thesis
    using res rd o
    by (intro exI [of _ ?m7]) (simp add: list_head_def link_of_def a(2) b(2) Av)
qed

lemma link_fields_apart:
  assumes ok: "entries_ok mem mi" and m: "m \<in> set (modules mi)"
    and x: "link_of mi off1 m \<le> x" "x < link_of mi off1 m + 8"
    and o1: "0 \<le> off1" "off1 + 8 \<le> 0x18" and o2: "0 \<le> off2" "off2 + 8 \<le> 0x18"
    and ne: "off2 + 8 \<le> off1 \<or> off1 + 8 \<le> off2"
  shows "\<forall>m' \<in> set (modules mi). x < link_of mi off2 m' \<or> link_of mi off2 m' + 8 \<le> x"
proof
  fix m' assume m': "m' \<in> set (modules mi)"
  show "x < link_of mi off2 m' \<or> link_of mi off2 m' + 8 \<le> x"
  proof (cases "m = m'")
    case True
    with x ne show ?thesis by (auto simp: link_of_def)
  next
    case False
    with entries_okD(3) [OF ok m m']
    have "the (module2entry mi m) + 0x18 \<le> the (module2entry mi m') \<or>
          the (module2entry mi m') + 0x18 \<le> the (module2entry mi m)" by blast
    with x o1 o2 show ?thesis by (auto simp: link_of_def)
  qed
qed

lemma entries_mapped:
  assumes ok: "entries_ok mem mi" and m: "m \<in> set (modules mi)"
    and x: "the (module2entry mi m) \<le> x" "x < the (module2entry mi m) + 0x18"
  shows "mem x \<noteq> None"
proof -
  from entries_okD(2) [OF ok m] obtain e where
    e: "module2entry mi m = Some e" "is_mapped mem e 0x18" by blast
  have "0 \<le> x - e \<and> x - e < int 0x18" using x e(1) by simp
  with e(2) have "mem (e + (x - e)) \<noteq> None" unfolding is_mapped_iff by blast
  then show ?thesis by simp
qed

lemma unmapped_outside_links:
  assumes ok: "entries_ok mem mi" and u: "mem x = None" and o: "0 \<le> off" "off + 8 \<le> 0x18"
  shows "\<forall>m \<in> set (modules mi). x < link_of mi off m \<or> link_of mi off m + 8 \<le> x"
proof
  fix m assume m: "m \<in> set (modules mi)"
  show "x < link_of mi off m \<or> link_of mi off m + 8 \<le> x"
  proof (rule ccontr)
    assume "\<not> (x < link_of mi off m \<or> link_of mi off m + 8 \<le> x)"
    then have "the (module2entry mi m) \<le> x" "x < the (module2entry mi m) + 0x18"
      using o by (auto simp: link_of_def)
    from entries_mapped [OF ok m this] u show False by simp
  qed
qed

lemma fixups_ok:
  assumes ok: "entries_ok (vm j) mi"
    and sp: "specials_ok n mi \<or> \<not> list_all (\<lambda>s. s \<noteq> None) (specials n mi)"
  shows "\<exists>j1 j2 j3.
       fix_InLoadOrderModuleList n j mi = Inr j1 \<and>
       fix_InMemoryOrderModuleList n j1 mi = Inr j2 \<and>
       fix_InInitializationOrderModuleList n j2 mi = Inr j3 \<and>
       linked (vm j3) mi 0 (required_load_order n mi) \<and>
       linked (vm j3) mi 8 (required_load_order n mi) \<and>
       linked (vm j3) mi 0x10 (required_init_order n mi) \<and>
       (\<forall>x. vm j x = None \<longrightarrow> vm j3 x = None) \<and>
       entries_ok (vm j3) mi \<and>
       log j3 = log j @ (if list_all (\<lambda>s. s \<noteq> None) (specials n mi) then []
                         else [(WARNING, ''No main pe, ldr data will be unconsistant %r''),
                               (WARNING, ''No main pe, ldr data will be unconsistant''),
                               (WARNING, ''No main pe, ldr data will be unconsistant'')])"
proof -
  note r = required_orders_ok [OF entries_okD(1) [OF ok] sp]
  from fix_InLoadOrderModuleList_ok [OF ok sp] obtain j1 where
    a1: "fix_InLoadOrderModuleList n j mi = Inr j1"
    and l1: "linked (vm j1) mi 0 (required_load_order n mi)"
    and f1: "\<forall>x. (\<forall>m \<in> set (modules mi). x < link_of mi 0 m \<or> link_of mi 0 m + 8 \<le> x)
            \<longrightarrow> vm j1 x = vm j x"
    and ok1: "entries_ok (vm j1) mi"
    and g1: "log j1 = log j @ (if list_all (\<lambda>s. s \<noteq> None) (specials n mi) then []
                         else [(WARNING, ''No main pe, ldr data will be unconsistant %r'')])"
    by blast
  from fix_InMemoryOrderModuleList_ok [OF ok1 sp] obtain j2 where
    a2: "fix_InMemoryOrderModuleList n j1 mi = Inr j2"
    and l2: "linked (vm j2) mi 8 (required_load_order n mi)"
    and f2: "\<forall>x. (\<forall>m \<in> set (modules mi). x < link_of mi 8 m \<or> link_of mi 8 m + 8 \<le> x)
            \<longrightarrow> vm j2 x = vm j1 x"
    and ok2: "entries_ok (vm j2) mi"
    and g2: "log j2 = log j1 @ (if list_all (\<lambda>s. s \<noteq> None) (specials n mi) then []
                         else [(WARNING, ''No main pe, ldr data will be unconsistant'')])"
    by blast
  from fix_InInitializationOrderModuleList_ok [OF ok2 sp] obtain j3 where
    a3: "fix_InInitializationOrderModuleList n j2 mi = Inr j3"
    and l3: "linked (vm j3) mi 0x10 (required_init_order n mi)"
    and f3: "\<forall>x. (\<forall>m \<in> set (modules mi). x < link_of mi 0x10 m \<or> link_of mi 0x10 m + 8 \<le> x)
            \<longrightarrow> vm j3 x = vm j2 x"
    and ok3: "entries_ok (vm j3) mi"
    and g3: "log j3 = log j2 @ (if list_all (\<lambda>s. s \<noteq> None) (specials n mi) then []
                         else [(WARNING, ''No main pe, ldr data will be unconsistant'')])"
    by blast
  have k1: "linked (vm j2) mi 0 (required_load_order n mi)"
  proof (rule linked_cong [OF l1])
    fix m x assume "m \<in> set (required_load_order n mi)"
      and x: "link_of mi 0 m \<le> x" "x < link_of mi 0 m + 8"
    then have m: "m \<in> set (modules mi)" using r(2) by blast
    have "\<forall>m' \<in> set (modules mi). x < link_of mi 8 m' \<or> link_of mi 8 m' + 8 \<le> x"
      by (rule link_fields_apart [OF ok m x]) simp_all
    with f2 show "vm j2 x = vm j1 x" by blast
  qed
  have k1': "linked (vm j3) mi 0 (required_load_order n mi)"
  proof (rule linked_cong [OF k1])
    fix m x assume "m \<in> set (required_load_order n mi)"
      and x: "link_of mi 0 m \<le> x" "x < link_of mi 0 m + 8"
    then have m: "m \<in> set (modules mi)" using r(2) by blast
    have "\<forall>m' \<in> set (modules mi). x < link_of mi 0x10 m' \<or> link_of mi 0x10 m' + 8 \<le> x"
      by (rule link_fields_apart [OF ok m x]) simp_all
    with f3 show "vm j3 x = vm j2 x" by blast
  qed
  have k2: "linked (vm j3) mi 8 (required_load_order n mi)"
  proof (rule linked_cong [OF l2])
    fix m x assume "m \<in> set (required_load_order n mi)"
      and x: "link_of mi 8 m \<le> x" "x < link_of mi 8 m + 8"
    then have m: "m \<in> set (modules mi)" using r(2) by blast
    have "\<forall>m' \<in> set (modules mi). x < link_of mi 0x10 m' \<or> link_of mi 0x10 m' + 8 \<le> x"
      by (rule link_fields_apart [OF ok m x]) simp_all
    with f3 show "vm j3 x = vm j2 x" by blast
  qed
  have u: "\<forall>x. vm j x = None \<longrightarrow> vm j3 x = None"
  proof (intro allI impI)
    fix x assume u: "vm j x = None"
    have "vm j1 x = vm j x"
      using f1 unmapped_outside_links [OF ok u, of 0] by simp
    moreover have "vm j2 x = vm j1 x"
      using f2 unmapped_outside_links [OF ok u, of 8] by simp
    moreover have "vm j3 x = vm j2 x"
      using f3 unmapped_outside_links [OF ok u, of "0x10"] by simp
    ultimately show "vm j3 x = None" using u by simp
  qed
  have g: "log j3 = log j @ (if list_all (\<lambda>s. s \<noteq> None) (specials n mi) then []
                         else [(WARNING, ''No main pe, ldr data will be unconsistant %r''),
                               (WARNING, ''No main pe, ldr data will be unconsistant''),
                               (WARNING, ''No main pe, ldr data will be unconsistant'')])"
    using g1 g2 g3 by simp
  from a1 a2 a3 k1' k2 l3 u ok3 g show ?thesis by blast
qed

lemma heads_not_links:
  assumes ok: "entries_ok mem mi" and hf: "heads_free mem" and m: "m \<in> set (modules mi)"
    and o: "0 \<le> off" "off + 8 \<le> 0x18" and h: "0 \<le> hoff" "hoff < 0x1c"
  shows "link_of mi off m \<noteq> peb_ldr_data_address + 0xC + hoff"
proof
  assume e: "link_of mi off m = peb_ldr_data_address + 0xC + hoff"
  have "nat hoff < 0x1c" "int (nat hoff) = hoff" using h by simp_all
  with heads_freeD [OF hf, of "nat hoff"] have "mem (peb_ldr_data_address + 0xC + hoff) = None"
    by simp
  moreover have "mem (link_of mi off m) \<noteq> None"
    using o by (intro entries_mapped [OF ok m]) (simp_all add: link_of_def)
  ultimately show False using e by simp
qed

lemma specials_okD:
  assumes "specials_ok n mi"
  shows "\<exists>a b k. name2module mi n = Some a \<and> name2module mi ''ntdll.dll'' = Some b \<and>
           name2module mi ''kernel32.dll'' = Some k \<and>
           a \<in> set (modules mi) \<and> b \<in> set (modules mi) \<and> k \<in> set (modules mi) \<and>
           a \<noteq> b \<and> a \<noteq> k \<and> b \<noteq> k"
  using assms unfolding specials_ok_def specials_def
  by (auto split: option.splits)

lemma required_orders_full:
  assumes "name2module mi n = Some a" "name2module mi ''ntdll.dll'' = Some b"
    "name2module mi ''kernel32.dll'' = Some k"
  shows "required_load_order n mi =
           a # b # k # filter (\<lambda>m. m \<noteq> a \<and> m \<noteq> b \<and> m \<noteq> k) (modules mi)"
    and "required_init_order n mi =
           b # k # filter (\<lambda>m. m \<noteq> a \<and> m \<noteq> b \<and> m \<noteq> k) (modules mi)"
  using assms by (simp_all add: required_load_order_def required_init_order_def specials_def)

lemma init_seh_lists_full:
  assumes ok: "entries_ok (vm j) mi" and sp: "specials_ok n mi" and hf: "heads_free (vm j)"
  shows "\<exists>j'. init_seh_lists n j mi = Inr j' \<and>
       linked (vm j') mi 0 (required_load_order n mi) \<and>
       linked (vm j') mi 8 (required_load_order n mi) \<and>
       linked (vm j') mi 0x10 (required_init_order n mi) \<and>
       read32 (vm j') (list_head 0) = Inr (link_of mi 0 (hd (required_load_order n mi))) \<and>
       read32 (vm j') (list_head 0 + 4) = Inr 0 \<and>
       read32 (vm j') (list_head 8) = Inr (link_of mi 8 (hd (required_load_order n mi))) \<and>
       read32 (vm j') (list_head 8 + 4) = Inr 0 \<and>
       read32 (vm j') (list_head 0x10) = Inr (link_of mi 0x10 (hd (required_init_order n mi))) \<and>
       read32 (vm j') (list_head 0x10 + 4) = Inr 0 \<and>
       (\<forall>x. vm j x = None \<and>
            (x < peb_ldr_data_address + 0xC \<or> peb_ldr_data_address + 0x28 \<le> x)
            \<longrightarrow> vm j' x = None) \<and>
       log j' = log j"
proof -
  from specials_okD [OF sp] obtain a b k where
    s: "name2module mi n = Some a" "name2module mi ''ntdll.dll'' = Some b"
       "name2module mi ''kernel32.dll'' = Some k"
    and mem: "a \<in> set (modules mi)" "b \<in> set (modules mi)" "k \<in> set (modules mi)"
    by blast
  have al: "list_all (\<lambda>s. s \<noteq> None) (specials n mi)" using s by (simp add: specials_def)
  note ro = required_orders_full [OF s]
  have sp': "specials_ok n mi \<or> \<not> list_all (\<lambda>s. s \<noteq> None) (specials n mi)" using sp by simp
  note r = required_orders_ok [OF entries_okD(1) [OF ok] sp']
  from fixups_ok [OF ok sp'] al obtain j1 j2 j3 where
    f: "fix_InLoadOrderModuleList n j mi = Inr j1"
       "fix_InMemoryOrderModuleList n j1 mi = Inr j2"
       "fix_InInitializationOrderModuleList n j2 mi = Inr j3"
    and l: "linked (vm j3) mi 0 (required_load_order n mi)"
       "linked (vm j3) mi 8 (required_load_order n mi)"
       "linked (vm j3) mi 0x10 (required_init_order n mi)"
    and u: "\<forall>x. vm j x = None \<longrightarrow> vm j3 x = None"
    and ok3: "entries_ok (vm j3) mi"
    and g: "log j3 = log j"
    by auto
  have hf3: "heads_free (vm j3)"
    using hf u unfolding heads_free_def list_all_iff by blast
  from entries_okD(2) [OF ok3 mem(1)] obtain ea where
    ea: "module2entry mi a = Some ea" "0 \<le> ea" "ea + 0x18 \<le> 4294967296" by blast
  from entries_okD(2) [OF ok3 mem(2)] obtain eb where
    eb: "module2entry mi b = Some eb" "0 \<le> eb" "eb + 0x18 \<le> 4294967296" by blast
  from build_ldr_data_full [OF s(1) ea s(2) eb hf3] obtain mem' where
    b: "build_ldr_data n (vm j3) mi = Inr mem'"
    and rd: "read32 mem' (list_head 0) = Inr (link_of mi 0 a)"
       "read32 mem' (list_head 0 + 4) = Inr 0"
       "read32 mem' (list_head 8) = Inr (link_of mi 8 a)"
       "read32 mem' (list_head 8 + 4) = Inr 0"
       "read32 mem' (list_head 0x10) = Inr (link_of mi 0x10 b)"
       "read32 mem' (list_head 0x10 + 4) = Inr 0"
    and fr: "\<forall>x. x < peb_ldr_data_address + 0xC \<or> peb_ldr_data_address + 0x28 \<le> x
               \<longrightarrow> mem' x = vm j3 x"
    by blast
  have keep: "\<And>m x off. m \<in> set (modules mi) \<Longrightarrow> 0 \<le> off \<Longrightarrow> off + 8 \<le> 0x18 \<Longrightarrow>
      link_of mi off m \<le> x \<Longrightarrow> x < link_of mi off m + 8 \<Longrightarrow> mem' x = vm j3 x"
  proof -
    fix m x and off :: int
    assume m: "m \<in> set (modules mi)" and o: "0 \<le> off" "off + 8 \<le> 0x18"
      and x: "link_of mi off m \<le> x" "x < link_of mi off m + 8"
    have mp: "vm j3 x \<noteq> None"
      using o x by (intro entries_mapped [OF ok3 m]) (simp_all add: link_of_def)
    have "x < peb_ldr_data_address + 0xC \<or> peb_ldr_data_address + 0x28 \<le> x"
    proof (rule ccontr)
      assume "\<not> (x < peb_ldr_data_address + 0xC \<or> peb_ldr_data_address + 0x28 \<le> x)"
      then have "nat (x - (peb_ldr_data_address + 0xC)) < 0x1c"
        "peb_ldr_data_address + 0xC + int (nat (x - (peb_ldr_data_address + 0xC))) = x"
        by arith+
      with heads_freeD [OF hf3, of "nat (x - (peb_ldr_data_address + 0xC))"] mp
      show False by simp
    qed
    with fr show "mem' x = vm j3 x" by blast
  qed
  have l0: "linked mem' mi 0 (required_load_order n mi)"
  proof (rule linked_cong [OF l(1)])
    fix m x assume "m \<in> set (required_load_order n mi)"
      and x: "link_of mi 0 m \<le> x" "x < link_of mi 0 m + 8"
    then have "m \<in> set (modules mi)" using r(2) by blast
    from keep [OF this _ _ x] show "mem' x = vm j3 x" by simp
  qed
  have l8: "linked mem' mi 8 (required_load_order n mi)"
  proof (rule linked_cong [OF l(2)])
    fix m x assume "m \<in> set (required_load_order n mi)"
      and x: "link_of mi 8 m \<le> x" "x < link_of mi 8 m + 8"
    then have "m \<in> set (modules mi)" using r(2) by blast
    from keep [OF this _ _ x] show "mem' x = vm j3 x" by simp
  qed
  have l16: "linked mem' mi 0x10 (required_init_order n mi)"
  proof (rule linked_cong [OF l(3)])
    fix m x assume "m \<in> set (required_init_order n mi)"
      and x: "link_of mi 0x10 m \<le> x" "x < link_of mi 0x10 m + 8"
    then have "m \<in> set (modules mi)" using r(4) by blast
    from keep [OF this _ _ x] show "mem' x = vm j3 x" by simp
  qed
  have i: "init_seh_lists n j mi = Inr (j3\<lparr>vm := mem'\<rparr>)"
    by (simp add: init_seh_lists_def ebind_def f b)
  have un: "\<forall>x. vm j x = None \<and>
            (x < peb_ldr_data_address + 0xC \<or> peb_ldr_data_address + 0x28 \<le> x)
            \<longrightarrow> mem' x = None"
    using u fr by auto
  show ?thesis
    using i l0 l8 l16 rd g un
    by (intro exI [of _ "j3\<lparr>vm := mem'\<rparr>"]) (simp add: ro)
qed

lemma traverse_forward:
  assumes lk: "linked mem mi off ms" and ne: "ms \<noteq> []"
    and hd: "read32 mem (list_head off) = Inr (link_of mi off (hd ms))"
    and nh: "\<forall>m \<in> set ms. link_of mi off m \<noteq> list_head off"
    and fu: "length ms < fuel"
  shows "traverse mem 0 (list_head off) fuel = Some (map (link_of mi off) ms)"
proof -
  let ?L = "map (link_of mi off) ms"
  have a: "\<forall>i < length ?L. ?L ! i \<noteq> list_head off" using nh by simp
  have b: "\<forall>i < length ?L. read32 mem (?L ! i) =
             Inr (if Suc i = length ?L then list_head off else ?L ! Suc i)"
    using lk by (auto simp: linked_iff)
  have c: "hd ms = ms ! 0" using ne by (simp add: hd_conv_nth)
  from follow_forward [OF a b, of 0 fuel] fu ne
  have "follow mem 0 (list_head off) (link_of mi off (ms ! 0)) fuel = Some ?L" by simp
  then show ?thesis by (simp add: traverse_def hd c)
qed

lemma follow_back_from_last:
  assumes lk: "linked mem mi off ms" and ne: "ms \<noteq> []"
    and nh: "\<forall>m \<in> set ms. link_of mi off m \<noteq> list_head off"
    and fu: "length ms < fuel"
  shows "follow mem 4 (list_head off) (link_of mi off (last ms)) fuel
           = Some (rev (map (link_of mi off) ms))"
proof -
  let ?L = "map (link_of mi off) ms"
  have a: "\<forall>i < length ?L. ?L ! i \<noteq> list_head off" using nh by simp
  have b: "\<forall>i < length ?L. read32 mem (?L ! i + 4) =
             Inr (if i = 0 then list_head off else ?L ! (i - 1))"
    using lk by (auto simp: linked_iff)
  have c: "last ms = ms ! (length ms - 1)" using ne by (simp add: last_conv_nth)
  from follow_backward [OF a b, of "length ms - 1" fuel] fu ne
  have "follow mem 4 (list_head off) (?L ! (length ms - 1)) fuel
          = Some (rev (take (Suc (length ms - 1)) ?L))" by simp
  with ne show ?thesis by (simp add: c)
qed

section \<open>Two registries\<close>

lemma pe_distinct:
  "pe_app \<noteq> pe_ntdll" "pe_app \<noteq> pe_kernel32" "pe_app \<noteq> pe_foo" "pe_ntdll \<noteq> pe_kernel32"
  "pe_ntdll \<noteq> pe_foo" "pe_kernel32 \<noteq> pe_foo"
  "pe_ntdll \<noteq> pe_app" "pe_kernel32 \<noteq> pe_app" "pe_foo \<noteq> pe_app" "pe_kernel32 \<noteq> pe_ntdll"
  "pe_foo \<noteq> pe_ntdll" "pe_foo \<noteq> pe_kernel32"
  by (simp_all add: pe_app_def pe_ntdll_def pe_kernel32_def pe_foo_def)

lemma mi_full_fields:
  "modules mi_full = [pe_foo, pe_kernel32, pe_app, pe_ntdll]"
  "name2module mi_full ''app.exe'' = Some pe_app"
  "name2module mi_full ''ntdll.dll'' = Some pe_ntdll"
  "name2module mi_full ''kernel32.dll'' = Some pe_kernel32"
  "name2module mi_full ''foo.dll'' = Some pe_foo"
  "module2entry mi_full pe_app = Some 0x344f00"
  "module2entry mi_full pe_ntdll = Some 0x345f00"
  "module2entry mi_full pe_kernel32 = Some 0x343f00"
  "module2entry mi_full pe_foo = Some 0x342f00"
  by (simp_all add: mi_full_def register_all_def add_def LoadedModules_init_def pe_distinct)

lemma mi_degraded_fields:
  "modules mi_degraded = [pe_foo, pe_app]"
  "name2module mi_degraded ''app.exe'' = Some pe_app"
  "name2module mi_degraded ''ntdll.dll'' = None"
  "name2module mi_degraded ''kernel32.dll'' = None"
  "module2entry mi_degraded pe_app = Some 0x343f00"
  "module2entry mi_degraded pe_foo = Some 0x342f00"
  by (simp_all add: mi_degraded_def register_all_def add_def LoadedModules_init_def pe_distinct)

lemma jitter_L_fields: "vm jitter_L = zero_page 0x342000 0x347000" "log jitter_L = []"
  by (simp_all add: jitter_L_def)

lemma entries_ok_full: "entries_ok (vm jitter_L) mi_full"
  by (simp add: entries_ok_def mi_full_fields jitter_L_fields pe_distinct zero_page_mapped)

lemma entries_ok_degraded: "entries_ok (vm jitter_L) mi_degraded"
  by (simp add: entries_ok_def mi_degraded_fields jitter_L_fields pe_distinct zero_page_mapped)

lemma specials_ok_full: "specials_ok ''app.exe'' mi_full"
  by (simp add: specials_ok_def specials_def mi_full_fields pe_distinct)

lemma heads_free_L: "heads_free (vm jitter_L)"
  unfolding heads_free_def list_all_iff
  by (auto simp: jitter_L_fields zero_page_def peb_ldr_data_address_def LDR_AD_def
        peb_ldr_data_offset_def)

section \<open>Fixups without one of the named modules\<close>

lemma degraded_iff:
  "(\<not> list_all (\<lambda>s. s \<noteq> None) (specials n mi)) \<longleftrightarrow>
   (name2module mi n = None \<or> name2module mi ''ntdll.dll'' = None \<or>
    name2module mi ''kernel32.dll'' = None)"
  by (auto simp: specials_def)

lemma required_orders_degraded:
  "\<not> list_all (\<lambda>s. s \<noteq> None) (specials n mi) \<Longrightarrow> required_load_order n mi = modules mi"
  "\<not> list_all (\<lambda>s. s \<noteq> None) (specials n mi) \<Longrightarrow> required_init_order n mi = modules mi"
  by (simp_all add: required_load_order_def required_init_order_def)

text \<open>
  C6. When at least one of the main executable, \<open>ntdll.dll\<close> and \<open>kernel32.dll\<close> is
  absent from the registry, and the registered modules are distinct objects with mapped
  entries apart from each other, each of the three fixups returns without error, appends
  one warning to the log, and leaves all registered modules linked in registration order
  through its pair of link fields; run one after the other, as \<open>init_seh\<close> does, they
  leave all three lists linked in registration order.
\<close>

theorem fixups_degrade_to_registration_order:
  assumes ok: "entries_ok (vm j) mi"
    and absent: "name2module mi n = None \<or> name2module mi ''ntdll.dll'' = None \<or>
                 name2module mi ''kernel32.dll'' = None"
  shows "(\<exists>j'. fix_InLoadOrderModuleList n j mi = Inr j' \<and>
            linked (vm j') mi 0 (modules mi) \<and>
            log j' = log j @ [(WARNING, ''No main pe, ldr data will be unconsistant %r'')]) \<and>
         (\<exists>j'. fix_InMemoryOrderModuleList n j mi = Inr j' \<and>
            linked (vm j') mi 8 (modules mi) \<and>
            log j' = log j @ [(WARNING, ''No main pe, ldr data will be unconsistant'')]) \<and>
         (\<exists>j'. fix_InInitializationOrderModuleList n j mi = Inr j' \<and>
            linked (vm j') mi 0x10 (modules mi) \<and>
            log j' = log j @ [(WARNING, ''No main pe, ldr data will be unconsistant'')]) \<and>
         (\<exists>j1 j2 j3.
            fix_InLoadOrderModuleList n j mi = Inr j1 \<and>
            fix_InMemoryOrderModuleList n j1 mi = Inr j2 \<and>
            fix_InInitializationOrderModuleList n j2 mi = Inr j3 \<and>
            linked (vm j3) mi 0 (modules mi) \<and> linked (vm j3) mi 8 (modules mi) \<and>
            linked (vm j3) mi 0x10 (modules mi) \<and>
            log j3 = log j @ [(WARNING, ''No main pe, ldr data will be unconsistant %r''),
                              (WARNING, ''No main pe, ldr data will be unconsistant''),
                              (WARNING, ''No main pe, ldr data will be unconsistant'')])"
proof -
  from absent have d: "\<not> list_all (\<lambda>s. s \<noteq> None) (specials n mi)" by (simp only: degraded_iff)
  then have sp: "specials_ok n mi \<or> \<not> list_all (\<lambda>s. s \<noteq> None) (specials n mi)" by simp
  note r = required_orders_degraded [OF d]
  have a: "\<exists>j'. fix_InLoadOrderModuleList n j mi = Inr j' \<and>
            linked (vm j') mi 0 (modules mi) \<and>
            log j' = log j @ [(WARNING, ''No main pe, ldr data will be unconsistant %r'')]"
    using fix_InLoadOrderModuleList_ok [OF ok sp] d by (auto simp: r)
  have b: "\<exists>j'. fix_InMemoryOrderModuleList n j mi = Inr j' \<and>
            linked (vm j') mi 8 (modules mi) \<and>
            log j' = log j @ [(WARNING, ''No main pe, ldr data will be unconsistant'')]"
    using fix_InMemoryOrderModuleList_ok [OF ok sp] d by (auto simp: r)
  have c: "\<exists>j'. fix_InInitializationOrderModuleList n j mi = Inr j' \<and>
            linked (vm j') mi 0x10 (modules mi) \<and>
            log j' = log j @ [(WARNING, ''No main pe, ldr data will be unconsistant'')]"
    using fix_InInitializationOrderModuleList_ok [OF ok sp] d by (auto simp: r)
  have s: "\<exists>j1 j2 j3.
            fix_InLoadOrderModuleList n j mi = Inr j1 \<and>
            fix_InMemoryOrderModuleList n j1 mi = Inr j2 \<and>
            fix_InInitializationOrderModuleList n j2 mi = Inr j3 \<and>
            linked (vm j3) mi 0 (modules mi) \<and> linked (vm j3) mi 8 (modules mi) \<and>
            linked (vm j3) mi 0x10 (modules mi) \<and>
            log j3 = log j @ [(WARNING, ''No main pe, ldr data will be unconsistant %r''),
                              (WARNING, ''No main pe, ldr data will be unconsistant''),
                              (WARNING, ''No main pe, ldr data will be unconsistant'')]"
  proof -
    from fixups_ok [OF ok sp] d obtain j1 j2 j3 where
      "fix_InLoadOrderModuleList n j mi = Inr j1"
      "fix_InMemoryOrderModuleList n j1 mi = Inr j2"
      "fix_InInitializationOrderModuleList n j2 mi = Inr j3"
      "linked (vm j3) mi 0 (modules mi)" "linked (vm j3) mi 8 (modules mi)"
      "linked (vm j3) mi 0x10 (modules mi)"
      "log j3 = log j @ [(WARNING, ''No main pe, ldr data will be unconsistant %r''),
                         (WARNING, ''No main pe, ldr data will be unconsistant''),
                         (WARNING, ''No main pe, ldr data will be unconsistant'')]"
      by (auto simp: r)
    then show ?thesis by blast
  qed
  from a b c s show ?thesis by (intro conjI)
qed

lemma linked_two:
  "linked mem mi off [a, b] \<longleftrightarrow>
     read32 mem (link_of mi off a) = Inr (link_of mi off b) \<and>
     read32 mem (link_of mi off a + 4) = Inr (list_head off) \<and>
     read32 mem (link_of mi off b) = Inr (list_head off) \<and>
     read32 mem (link_of mi off b + 4) = Inr (link_of mi off a)"
  by (auto simp: linked_def)

theorem fixups_degrade_to_registration_order_witness:
  "entries_ok (vm jitter_L) mi_degraded \<and>
   name2module mi_degraded ''ntdll.dll'' = None \<and>
   (\<exists>j'. fix_InLoadOrderModuleList ''app.exe'' jitter_L mi_degraded = Inr j' \<and>
      read32 (vm j') 0x342f00 = Inr 0x343f00 \<and> read32 (vm j') 0x342f04 = Inr 0x341eac \<and>
      read32 (vm j') 0x343f00 = Inr 0x341eac \<and> read32 (vm j') 0x343f04 = Inr 0x342f00 \<and>
      log j' = [(WARNING, ''No main pe, ldr data will be unconsistant %r'')]) \<and>
   (\<exists>j'. fix_InInitializationOrderModuleList ''app.exe'' jitter_L mi_degraded = Inr j' \<and>
      read32 (vm j') 0x342f10 = Inr 0x343f10 \<and> read32 (vm j') 0x342f14 = Inr 0x341ebc \<and>
      read32 (vm j') 0x343f10 = Inr 0x341ebc \<and> read32 (vm j') 0x343f14 = Inr 0x342f10 \<and>
      log j' = [(WARNING, ''No main pe, ldr data will be unconsistant'')])"
  using fixups_degrade_to_registration_order [of jitter_L mi_degraded "''app.exe''"]
    entries_ok_degraded
  by (simp add: mi_degraded_fields jitter_L_fields linked_two link_of_def list_head_def
        peb_ldr_data_address_def LDR_AD_def peb_ldr_data_offset_def)

section \<open>Walking the lists\<close>

lemma distinct_subset_length:
  assumes "distinct xs" "set xs \<subseteq> set ys"
  shows "length xs \<le> length ys"
proof -
  have "length xs = card (set xs)" using assms(1) by (simp add: distinct_card)
  also have "\<dots> \<le> card (set ys)" using assms(2) by (simp add: card_mono)
  also have "\<dots> \<le> length ys" by (rule card_length)
  finally show ?thesis .
qed

lemma link_of_inj:
  assumes ok: "entries_ok mem mi" and d: "distinct ms" and s: "set ms \<subseteq> set (modules mi)"
  shows "distinct (map (link_of mi off) ms)"
proof -
  have "inj_on (link_of mi off) (set ms)"
  proof (rule inj_onI)
    fix x y assume x: "x \<in> set ms" and y: "y \<in> set ms" and e: "link_of mi off x = link_of mi off y"
    from x y s have "x \<in> set (modules mi)" "y \<in> set (modules mi)" by blast+
    from entries_okD(3) [OF ok this] e show "x = y" by (auto simp: link_of_def)
  qed
  with d show ?thesis by (simp add: distinct_map)
qed

lemma init_seh_lists_walks:
  assumes ok: "entries_ok (vm j) mi" and sp: "specials_ok n mi" and hf: "heads_free (vm j)"
    and fu: "length (modules mi) < fuel"
  shows "\<exists>j'. init_seh_lists n j mi = Inr j' \<and>
       traverse (vm j') 0 (list_head 0) fuel = Some (map (link_of mi 0) (required_load_order n mi)) \<and>
       follow (vm j') 4 (list_head 0) (link_of mi 0 (last (required_load_order n mi))) fuel
         = Some (rev (map (link_of mi 0) (required_load_order n mi))) \<and>
       traverse (vm j') 0 (list_head 8) fuel = Some (map (link_of mi 8) (required_load_order n mi)) \<and>
       follow (vm j') 4 (list_head 8) (link_of mi 8 (last (required_load_order n mi))) fuel
         = Some (rev (map (link_of mi 8) (required_load_order n mi))) \<and>
       traverse (vm j') 0 (list_head 0x10) fuel
         = Some (map (link_of mi 0x10) (required_init_order n mi)) \<and>
       follow (vm j') 4 (list_head 0x10) (link_of mi 0x10 (last (required_init_order n mi))) fuel
         = Some (rev (map (link_of mi 0x10) (required_init_order n mi))) \<and>
       read32 (vm j') (list_head 0 + 4) = Inr 0 \<and>
       read32 (vm j') (list_head 8 + 4) = Inr 0 \<and>
       read32 (vm j') (list_head 0x10 + 4) = Inr 0 \<and>
       (\<forall>x. vm j x = None \<and>
            (x < peb_ldr_data_address + 0xC \<or> peb_ldr_data_address + 0x28 \<le> x)
            \<longrightarrow> vm j' x = None) \<and>
       log j' = log j"
proof -
  have sp': "specials_ok n mi \<or> \<not> list_all (\<lambda>s. s \<noteq> None) (specials n mi)" using sp by simp
  note r = required_orders_ok [OF entries_okD(1) [OF ok] sp']
  from specials_okD [OF sp] obtain a b k where
    s: "name2module mi n = Some a" "name2module mi ''ntdll.dll'' = Some b"
       "name2module mi ''kernel32.dll'' = Some k"
    by blast
  note ro = required_orders_full [OF s]
  have ne: "required_load_order n mi \<noteq> []" "required_init_order n mi \<noteq> []"
    by (simp_all add: ro)
  have fl: "length (required_load_order n mi) < fuel"
    using distinct_subset_length [OF r(1) r(2)] fu by simp
  have fi: "length (required_init_order n mi) < fuel"
    using distinct_subset_length [OF r(3) r(4)] fu by simp
  have nh0: "\<forall>m \<in> set (required_load_order n mi). link_of mi 0 m \<noteq> list_head 0"
    using heads_not_links [OF ok hf, of _ 0 0] r(2) by (auto simp: list_head_def)
  have nh8: "\<forall>m \<in> set (required_load_order n mi). link_of mi 8 m \<noteq> list_head 8"
    using heads_not_links [OF ok hf, of _ 8 8] r(2) by (auto simp: list_head_def)
  have nh16: "\<forall>m \<in> set (required_init_order n mi). link_of mi 0x10 m \<noteq> list_head 0x10"
    using heads_not_links [OF ok hf, of _ "0x10" "0x10"] r(4) by (auto simp: list_head_def)
  from init_seh_lists_full [OF ok sp hf] obtain j' where
    i: "init_seh_lists n j mi = Inr j'"
    and l: "linked (vm j') mi 0 (required_load_order n mi)"
       "linked (vm j') mi 8 (required_load_order n mi)"
       "linked (vm j') mi 0x10 (required_init_order n mi)"
    and h: "read32 (vm j') (list_head 0) = Inr (link_of mi 0 (hd (required_load_order n mi)))"
       "read32 (vm j') (list_head 8) = Inr (link_of mi 8 (hd (required_load_order n mi)))"
       "read32 (vm j') (list_head 0x10) = Inr (link_of mi 0x10 (hd (required_init_order n mi)))"
    and z: "read32 (vm j') (list_head 0 + 4) = Inr 0" "read32 (vm j') (list_head 8 + 4) = Inr 0"
       "read32 (vm j') (list_head 0x10 + 4) = Inr 0"
    and un: "\<forall>x. vm j x = None \<and>
            (x < peb_ldr_data_address + 0xC \<or> peb_ldr_data_address + 0x28 \<le> x)
            \<longrightarrow> vm j' x = None"
    and g: "log j' = log j"
    by blast
  note t0 = traverse_forward [OF l(1) ne(1) h(1) nh0 fl]
    and b0 = follow_back_from_last [OF l(1) ne(1) nh0 fl]
    and t8 = traverse_forward [OF l(2) ne(1) h(2) nh8 fl]
    and b8 = follow_back_from_last [OF l(2) ne(1) nh8 fl]
    and t16 = traverse_forward [OF l(3) ne(2) h(3) nh16 fi]
    and b16 = follow_back_from_last [OF l(3) ne(2) nh16 fi]
  from i t0 b0 t8 b8 t16 b16 z un g show ?thesis by blast
qed

lemma filter_single:
  "distinct xs \<Longrightarrow> f \<in> set xs \<Longrightarrow> (\<forall>x \<in> set xs. P x \<longleftrightarrow> x = f) \<Longrightarrow> filter P xs = [f]"
  by (induction xs) (auto simp: filter_empty_conv)

text \<open>
  C5. When the registered modules are exactly the main executable \<open>app.exe\<close>,
  \<open>ntdll.dll\<close>, \<open>kernel32.dll\<close> and \<open>foo.dll\<close> (four different objects, registered in
  any order, with mapped entries apart from each other, the list heads not mapped yet),
  the linking succeeds, the load-order and memory-order lists walked from their heads are
  \<open>app.exe\<close>, \<open>ntdll.dll\<close>, \<open>kernel32.dll\<close>, \<open>foo.dll\<close>, and the initialization-order
  list is \<open>ntdll.dll\<close>, \<open>kernel32.dll\<close>, \<open>foo.dll\<close>: the main executable is not in it.
\<close>

theorem loader_lists_four_modules:
  assumes names: "name2module mi ''app.exe'' = Some a" "name2module mi ''ntdll.dll'' = Some nt"
      "name2module mi ''kernel32.dll'' = Some k" "name2module mi ''foo.dll'' = Some f"
    and four: "set (modules mi) = {a, nt, k, f}" "distinct [a, nt, k, f]"
    and ok: "entries_ok (vm j) mi" and hf: "heads_free (vm j)"
  shows "\<exists>j'. init_seh_lists ''app.exe'' j mi = Inr j' \<and>
       traverse (vm j') 0 (list_head 0) 5 = Some (map (link_of mi 0) [a, nt, k, f]) \<and>
       traverse (vm j') 0 (list_head 8) 5 = Some (map (link_of mi 8) [a, nt, k, f]) \<and>
       traverse (vm j') 0 (list_head 0x10) 5 = Some (map (link_of mi 0x10) [nt, k, f]) \<and>
       link_of mi 0x10 a \<notin> set (map (link_of mi 0x10) [nt, k, f])"
proof -
  have d: "distinct (modules mi)" by (rule entries_okD(1) [OF ok])
  have sp: "specials_ok ''app.exe'' mi"
    using names four by (simp add: specials_ok_def specials_def)
  have "length (modules mi) = card (set (modules mi))" using d by (simp add: distinct_card)
  also have "\<dots> = 4" using four by simp
  finally have fu: "length (modules mi) < 5" by simp
  have fl: "filter (\<lambda>m. m \<noteq> a \<and> m \<noteq> nt \<and> m \<noteq> k) (modules mi) = [f]"
    using four by (intro filter_single [OF d]) auto
  note ro = required_orders_full [OF names(1-3), unfolded fl]
  have dl: "distinct (map (link_of mi 0x10) [a, nt, k, f])"
    using four by (intro link_of_inj [OF ok]) simp_all
  from init_seh_lists_walks [OF ok sp hf fu] obtain j' where
    "init_seh_lists ''app.exe'' j mi = Inr j'"
    "traverse (vm j') 0 (list_head 0) 5 = Some (map (link_of mi 0) [a, nt, k, f])"
    "traverse (vm j') 0 (list_head 8) 5 = Some (map (link_of mi 8) [a, nt, k, f])"
    "traverse (vm j') 0 (list_head 0x10) 5 = Some (map (link_of mi 0x10) [nt, k, f])"
    unfolding ro by blast
  with dl show ?thesis by (intro exI [of _ j']) simp
qed

theorem loader_lists_four_modules_witness:
  "name2module mi_full ''app.exe'' = Some pe_app \<and>
   name2module mi_full ''ntdll.dll'' = Some pe_ntdll \<and>
   name2module mi_full ''kernel32.dll'' = Some pe_kernel32 \<and>
   name2module mi_full ''foo.dll'' = Some pe_foo \<and>
   modules mi_full = [pe_foo, pe_kernel32, pe_app, pe_ntdll] \<and>
   distinct [pe_app, pe_ntdll, pe_kernel32, pe_foo] \<and>
   entries_ok (vm jitter_L) mi_full \<and> heads_free (vm jitter_L) \<and>
   (\<exists>j'. init_seh_lists ''app.exe'' jitter_L mi_full = Inr j' \<and>
      traverse (vm j') 0 0x341eac 5 = Some [0x344f00, 0x345f00, 0x343f00, 0x342f00] \<and>
      traverse (vm j') 0 0x341eb4 5 = Some [0x344f08, 0x345f08, 0x343f08, 0x342f08] \<and>
      traverse (vm j') 0 0x341ebc 5 = Some [0x345f10, 0x343f10, 0x342f10])"
proof -
  have s: "set (modules mi_full) = {pe_app, pe_ntdll, pe_kernel32, pe_foo}"
    by (auto simp: mi_full_fields)
  have d: "distinct [pe_app, pe_ntdll, pe_kernel32, pe_foo]" by (simp add: pe_distinct)
  from loader_lists_four_modules [OF mi_full_fields(2,3,4,5) s d entries_ok_full heads_free_L]
  show ?thesis
    using entries_ok_full heads_free_L d
    by (simp add: mi_full_fields link_of_def list_head_def peb_ldr_data_address_def LDR_AD_def
          peb_ldr_data_offset_def)
qed

section \<open>The head back links\<close>

lemma read32_unmapped: "mem a = None \<Longrightarrow> read32 mem a = Inl MemError"
proof -
  assume "mem a = None"
  then have "\<not> is_mapped mem a 4" by (auto simp: is_mapped_iff intro: exI [of _ 0])
  then show ?thesis by (simp add: read32_def get_mem_def ebind_def)
qed

lemma list_head_values: "list_head 0 = 0x341eac" "list_head 8 = 0x341eb4" "list_head 0x10 = 0x341ebc"
  by (simp_all add: list_head_def peb_ldr_data_address_def LDR_AD_def peb_ldr_data_offset_def)

lemma low_unmapped_L:
  "vm jitter_L 4 = None \<and> ((4::int) < peb_ldr_data_address + 0xC \<or> peb_ldr_data_address + 0x28 \<le> 4)"
  by (simp add: jitter_L_fields zero_page_def peb_ldr_data_address_def LDR_AD_def
        peb_ldr_data_offset_def)

lemma required_orders_mi_full:
  "required_load_order ''app.exe'' mi_full = [pe_app, pe_ntdll, pe_kernel32, pe_foo]"
  "required_init_order ''app.exe'' mi_full = [pe_ntdll, pe_kernel32, pe_foo]"
  by (simp_all add: required_orders_full [OF mi_full_fields(2,3,4)] mi_full_fields pe_distinct)

lemma full_ring_at_entries:
  "\<exists>j'. init_seh_lists ''app.exe'' jitter_L mi_full = Inr j' \<and>
     read32 (vm j') (list_head 0) = Inr (link_of mi_full 0 pe_app) \<and>
     read32 (vm j') (link_of mi_full 0 pe_app + 4) = Inr (list_head 0) \<and>
     read32 (vm j') (link_of mi_full 0 pe_foo) = Inr (list_head 0)"
proof -
  from init_seh_lists_full [OF entries_ok_full specials_ok_full heads_free_L] obtain j' where
    i: "init_seh_lists ''app.exe'' jitter_L mi_full = Inr j'"
    and l: "linked (vm j') mi_full 0 [pe_app, pe_ntdll, pe_kernel32, pe_foo]"
    and h: "read32 (vm j') (list_head 0) = Inr (link_of mi_full 0 pe_app)"
    unfolding required_orders_mi_full by auto
  from l have a: "read32 (vm j') (link_of mi_full 0 pe_app + 4) = Inr (list_head 0)"
    unfolding linked_iff by (auto dest: spec [of _ 0])
  from l have b: "read32 (vm j') (link_of mi_full 0 pe_foo) = Inr (list_head 0)"
    unfolding linked_iff by (auto dest: spec [of _ 3])
  from i h a b show ?thesis by blast
qed

lemma full_walk_back_from_head:
  "\<exists>j'. init_seh_lists ''app.exe'' jitter_L mi_full = Inr j' \<and>
     traverse (vm j') 0 (list_head 0) 5
       = Some (map (link_of mi_full 0) [pe_app, pe_ntdll, pe_kernel32, pe_foo]) \<and>
     read32 (vm j') (list_head 0 + 4) = Inr 0 \<and>
     read32 (vm j') (list_head 8 + 4) = Inr 0 \<and>
     read32 (vm j') (list_head 0x10 + 4) = Inr 0 \<and>
     read32 (vm j') 4 = Inl MemError \<and>
     traverse (vm j') 4 (list_head 0) 5 = None \<and>
     traverse (vm j') 4 (list_head 8) 5 = None \<and>
     traverse (vm j') 4 (list_head 0x10) 5 = None"
proof -
  have fu: "length (modules mi_full) < 5" by (simp add: mi_full_fields)
  from init_seh_lists_walks [OF entries_ok_full specials_ok_full heads_free_L fu] obtain j' where
    i: "init_seh_lists ''app.exe'' jitter_L mi_full = Inr j'"
    and t: "traverse (vm j') 0 (list_head 0) 5
       = Some (map (link_of mi_full 0) [pe_app, pe_ntdll, pe_kernel32, pe_foo])"
    and z: "read32 (vm j') (list_head 0 + 4) = Inr 0" "read32 (vm j') (list_head 8 + 4) = Inr 0"
       "read32 (vm j') (list_head 0x10 + 4) = Inr 0"
    and un: "\<forall>x. vm jitter_L x = None \<and>
            (x < peb_ldr_data_address + 0xC \<or> peb_ldr_data_address + 0x28 \<le> x)
            \<longrightarrow> vm j' x = None"
    unfolding required_orders_mi_full by blast
  from un low_unmapped_L have "vm j' 4 = None" by blast
  then have e: "read32 (vm j') 4 = Inl MemError" by (rule read32_unmapped)
  have f: "\<And>h. h \<noteq> 0 \<Longrightarrow> follow (vm j') 4 h 0 5 = None"
    using e by (simp add: eval_nat_numeral)
  have "traverse (vm j') 4 (list_head 0) 5 = None" "traverse (vm j') 4 (list_head 8) 5 = None"
    "traverse (vm j') 4 (list_head 0x10) 5 = None"
    using z f [of "list_head 0"] f [of "list_head 8"] f [of "list_head 0x10"]
    by (simp_all add: traverse_def list_head_values)
  with i t z e show ?thesis by blast
qed

text \<open>
  C2. With \<open>app.exe\<close>, \<open>ntdll.dll\<close>, \<open>kernel32.dll\<close> and \<open>foo.dll\<close> registered, the
  fixups and \<open>build_ldr_data\<close> succeed, and the forward walk of the load-order list from
  its head visits the four members and comes back to the head. The ring is closed at the
  entries: the back link of the first member and the forward link of the last member are
  the head. But the back link of each of the three heads holds 0 instead of the last
  member, so the backward walk from the head's back link reads address 4, which is not
  mapped, and visits nothing: it is not the reverse of the forward walk, as the claim
  requires.
\<close>

theorem loader_lists_head_back_link:
  "\<not> isl (init_seh_lists ''app.exe'' jitter_L mi_full) \<and>
   traverse (vm (projr (init_seh_lists ''app.exe'' jitter_L mi_full))) 0 (list_head 0) 5
     = Some (map (link_of mi_full 0) [pe_app, pe_ntdll, pe_kernel32, pe_foo]) \<and>
   read32 (vm (projr (init_seh_lists ''app.exe'' jitter_L mi_full))) (link_of mi_full 0 pe_app + 4)
     = Inr (list_head 0) \<and>
   read32 (vm (projr (init_seh_lists ''app.exe'' jitter_L mi_full))) (link_of mi_full 0 pe_foo)
     = Inr (list_head 0) \<and>
   read32 (vm (projr (init_seh_lists ''app.exe'' jitter_L mi_full))) (list_head 0 + 4) = Inr 0 \<and>
   read32 (vm (projr (init_seh_lists ''app.exe'' jitter_L mi_full))) (list_head 8 + 4) = Inr 0 \<and>
   read32 (vm (projr (init_seh_lists ''app.exe'' jitter_L mi_full))) (list_head 0x10 + 4) = Inr 0 \<and>
   read32 (vm (projr (init_seh_lists ''app.exe'' jitter_L mi_full))) 4 = Inl MemError \<and>
   traverse (vm (projr (init_seh_lists ''app.exe'' jitter_L mi_full))) 4 (list_head 0) 5 = None \<and>
   traverse (vm (projr (init_seh_lists ''app.exe'' jitter_L mi_full))) 4 (list_head 8) 5 = None \<and>
   traverse (vm (projr (init_seh_lists ''app.exe'' jitter_L mi_full))) 4 (list_head 0x10) 5 = None \<and>
   traverse (vm (projr (init_seh_lists ''app.exe'' jitter_L mi_full))) 4 (list_head 0) 5
     \<noteq> Some (rev (map (link_of mi_full 0) [pe_app, pe_ntdll, pe_kernel32, pe_foo]))"
proof -
  from full_walk_back_from_head obtain j' where
    a: "init_seh_lists ''app.exe'' jitter_L mi_full = Inr j'"
       "traverse (vm j') 0 (list_head 0) 5
          = Some (map (link_of mi_full 0) [pe_app, pe_ntdll, pe_kernel32, pe_foo])"
       "read32 (vm j') (list_head 0 + 4) = Inr 0" "read32 (vm j') (list_head 8 + 4) = Inr 0"
       "read32 (vm j') (list_head 0x10 + 4) = Inr 0" "read32 (vm j') 4 = Inl MemError"
       "traverse (vm j') 4 (list_head 0) 5 = None" "traverse (vm j') 4 (list_head 8) 5 = None"
       "traverse (vm j') 4 (list_head 0x10) 5 = None"
    by blast
  from full_ring_at_entries a(1) have
    b: "read32 (vm j') (link_of mi_full 0 pe_app + 4) = Inr (list_head 0)"
       "read32 (vm j') (link_of mi_full 0 pe_foo) = Inr (list_head 0)"
    by auto
  from a b show ?thesis by simp
qed

end
